(* ===== verification/Prelude.thy ===== *)
theory Prelude
  imports Main "HOL-Library.Word"
begin

text \<open>
  Shared vocabulary of the development: the Go types the proxy uses (machine integers,
  strings, times, maps), the few functions of Go's standard library that several components
  call, and the generic facts about them.

  \<^item> A Go \<^verbatim>\<open>string\<close> is a sequence of bytes; it is modelled by \<^typ>\<open>string\<close>, whose characters
    are bytes.
  \<^item> Fixed-width integers whose wrap-around or truncation the code can observe (wire fields,
    entity identifiers, weights) are words; signed ones are read by \<^term>\<open>sint\<close>. Counters that
    only ever move by one (player counts, failure counts) are \<^typ>\<open>int\<close>.
  \<^item> A \<^verbatim>\<open>time.Time\<close> is a number of nanoseconds since the Unix epoch, a \<^verbatim>\<open>time.Duration\<close> a
    number of nanoseconds.
  \<^item> A Go map is a partial function. The order in which \<^verbatim>\<open>range\<close> visits a map is not specified
    by the language, so every loop over a map takes the visited keys as an argument, and
    \<open>range_order\<close> says what Go promises of them: each key once.
  \<^item> A pointer is a natural number, an index into a heap of objects, so that pointer
    comparison (\<^verbatim>\<open>==\<close> on \<^verbatim>\<open>*Server\<close>, \<^verbatim>\<open>*Session\<close>, \<^verbatim>\<open>*Client\<close>) is equality of numbers and two
    objects with the same contents stay distinct.
\<close>

section \<open>Types\<close>

type_synonym byte = "8 word"
type_synonym uint8 = "8 word"
type_synonym uint16 = "16 word"
type_synonym uint32 = "32 word"
type_synonym uint64 = "64 word"
type_synonym int32 = "32 word"
type_synonym int64 = "64 word"
type_synonym time = int
type_synonym duration = int
type_synonym uuid = "128 word"
type_synonym handle = nat

section \<open>Collections of facts\<close>

named_theorems ref_upd_simps \<open>reading a heap or a map after an update\<close>
named_theorems wire_rt \<open>round trips of the wire primitives\<close>

section \<open>Go strings\<close>

subsection \<open>strings.ToLower and strings.EqualFold\<close>

text \<open>
  Letters outside ASCII are left as they are: names are compared exactly as Go compares them
  when they are ASCII, which gamertags and the backend names of a configuration are.
\<close>

definition lower_char :: "char \<Rightarrow> char" where
  "lower_char c =
     (let n = of_char c :: nat in if 65 \<le> n \<and> n \<le> 90 then char_of (n + 32) else c)"

definition ToLower :: "string \<Rightarrow> string" where
  "ToLower s = map lower_char s"

definition EqualFold :: "string \<Rightarrow> string \<Rightarrow> bool" where
  "EqualFold s t \<longleftrightarrow> ToLower s = ToLower t"

subsection \<open>strings.Contains, strings.Cut, strings.HasPrefix, strings.TrimRight\<close>

fun HasPrefix :: "string \<Rightarrow> string \<Rightarrow> bool" where
  "HasPrefix s [] = True"
| "HasPrefix [] (p # ps) = False"
| "HasPrefix (c # s) (p # ps) = (c = p \<and> HasPrefix s ps)"

fun Contains :: "string \<Rightarrow> string \<Rightarrow> bool" where
  "Contains [] sub = (sub = [])"
| "Contains (c # s) sub = (HasPrefix (c # s) sub \<or> Contains s sub)"

text \<open>\<open>Cut\<close> with a separator of one character: the text before and after its first occurrence.\<close>

fun Cut :: "string \<Rightarrow> char \<Rightarrow> string \<times> string \<times> bool" where
  "Cut [] sep = ([], [], False)"
| "Cut (c # s) sep =
     (if c = sep then ([], s, True)
      else (case Cut s sep of (before, after, found) \<Rightarrow> (c # before, after, found)))"

subsection \<open>Decimal integers\<close>

fun show_nat :: "nat \<Rightarrow> string" where
  "show_nat n =
     (if n < 10 then [char_of (48 + n)] else show_nat (n div 10) @ [char_of (48 + n mod 10)])"

declare show_nat.simps [simp del]

definition show_int :: "int \<Rightarrow> string" where
  "show_int i = (if i < 0 then ''-'' @ show_nat (nat (- i)) else show_nat (nat i))"

subsection \<open>Quoted strings\<close>

text \<open>The verb \<^verbatim>\<open>%q\<close> of \<^verbatim>\<open>fmt\<close>: double quotes around the text, with quotes, backslashes and control
  characters escaped. Bytes outside ASCII are left as they are.\<close>

definition hex_digit :: "nat \<Rightarrow> char" where
  "hex_digit n = char_of (if n < 10 then 48 + n else 87 + n)"

definition quote_char :: "char \<Rightarrow> string" where
  "quote_char c =
     (let n = of_char c :: nat; esc = (\<lambda>e. [char_of (92 :: nat), e]) in
      if n = 34 \<or> n = 92 then esc c
      else if n = 7 then esc CHR ''a'' else if n = 8 then esc CHR ''b'' else if n = 12 then esc CHR ''f''
      else if n = 10 then esc CHR ''n'' else if n = 13 then esc CHR ''r'' else if n = 9 then esc CHR ''t''
      else if n = 11 then esc CHR ''v''
      else if n < 32 \<or> n = 127 then esc CHR ''x'' @ [hex_digit (n div 16), hex_digit (n mod 16)]
      else [c])"

definition Quote :: "string \<Rightarrow> string" where
  "Quote s = char_of (34 :: nat) # concat (map quote_char s) @ [char_of (34 :: nat)]"

section \<open>Time\<close>

text \<open>\<^verbatim>\<open>time.Second\<close>, \<^verbatim>\<open>time.Minute\<close>, the zero \<^verbatim>\<open>time.Time\<close> (January 1, year 1 UTC), and
  \<^verbatim>\<open>Time.Sub\<close>, which saturates at the bounds of the 64-bit \<^verbatim>\<open>Duration\<close>.\<close>

definition Second :: duration where
  "Second = 1000000000"

definition Minute :: duration where
  "Minute = 60 * Second"

definition zero_time :: time where
  "zero_time = - 62135596800 * Second"

definition max_duration :: duration where
  "max_duration = 9223372036854775807"

definition time_Sub :: "time \<Rightarrow> time \<Rightarrow> duration" where
  "time_Sub t u = max (- max_duration - 1) (min max_duration (t - u))"

text \<open>\<^verbatim>\<open>Duration.Milliseconds\<close> truncates towards zero.\<close>

definition Milliseconds :: "duration \<Rightarrow> int" where
  "Milliseconds d = (if d < 0 then - (- d div 1000000) else d div 1000000)"

section \<open>Ranging over a map\<close>

definition range_order :: "('k \<rightharpoonup> 'v) \<Rightarrow> 'k list \<Rightarrow> bool" where
  "range_order m ks \<longleftrightarrow> distinct ks \<and> set ks = dom m"

definition range_vals :: "('k \<rightharpoonup> 'v) \<Rightarrow> 'k list \<Rightarrow> 'v list" where
  "range_vals m ks = List.map_filter m ks"

section \<open>Facts\<close>

lemma lower_char_idem [simp]: "lower_char (lower_char c) = lower_char c"
  by (auto simp: lower_char_def Let_def)

lemma ToLower_idem [simp]: "ToLower (ToLower s) = ToLower s"
  by (simp add: ToLower_def)

lemma length_ToLower [simp]: "length (ToLower s) = length s"
  by (simp add: ToLower_def)

lemma ToLower_Nil_iff [simp]: "ToLower s = [] \<longleftrightarrow> s = []"
  by (simp add: ToLower_def)

lemma HasPrefix_iff: "HasPrefix s p \<longleftrightarrow> (\<exists>r. s = p @ r)"
  by (induction s p rule: HasPrefix.induct) auto

lemma HasPrefix_append [simp]: "HasPrefix (p @ r) p"
  by (auto simp: HasPrefix_iff)

lemma Contains_iff: "Contains s sub \<longleftrightarrow> (\<exists>a b. s = a @ sub @ b)"
proof (induction s)
  case Nil
  then show ?case by auto
next
  case (Cons c s)
  have "(\<exists>a b. c # s = a @ sub @ b) \<longleftrightarrow>
      (\<exists>r. c # s = sub @ r) \<or> (\<exists>a b. s = a @ sub @ b)"
    by (metis append_Cons append_Nil append_eq_Cons_conv)
  with Cons show ?case by (simp add: HasPrefix_iff)
qed

lemma Cut_append:
  "sep \<notin> set a \<Longrightarrow> Cut (a @ sep # b) sep = (a, b, True)"
  by (induction a) auto

lemma Cut_not_in: "sep \<notin> set a \<Longrightarrow> Cut a sep = (a, [], False)"
  by (induction a) auto

lemma Cut_found_iff: "snd (snd (Cut s sep)) \<longleftrightarrow> sep \<in> set s"
  by (induction s) (auto split: prod.splits)

lemma time_Sub_gt_iff:
  "d < max_duration \<Longrightarrow> - max_duration - 1 \<le> d \<Longrightarrow> d < time_Sub t u \<longleftrightarrow> d < t - u"
  by (auto simp: time_Sub_def max_duration_def)

lemma time_Sub_mono: "t \<le> t' \<Longrightarrow> time_Sub t u \<le> time_Sub t' u"
  by (auto simp: time_Sub_def)

lemma set_range_vals: "range_order m ks \<Longrightarrow> set (range_vals m ks) = ran m"
  by (force simp: range_order_def range_vals_def List.map_filter_def ran_def image_iff)

lemma set_range_vals_subset: "set (range_vals m ks) \<subseteq> ran m"
  by (auto simp: range_vals_def List.map_filter_def ran_def)

lemma range_vals_empty [simp]: "range_vals m [] = []"
  by (simp add: range_vals_def List.map_filter_simps)

lemma range_vals_Cons [simp]:
  "range_vals m (k # ks) =
     (case m k of None \<Rightarrow> range_vals m ks | Some v \<Rightarrow> v # range_vals m ks)"
  by (simp add: range_vals_def List.map_filter_simps split: option.split)

lemma length_range_vals: "range_order m ks \<Longrightarrow> length (range_vals m ks) = card (dom m)"
proof -
  assume ro: "range_order m ks"
  have "set ks \<subseteq> dom m \<Longrightarrow> length (range_vals m ks) = length ks" for ks
    by (induction ks) auto
  with ro show ?thesis by (auto simp: range_order_def dest: distinct_card)
qed

lemma range_order_empty [simp]: "range_order Map.empty ks \<longleftrightarrow> ks = []"
  by (auto simp: range_order_def)

end
