(* ===== verification/Events.thy ===== *)
theory Events
  imports Prelude
begin

text \<open>
  The packages \<^verbatim>\<open>event\<close> (bus.go, context.go, topics.go). The bus is synchronous publish and
  subscribe; the context carries a handler's decision to cancel an action.

  A subscriber is arbitrary code that may panic and may itself subscribe or publish on the same
  bus. Handlers are therefore identifiers, and what running one does is a parameter \<open>run\<close> of
  the definitions: a function of the payload and the whole state (the bus included) that says
  whether the handler panicked and in which state it left everything.
\<close>

section \<open>Topics and payloads\<close>

definition TopicPlayerJoin :: string where "TopicPlayerJoin = ''player_join''"
definition TopicPlayerQuit :: string where "TopicPlayerQuit = ''player_quit''"
definition TopicServerRegistered :: string where "TopicServerRegistered = ''server_registered''"
definition TopicServerUnregistered :: string where
  "TopicServerUnregistered = ''server_unregistered''"
definition TopicTransfer :: string where "TopicTransfer = ''transfer''"
definition TopicServerHealthChanged :: string where
  "TopicServerHealthChanged = ''server_health_changed''"

text \<open>An \<^verbatim>\<open>error\<close> value is its message; \<open>None\<close> is \<^verbatim>\<open>nil\<close>.\<close>

type_synonym go_error = string

datatype payload =
    PlayerPayload uuid string
  | ServerPayload string string
  | TransferPayload string string string "go_error option"
  | ServerHealthPayload string string bool

text \<open>What a component publishes is a list of topic and payload, oldest first.\<close>

type_synonym published = "(string \<times> payload) list"

section \<open>The bus\<close>

type_synonym handler_id = nat

record bus =
  handlers :: "string \<Rightarrow> handler_id list"

definition NewBus :: bus where
  "NewBus = \<lparr> handlers = (\<lambda>_. []) \<rparr>"

definition Subscribe :: "string \<Rightarrow> handler_id \<Rightarrow> bus \<Rightarrow> bus" where
  "Subscribe topic fn b =
     b\<lparr> handlers := (handlers b)(topic := handlers b topic @ [fn]) \<rparr>"

text \<open>Running a handler yields the value it panicked with, if it did, and the new state.\<close>

type_synonym 'w run = "handler_id \<Rightarrow> payload \<Rightarrow> bus \<times> 'w \<Rightarrow> string option \<times> (bus \<times> 'w)"

text \<open>\<open>call\<close> recovers a panic and logs it: the publisher goes on in the state the handler left.
  \<open>Publish\<close> returns one entry per call it made, with the line that was logged for it.\<close>

definition call ::
  "'w run \<Rightarrow> handler_id \<Rightarrow> payload \<Rightarrow> bus \<times> 'w \<Rightarrow> string option \<times> (bus \<times> 'w)" where
  "call run fn payload st =
     (case run fn payload st of
        (None, st') \<Rightarrow> (None, st')
      | (Some r, st') \<Rightarrow> (Some (''event: handler panicked: '' @ r), st'))"

fun call_each ::
  "'w run \<Rightarrow> handler_id list \<Rightarrow> payload \<Rightarrow> bus \<times> 'w
     \<Rightarrow> (handler_id \<times> string option) list \<times> (bus \<times> 'w)"
where
  "call_each run [] payload st = ([], st)"
| "call_each run (fn # fns) payload st =
     (let (line, st1) = call run fn payload st;
          (log, st2) = call_each run fns payload st1
      in ((fn, line) # log, st2))"

definition Publish ::
  "'w run \<Rightarrow> string \<Rightarrow> payload \<Rightarrow> bus \<times> 'w
     \<Rightarrow> (handler_id \<times> string option) list \<times> (bus \<times> 'w)"
where
  "Publish run topic payload st = call_each run (handlers (fst st) topic) payload st"

section \<open>The context of a cancellable event\<close>

text \<open>
  The callbacks given to \<open>After\<close> receive the cancelled flag and may change the context (they
  can hold a pointer to it), so they are functions on the flag and the rest of the state.
\<close>

type_synonym 'w ctx_state = "bool \<times> 'w"

record 'w ctx =
  ctx_cancel :: bool
  ctx_after :: "(bool \<Rightarrow> 'w ctx_state \<Rightarrow> 'w ctx_state) list"

definition ctx_C :: "'w ctx" where
  "ctx_C = \<lparr> ctx_cancel = False, ctx_after = [] \<rparr>"

definition ctx_Cancel :: "'w ctx \<Rightarrow> 'w ctx" where
  "ctx_Cancel c = c\<lparr> ctx_cancel := True \<rparr>"

definition ctx_After :: "(bool \<Rightarrow> 'w ctx_state \<Rightarrow> 'w ctx_state) \<Rightarrow> 'w ctx \<Rightarrow> 'w ctx" where
  "ctx_After f c = c\<lparr> ctx_after := ctx_after c @ [f] \<rparr>"

definition run_after ::
  "(bool \<Rightarrow> 'w ctx_state \<Rightarrow> 'w ctx_state) list \<Rightarrow> 'w ctx_state \<Rightarrow> 'w ctx_state" where
  "run_after vs st = fold (\<lambda>v st. v (fst st) st) vs st"

definition Continue :: "('w ctx_state \<Rightarrow> 'w ctx_state) \<Rightarrow> 'w ctx \<times> 'w \<Rightarrow> 'w ctx \<times> 'w" where
  "Continue f cw =
     (let (c, w) = cw in
      if \<not> ctx_cancel c then
        (let (flag, w') = run_after (ctx_after c) (f (ctx_cancel c, w))
         in (c\<lparr> ctx_cancel := flag \<rparr>, w'))
      else (c, w))"

definition Stop :: "('w ctx_state \<Rightarrow> 'w ctx_state) \<Rightarrow> 'w ctx \<times> 'w \<Rightarrow> 'w ctx \<times> 'w" where
  "Stop f cw =
     (let (c, w) = cw in
      if ctx_cancel c then
        (let (flag, w') = run_after (ctx_after c) (f (ctx_cancel c, w))
         in (c\<lparr> ctx_cancel := flag \<rparr>, w'))
      else (c, w))"

text \<open>The bodies and callbacks that leave the cancelled flag alone.\<close>

definition keeps_flag :: "('w ctx_state \<Rightarrow> 'w ctx_state) \<Rightarrow> bool" where
  "keeps_flag f \<longleftrightarrow> (\<forall>st. fst (f st) = fst st)"

section \<open>Facts\<close>

lemma handlers_Subscribe:
  "handlers (Subscribe t fn b) t' = (if t' = t then handlers b t @ [fn] else handlers b t')"
  by (simp add: Subscribe_def)

lemma handlers_Subscribe_all:
  "handlers (fold (Subscribe t) fns b) t = handlers b t @ fns"
  by (induction fns arbitrary: b) (simp_all add: handlers_Subscribe)

lemma call_each_called: "map fst (fst (call_each run fns payload st)) = fns"
proof (induction fns arbitrary: st)
  case (Cons fn fns)
  obtain line st1 where "call run fn payload st = (line, st1)" by (meson surj_pair)
  moreover obtain log st2 where "call_each run fns payload st1 = (log, st2)" by (meson surj_pair)
  ultimately show ?case using Cons.IH [of st1] by simp
qed simp

lemma fst_run_after:
  "\<forall>v \<in> set vs. \<forall>b. keeps_flag (v b) \<Longrightarrow> fst (run_after vs st) = fst st"
proof (induction vs arbitrary: st)
  case Nil
  then show ?case by (simp add: run_after_def)
next
  case (Cons v vs)
  then have "fst (run_after vs (v (fst st) st)) = fst (v (fst st) st)" by simp
  moreover have "fst (v (fst st) st) = fst st"
    using Cons.prems by (cases st) (auto simp: keeps_flag_def)
  ultimately show ?case by (simp add: run_after_def)
qed

section \<open>Properties\<close>

text \<open>\<open>Publish\<close> calls exactly the handlers that were subscribed to the topic when it was
  called, each once and in the order of their subscription, whatever those handlers do: one
  that panics does not stop the ones after it, and one that subscribes during the publication
  is neither called early nor skipped.\<close>

lemma Publish_calls_subscribers_in_order:
  "map fst (fst (Publish run topic payload (fold (Subscribe topic) fns b, w)))
     = handlers b topic @ fns"
  by (simp add: Publish_def call_each_called handlers_Subscribe_all)

text \<open>The pair of calls \<open>ctx.Continue(f)\<close>, \<open>ctx.Stop(g)\<close> runs exactly one of the two
  bodies, the one that the cancelled flag selects, as long as the body and the callbacks
  registered with \<open>After\<close> do not change the flag themselves.\<close>

lemma Continue_Stop_exclusive:
  assumes "keeps_flag f" and "\<forall>v \<in> set (ctx_after c). \<forall>b. keeps_flag (v b)"
  shows "Stop g (Continue f (c, w)) =
    (if ctx_cancel c then Stop g (c, w) else Continue f (c, w))"
proof (cases "ctx_cancel c")
  case True
  then show ?thesis by (simp add: Continue_def)
next
  case False
  obtain flag w' where r: "run_after (ctx_after c) (f (False, w)) = (flag, w')"
    by fastforce
  have "fst (run_after (ctx_after c) (f (False, w))) = fst (f (False, w))"
    using assms(2) by (rule fst_run_after)
  then have "\<not> flag" using assms(1) r by (simp add: keeps_flag_def)
  with False r show ?thesis by (simp add: Continue_def Stop_def)
qed

end
