(* ===== verification/OwnedTable.thy ===== *)
theory OwnedTable
  imports Prelude
begin

text \<open>
  The contract that the proxy's two tables of shared objects keep: the server registry
  (\<^verbatim>\<open>server/registry.go\<close>, keyed by the lowercased name) and the session store
  (\<^verbatim>\<open>session/store.go\<close>, keyed by the player's UUID). Adding an object takes over the entry of its
  key, and removing an object empties the entry only while the object still owns it, so that
  a late removal by a replaced object cannot evict its replacement.

  The locale states the two laws and derives what a client can rely on after any sequence of
  additions and removals.
\<close>

datatype 'r table_op = Put 'r | Del 'r

fun run_table :: "('r \<Rightarrow> 't \<Rightarrow> 't) \<Rightarrow> ('r \<Rightarrow> 't \<Rightarrow> 't) \<Rightarrow> 'r table_op list \<Rightarrow> 't \<Rightarrow> 't" where
  "run_table add remove [] t = t"
| "run_table add remove (Put r # ops) t = run_table add remove ops (add r t)"
| "run_table add remove (Del r # ops) t = run_table add remove ops (remove r t)"

text \<open>The owner of one key, followed through a sequence of operations.\<close>

fun owner :: "('r \<Rightarrow> 'k) \<Rightarrow> 'k \<Rightarrow> 'r table_op list \<Rightarrow> 'r option \<Rightarrow> 'r option" where
  "owner key k [] cur = cur"
| "owner key k (Put r # ops) cur = owner key k ops (if key r = k then Some r else cur)"
| "owner key k (Del r # ops) cur =
     owner key k ops (if key r = k \<and> cur = Some r then None else cur)"

text \<open>What the operations after the taking over of \<open>k\<close> by \<open>r\<close> must not contain.\<close>

fun disturbs :: "('r \<Rightarrow> 'k) \<Rightarrow> 'k \<Rightarrow> 'r \<Rightarrow> 'r table_op \<Rightarrow> bool" where
  "disturbs key k r (Put r') = (key r' = k)"
| "disturbs key k r (Del r') = (r' = r)"

lemma owner_undisturbed:
  "key r = k \<Longrightarrow> \<forall>op \<in> set ops. \<not> disturbs key k r op \<Longrightarrow> owner key k ops (Some r) = Some r"
proof (induction ops)
  case (Cons op ops)
  then show ?case by (cases op) auto
qed simp

lemma owner_SomeD:
  "owner key k ops cur = Some r \<Longrightarrow>
     (cur = Some r \<and> (\<forall>op \<in> set ops. key r = k \<longrightarrow> \<not> disturbs key k r op)) \<or>
     (\<exists>pre post. ops = pre @ Put r # post \<and> key r = k \<and>
        (\<forall>op \<in> set post. \<not> disturbs key k r op))"
proof (induction ops arbitrary: cur)
  case (Cons op ops)
  show ?case
  proof (cases op)
    case (Put s)
    with Cons.prems have
      "owner key k ops (if key s = k then Some s else cur) = Some r" by simp
    from Cons.IH [OF this] show ?thesis
    proof (elim disjE exE conjE)
      fix pre post
      assume "ops = pre @ Put r # post" "key r = k" "\<forall>op \<in> set post. \<not> disturbs key k r op"
      then show ?thesis by (metis append_Cons)
    next
      assume *: "(if key s = k then Some s else cur) = Some r"
        and **: "\<forall>op \<in> set ops. key r = k \<longrightarrow> \<not> disturbs key k r op"
      show ?thesis
      proof (cases "key s = k")
        case True
        with * ** have "op # ops = [] @ Put r # ops" "key r = k"
            "\<forall>op \<in> set ops. \<not> disturbs key k r op"
          using Put by auto
        then show ?thesis by blast
      next
        case False
        with * ** Put show ?thesis by auto
      qed
    qed
  next
    case (Del s)
    with Cons.prems have
      "owner key k ops (if key s = k \<and> cur = Some s then None else cur) = Some r" by simp
    from Cons.IH [OF this] show ?thesis
    proof (elim disjE exE conjE)
      fix pre post
      assume "ops = pre @ Put r # post" "key r = k" "\<forall>op \<in> set post. \<not> disturbs key k r op"
      then show ?thesis by (metis append_Cons)
    next
      assume "(if key s = k \<and> cur = Some s then None else cur) = Some r"
        and "\<forall>op \<in> set ops. key r = k \<longrightarrow> \<not> disturbs key k r op"
      with Del show ?thesis by (auto split: if_splits)
    qed
  qed
qed simp

lemma owner_append: "owner key k (xs @ ys) cur = owner key k ys (owner key k xs cur)"
proof (induction xs arbitrary: cur)
  case (Cons x xs)
  then show ?case by (cases x) auto
qed simp

lemma owner_iff:
  "owner key k ops None = Some r \<longleftrightarrow>
     (\<exists>pre post. ops = pre @ Put r # post \<and> key r = k \<and>
        (\<forall>op \<in> set post. \<not> disturbs key k r op))"
  using owner_SomeD [of key k ops None r] by (auto simp: owner_append owner_undisturbed)

locale owned_table =
  fixes find :: "'t \<Rightarrow> 'k \<Rightarrow> 'r option"
    and add :: "'r \<Rightarrow> 't \<Rightarrow> 't"
    and remove :: "'r \<Rightarrow> 't \<Rightarrow> 't"
    and key :: "'r \<Rightarrow> 'k"
  assumes find_add: "find (add r t) k = (if k = key r then Some r else find t k)"
    and find_remove:
      "find (remove r t) k = (if k = key r \<and> find t k = Some r then None else find t k)"
begin

lemma find_run: "find (run_table add remove ops t) k = owner key k ops (find t k)"
proof (induction ops arbitrary: t)
  case (Cons op ops)
  then show ?case by (cases op) (auto simp: find_add find_remove)
qed simp

lemma stale_remove:
  "r \<noteq> r' \<Longrightarrow> key r = key r' \<Longrightarrow> find (remove r (add r' t)) k = find (add r' t) k"
  by (simp add: find_add find_remove)

lemma remove_own: "find (remove r (add r t)) (key r) = None"
  by (simp add: find_add find_remove)

lemma find_run_iff:
  assumes "find t k = None"
  shows "find (run_table add remove ops t) k = Some r \<longleftrightarrow>
    (\<exists>pre post. ops = pre @ Put r # post \<and> key r = k \<and>
       (\<forall>op \<in> set post. \<not> disturbs key k r op))"
  by (simp add: find_run assms owner_iff)

end

end
