(* ===== verification/Servers.thy ===== *)
theory Servers
  imports Events OwnedTable
begin

text \<open>
  The package \<^verbatim>\<open>server\<close> without its health checker: \<^verbatim>\<open>server.go\<close> (a backend server and its
  mutable state), \<^verbatim>\<open>transport.go\<close> (transports and the validation of NetherNet addresses) and
  \<^verbatim>\<open>registry.go\<close> (the table of registered servers).

  A \<^verbatim>\<open>*Server\<close> is a reference into \<open>srv_heap\<close>: sessions, the registry and the health checker
  share the object, and the registry compares pointers. The atomic fields are plain record
  fields, each method being one atomic step.
\<close>

section \<open>Transport\<close>

type_synonym transport = string

definition TransportRakNet :: transport where "TransportRakNet = ''raknet''"
definition TransportNetherNet :: transport where "TransportNetherNet = ''nethernet''"

text \<open>
  What \<^verbatim>\<open>url.Parse\<close> reports of an address. The parser of the standard library is an argument of
  the validation: its results are used, never its workings.
\<close>

record url =
  u_Scheme :: string
  u_Host :: string
  u_Port :: string
  u_Path :: string

definition ParseNetherNetAddress :: "(string \<Rightarrow> go_error + url) \<Rightarrow> string \<Rightarrow> go_error + url" where
  "ParseNetherNetAddress url_Parse address =
     (let full = Inl (''must be the full URL of the server's signaling endpoint (e.g. '' @ Quote ''http://host:port'' @
                      ''), got '' @ Quote address)
      in case url_Parse address of
        Inl e \<Rightarrow> full
      | Inr u \<Rightarrow>
          if u_Scheme u = [] \<or> u_Host u = [] then full
          else if u_Scheme u \<noteq> ''http'' \<and> u_Scheme u \<noteq> ''https'' then
            Inl (''must use the '' @ Quote ''http'' @ '' or '' @ Quote ''https'' @ '' scheme, got '' @ Quote address)
          else if u_Port u = [] then Inl (''must include an explicit port, got '' @ Quote address)
          else if u_Path u \<noteq> [] then
            Inl (''must not have a path (not even a trailing '' @ Quote ''/'' @ ''), got '' @ Quote address)
          else Inr u)"

section \<open>Server\<close>

record server =
  sv_name :: string
  sv_address :: string
  sv_transport :: transport
  sv_group :: string
  sv_weight :: uint32
  sv_legacyAuth :: bool
  sv_draining :: bool
  sv_healthy :: bool
  sv_playerCount :: int

definition server_New ::
  "string \<Rightarrow> string \<Rightarrow> transport \<Rightarrow> string \<Rightarrow> uint32 \<Rightarrow> bool \<Rightarrow> server" where
  "server_New name address transport grp weight legacyAuth =
     \<lparr> sv_name = name, sv_address = address,
       sv_transport = (if transport = '''' then TransportRakNet else transport),
       sv_group = grp,
       sv_weight = (if weight = 0 then 1 else weight),
       sv_legacyAuth = legacyAuth,
       sv_draining = False, sv_healthy = True, sv_playerCount = 0 \<rparr>"

type_synonym srv_ref = nat

record srv_heap =
  srv_at :: "srv_ref \<Rightarrow> server"
  srv_next :: srv_ref

definition alloc_server :: "server \<Rightarrow> srv_heap \<Rightarrow> srv_ref \<times> srv_heap" where
  "alloc_server s h =
     (srv_next h, h\<lparr> srv_at := (srv_at h)(srv_next h := s), srv_next := Suc (srv_next h) \<rparr>)"

definition upd_server :: "srv_ref \<Rightarrow> (server \<Rightarrow> server) \<Rightarrow> srv_heap \<Rightarrow> srv_heap" where
  "upd_server r f h = h\<lparr> srv_at := (srv_at h)(r := f (srv_at h r)) \<rparr>"

definition SetDraining :: "srv_ref \<Rightarrow> bool \<Rightarrow> srv_heap \<Rightarrow> srv_heap" where
  "SetDraining r v = upd_server r (\<lambda>s. s\<lparr> sv_draining := v \<rparr>)"

definition SetHealthy :: "srv_ref \<Rightarrow> bool \<Rightarrow> srv_heap \<Rightarrow> srv_heap" where
  "SetHealthy r v = upd_server r (\<lambda>s. s\<lparr> sv_healthy := v \<rparr>)"

definition IncrementPlayerCount :: "srv_ref \<Rightarrow> srv_heap \<Rightarrow> srv_heap" where
  "IncrementPlayerCount r = upd_server r (\<lambda>s. s\<lparr> sv_playerCount := sv_playerCount s + 1 \<rparr>)"

definition DecrementPlayerCount :: "srv_ref \<Rightarrow> srv_heap \<Rightarrow> srv_heap" where
  "DecrementPlayerCount r = upd_server r (\<lambda>s. s\<lparr> sv_playerCount := sv_playerCount s - 1 \<rparr>)"

definition SetPlayerCount :: "srv_ref \<Rightarrow> int \<Rightarrow> srv_heap \<Rightarrow> srv_heap" where
  "SetPlayerCount r n = upd_server r (\<lambda>s. s\<lparr> sv_playerCount := n \<rparr>)"

definition Draining :: "srv_heap \<Rightarrow> srv_ref \<Rightarrow> bool" where
  "Draining h r = sv_draining (srv_at h r)"

definition Healthy :: "srv_heap \<Rightarrow> srv_ref \<Rightarrow> bool" where
  "Healthy h r = sv_healthy (srv_at h r)"

definition PlayerCount :: "srv_heap \<Rightarrow> srv_ref \<Rightarrow> int" where
  "PlayerCount h r = sv_playerCount (srv_at h r)"

definition Weight :: "srv_heap \<Rightarrow> srv_ref \<Rightarrow> uint32" where
  "Weight h r = sv_weight (srv_at h r)"

abbreviation Name :: "srv_heap \<Rightarrow> srv_ref \<Rightarrow> string" where
  "Name h r \<equiv> sv_name (srv_at h r)"

section \<open>Registry\<close>

record registry =
  servers :: "string \<rightharpoonup> srv_ref"

definition NewDefaultRegistry :: registry where
  "NewDefaultRegistry = \<lparr> servers = Map.empty \<rparr>"

definition Registry_Server :: "registry \<Rightarrow> string \<Rightarrow> srv_ref option" where
  "Registry_Server reg name = servers reg (ToLower name)"

definition Servers :: "registry \<Rightarrow> string list \<Rightarrow> srv_ref list" where
  "Servers reg keys = range_vals (servers reg) keys"

definition ServersInGroup :: "srv_heap \<Rightarrow> registry \<Rightarrow> string list \<Rightarrow> string \<Rightarrow> srv_ref list" where
  "ServersInGroup h reg keys grp =
     filter (\<lambda>r. sv_group (srv_at h r) = grp) (range_vals (servers reg) keys)"

definition AddServer :: "srv_heap \<Rightarrow> srv_ref \<Rightarrow> registry \<Rightarrow> registry" where
  "AddServer h r reg = reg\<lparr> servers := (servers reg)(ToLower (Name h r) \<mapsto> r) \<rparr>"

definition RemoveServer :: "srv_heap \<Rightarrow> srv_ref \<Rightarrow> registry \<Rightarrow> registry" where
  "RemoveServer h r reg =
     (let key = ToLower (Name h r) in
      if servers reg key = Some r then reg\<lparr> servers := (servers reg)(key := None) \<rparr> else reg)"

text \<open>Well-formedness: every registered reference was allocated and is filed under its name.\<close>

definition registry_wf :: "srv_heap \<Rightarrow> registry \<Rightarrow> bool" where
  "registry_wf h reg \<longleftrightarrow>
     (\<forall>k r. servers reg k = Some r \<longrightarrow> r < srv_next h \<and> k = ToLower (Name h r))"

text \<open>Every allocated server has a positive weight.\<close>

definition heap_wf :: "srv_heap \<Rightarrow> bool" where
  "heap_wf h \<longleftrightarrow> (\<forall>r < srv_next h. sv_weight (srv_at h r) \<noteq> 0)"

section \<open>Facts\<close>

lemmas server_op_defs =
  SetDraining_def SetHealthy_def IncrementPlayerCount_def DecrementPlayerCount_def
  SetPlayerCount_def

lemma srv_at_upd [simp, ref_upd_simps]:
  "srv_at (upd_server r f h) r' = (if r' = r then f (srv_at h r) else srv_at h r')"
  by (simp add: upd_server_def)

lemma srv_next_upd [simp, ref_upd_simps]: "srv_next (upd_server r f h) = srv_next h"
  by (simp add: upd_server_def)

lemma srv_next_ops [simp]:
  "srv_next (SetDraining r b h) = srv_next h"
  "srv_next (SetHealthy r b h) = srv_next h"
  "srv_next (IncrementPlayerCount r h) = srv_next h"
  "srv_next (DecrementPlayerCount r h) = srv_next h"
  "srv_next (SetPlayerCount r n h) = srv_next h"
  by (simp_all add: server_op_defs)

text \<open>The identity of a server (everything but its flags and count) never changes.\<close>

lemma Name_ops [simp]:
  "Name (SetDraining r b h) r' = Name h r'"
  "Name (SetHealthy r b h) r' = Name h r'"
  "Name (IncrementPlayerCount r h) r' = Name h r'"
  "Name (DecrementPlayerCount r h) r' = Name h r'"
  "Name (SetPlayerCount r n h) r' = Name h r'"
  by (simp_all add: server_op_defs)

lemma weight_ops [simp]:
  "sv_weight (srv_at (SetDraining r b h) r') = sv_weight (srv_at h r')"
  "sv_weight (srv_at (SetHealthy r b h) r') = sv_weight (srv_at h r')"
  "sv_weight (srv_at (IncrementPlayerCount r h) r') = sv_weight (srv_at h r')"
  "sv_weight (srv_at (DecrementPlayerCount r h) r') = sv_weight (srv_at h r')"
  "sv_weight (srv_at (SetPlayerCount r n h) r') = sv_weight (srv_at h r')"
  by (simp_all add: server_op_defs)

lemma PlayerCount_ops [simp]:
  "PlayerCount (SetDraining r b h) r' = PlayerCount h r'"
  "PlayerCount (SetHealthy r b h) r' = PlayerCount h r'"
  "PlayerCount (IncrementPlayerCount r h) r' = PlayerCount h r' + (if r' = r then 1 else 0)"
  "PlayerCount (DecrementPlayerCount r h) r' = PlayerCount h r' - (if r' = r then 1 else 0)"
  "PlayerCount (SetPlayerCount r n h) r' = (if r' = r then n else PlayerCount h r')"
  by (simp_all add: server_op_defs PlayerCount_def)

lemma flags_ops [simp]:
  "Draining (SetDraining r b h) r' = (if r' = r then b else Draining h r')"
  "Draining (SetHealthy r b h) r' = Draining h r'"
  "Draining (IncrementPlayerCount r h) r' = Draining h r'"
  "Draining (DecrementPlayerCount r h) r' = Draining h r'"
  "Draining (SetPlayerCount r n h) r' = Draining h r'"
  "Healthy (SetDraining r b h) r' = Healthy h r'"
  "Healthy (SetHealthy r b h) r' = (if r' = r then b else Healthy h r')"
  "Healthy (IncrementPlayerCount r h) r' = Healthy h r'"
  "Healthy (DecrementPlayerCount r h) r' = Healthy h r'"
  "Healthy (SetPlayerCount r n h) r' = Healthy h r'"
  by (simp_all add: server_op_defs Draining_def Healthy_def)

lemma alloc_server_simps [simp]:
  "fst (alloc_server s h) = srv_next h"
  "srv_next (snd (alloc_server s h)) = Suc (srv_next h)"
  "srv_at (snd (alloc_server s h)) r = (if r = srv_next h then s else srv_at h r)"
  by (simp_all add: alloc_server_def)

lemma server_New_weight [simp]: "sv_weight (server_New n a t g w l) \<noteq> 0"
  by (simp add: server_New_def)

lemma heap_wf_alloc:
  "heap_wf h \<Longrightarrow> sv_weight s \<noteq> 0 \<Longrightarrow> heap_wf (snd (alloc_server s h))"
  by (auto simp: heap_wf_def)

lemma registry_wfI:
  "(\<And>k r. servers reg k = Some r \<Longrightarrow> r < srv_next h \<and> ToLower (Name h r) = k) \<Longrightarrow>
   registry_wf h reg"
  unfolding registry_wf_def by metis

lemma registry_wfD:
  "registry_wf h reg \<Longrightarrow> servers reg k = Some r \<Longrightarrow> r < srv_next h \<and> ToLower (Name h r) = k"
  unfolding registry_wf_def by metis

lemma registry_wf_New [simp]: "registry_wf h NewDefaultRegistry"
  by (rule registry_wfI) (simp add: NewDefaultRegistry_def)

lemma registry_wf_Add:
  "registry_wf h reg \<Longrightarrow> r < srv_next h \<Longrightarrow> registry_wf h (AddServer h r reg)"
  by (rule registry_wfI) (auto simp: AddServer_def split: if_splits dest: registry_wfD)

lemma registry_wf_Remove: "registry_wf h reg \<Longrightarrow> registry_wf h (RemoveServer h r reg)"
  by (rule registry_wfI) (auto simp: RemoveServer_def Let_def split: if_splits dest: registry_wfD)

lemma registry_wf_heap:
  "registry_wf h reg \<Longrightarrow> srv_next h \<le> srv_next h' \<Longrightarrow>
   (\<And>r. r < srv_next h \<Longrightarrow> Name h' r = Name h r) \<Longrightarrow> registry_wf h' reg"
  by (rule registry_wfI) (metis order_less_le_trans registry_wfD)

lemma registry_wf_alloc: "registry_wf h reg \<Longrightarrow> registry_wf (snd (alloc_server s h)) reg"
  by (erule registry_wf_heap) auto

lemma registry_wf_unique:
  "registry_wf h reg \<Longrightarrow> servers reg k = Some r \<Longrightarrow> servers reg k' = Some r \<Longrightarrow> k = k'"
  using registry_wfD [of h reg k r] registry_wfD [of h reg k' r] by simp

lemma Registry_Server_Add:
  "Registry_Server (AddServer h r reg) name =
     (if ToLower name = ToLower (Name h r) then Some r else Registry_Server reg name)"
  by (simp add: Registry_Server_def AddServer_def)

text \<open>The registry keeps the contract of an owned table, in any heap.\<close>

interpretation reg: owned_table servers "AddServer h" "RemoveServer h" "\<lambda>r. ToLower (Name h r)"
  for h
  by unfold_locales (auto simp: AddServer_def RemoveServer_def Let_def)

section \<open>Properties\<close>

text \<open>C11: after any sequence of registrations and removals, looking a name up (in any case)
  returns exactly the server of the last registration under that name, unless that very server
  has been removed since. In particular a delayed \<open>RemoveServer\<close> of a server that has been
  replaced under its name leaves the replacement registered.\<close>

theorem Registry_Server_last_registered:
  "Registry_Server (run_table (AddServer h) (RemoveServer h) ops NewDefaultRegistry) name = Some r
     \<longleftrightarrow> (\<exists>pre post. ops = pre @ Put r # post \<and> ToLower (Name h r) = ToLower name \<and>
           (\<forall>op \<in> set post. \<not> disturbs (\<lambda>r. ToLower (Name h r)) (ToLower name) r op))"
  by (simp add: Registry_Server_def reg.find_run_iff NewDefaultRegistry_def)

definition ex_heap :: srv_heap where
  "ex_heap = \<lparr> srv_at = (\<lambda>r. server_New ''Lobby'' ''10.0.0.1:19132'' '''' '''' 0 False),
     srv_next = 2 \<rparr>"

theorem Registry_Server_last_registered_witness:
  "Registry_Server (run_table (AddServer ex_heap) (RemoveServer ex_heap)
     [Put 0, Put 1, Del 0] NewDefaultRegistry) ''lobby'' = Some 1"
proof -
  have n: "ToLower (Name ex_heap r) = ToLower ''lobby''" for r
    by (simp add: ex_heap_def server_New_def) code_simp
  show ?thesis
    by (rule Registry_Server_last_registered [THEN iffD2], rule exI [of _ "[Put 0]"],
        rule exI [of _ "[Del 0]"]) (simp add: n)
qed

end
