(* ===== verification/SessionStore.thy ===== *)
theory SessionStore
  imports OwnedTable
begin

text \<open>
  The store of open sessions (\<^verbatim>\<open>session/store.go\<close>): two maps, by UUID and by lowercased display
  name. A session is a reference; \<open>uid\<close> and \<open>nm\<close> give its UUID and its display name, neither of which
  changes in the life of a session.
\<close>

section \<open>The code\<close>

type_synonym sess_ref = nat

record Store =
  st_sessions :: "uuid \<rightharpoonup> sess_ref"
  st_sessionNames :: "string \<rightharpoonup> sess_ref"

definition NewDefaultStore :: Store where
  "NewDefaultStore = \<lparr>st_sessions = Map.empty, st_sessionNames = Map.empty\<rparr>"

text \<open>\<^verbatim>\<open>All\<close>, with the order in which the loop over the map visits the keys.\<close>

definition Store_All :: "Store \<Rightarrow> uuid list \<Rightarrow> sess_ref list" where
  "Store_All s ks = range_vals (st_sessions s) ks"

definition Store_Load :: "Store \<Rightarrow> uuid \<Rightarrow> sess_ref option" where
  "Store_Load s x = st_sessions s x"

definition Store_LoadFromName :: "Store \<Rightarrow> string \<Rightarrow> sess_ref option" where
  "Store_LoadFromName s x = st_sessionNames s (ToLower x)"

definition Store_Store ::
  "(sess_ref \<Rightarrow> uuid) \<Rightarrow> (sess_ref \<Rightarrow> string) \<Rightarrow> sess_ref \<Rightarrow> Store \<Rightarrow> Store" where
  "Store_Store uid nm x s =
     s\<lparr>st_sessions := (st_sessions s)(uid x \<mapsto> x),
       st_sessionNames := (st_sessionNames s)(ToLower (nm x) \<mapsto> x)\<rparr>"

definition Store_Delete ::
  "(sess_ref \<Rightarrow> uuid) \<Rightarrow> (sess_ref \<Rightarrow> string) \<Rightarrow> sess_ref \<Rightarrow> Store \<Rightarrow> Store" where
  "Store_Delete uid nm x s =
     (if st_sessions s (uid x) \<noteq> Some x then s
      else s\<lparr>st_sessions := (st_sessions s)(uid x := None),
             st_sessionNames := (st_sessionNames s)(ToLower (nm x) := None)\<rparr>)"

section \<open>The store is an owned table by UUID\<close>

interpretation sess: owned_table st_sessions "Store_Store uid nm" "Store_Delete uid nm" uid for uid nm
  by unfold_locales (auto simp: Store_Store_def Store_Delete_def)

section \<open>Names\<close>

text \<open>The two maps agree: a name leads to exactly the stored session of that name.\<close>

definition names_agree :: "(sess_ref \<Rightarrow> string) \<Rightarrow> (sess_ref \<Rightarrow> uuid) \<Rightarrow> Store \<Rightarrow> bool" where
  "names_agree nm uid s \<longleftrightarrow>
     (\<forall>k x. st_sessionNames s k = Some x \<longleftrightarrow> st_sessions s (uid x) = Some x \<and> ToLower (nm x) = k)"

text \<open>Players have one name and one UUID each: two sessions share a name, up to case, exactly when
  they share a UUID.\<close>

definition one_name_each :: "(sess_ref \<Rightarrow> string) \<Rightarrow> (sess_ref \<Rightarrow> uuid) \<Rightarrow> bool" where
  "one_name_each nm uid \<longleftrightarrow> (\<forall>x y. uid x = uid y \<longleftrightarrow> ToLower (nm x) = ToLower (nm y))"

lemma one_name_eachD: "one_name_each nm uid \<Longrightarrow> ToLower (nm x) = ToLower (nm y) \<longleftrightarrow> uid x = uid y"
  by (simp add: one_name_each_def)

lemma names_agreeD:
  "names_agree nm uid s \<Longrightarrow>
   st_sessionNames s k = Some x \<longleftrightarrow> st_sessions s (uid x) = Some x \<and> ToLower (nm x) = k"
  by (simp add: names_agree_def)

lemma names_agreeI:
  "(\<And>k x. st_sessionNames s k = Some x \<longleftrightarrow> st_sessions s (uid x) = Some x \<and> ToLower (nm x) = k) \<Longrightarrow>
   names_agree nm uid s"
  by (simp add: names_agree_def)

lemma names_agree_Store:
  assumes "one_name_each nm uid" "names_agree nm uid s"
  shows "names_agree nm uid (Store_Store uid nm x s)"
proof (rule names_agreeI)
  fix k y
  have "((st_sessionNames s)(ToLower (nm x) \<mapsto> x)) k = Some y \<longleftrightarrow>
      ((st_sessions s)(uid x \<mapsto> x)) (uid y) = Some y \<and> ToLower (nm y) = k"
    unfolding fun_upd_apply
    using names_agreeD [OF assms(2), of k y] one_name_eachD [OF assms(1), of x y]
    by (metis option.inject)
  then show "st_sessionNames (Store_Store uid nm x s) k = Some y \<longleftrightarrow>
      st_sessions (Store_Store uid nm x s) (uid y) = Some y \<and> ToLower (nm y) = k"
    by (simp add: Store_Store_def)
qed

lemma names_agree_Delete:
  assumes "one_name_each nm uid" "names_agree nm uid s"
  shows "names_agree nm uid (Store_Delete uid nm x s)"
proof (rule names_agreeI)
  fix k y
  have "((st_sessionNames s)(ToLower (nm x) := None)) k = Some y \<longleftrightarrow>
      ((st_sessions s)(uid x := None)) (uid y) = Some y \<and> ToLower (nm y) = k"
    if "st_sessions s (uid x) = Some x"
    unfolding fun_upd_apply
    using names_agreeD [OF assms(2), of k y] one_name_eachD [OF assms(1), of x y] that
    by (metis option.distinct(1))
  then show "st_sessionNames (Store_Delete uid nm x s) k = Some y \<longleftrightarrow>
      st_sessions (Store_Delete uid nm x s) (uid y) = Some y \<and> ToLower (nm y) = k"
    using names_agreeD [OF assms(2), of k y]
    by (cases "st_sessions s (uid x) = Some x") (simp_all add: Store_Delete_def)
qed

lemma names_agree_run:
  "one_name_each nm uid \<Longrightarrow> names_agree nm uid s \<Longrightarrow>
   names_agree nm uid (run_table (Store_Store uid nm) (Store_Delete uid nm) ops s)"
proof (induction ops arbitrary: s)
  case (Cons op ops)
  then show ?case by (cases op) (simp_all add: names_agree_Store names_agree_Delete)
qed simp

lemma names_agree_new: "names_agree nm uid NewDefaultStore"
  by (simp add: names_agree_def NewDefaultStore_def)

section \<open>Properties\<close>

text \<open>After any sequence of \<^verbatim>\<open>Store\<close> and \<^verbatim>\<open>Delete\<close> calls, loading a UUID returns exactly the last
  session stored under it, unless that very session has been deleted since: the late
  \<^verbatim>\<open>Delete\<close> of a session that a reconnect has replaced does not remove the new session.\<close>

lemma Store_Load_last_stored:
  "Store_Load (run_table (Store_Store uid nm) (Store_Delete uid nm) ops NewDefaultStore) u = Some x
     \<longleftrightarrow> (\<exists>pre post. ops = pre @ Put x # post \<and> uid x = u \<and>
           (\<forall>op \<in> set post. \<not> disturbs uid u x op))"
  by (simp add: Store_Load_def sess.find_run_iff NewDefaultStore_def)

text \<open>C34: as long as every player has one name and one UUID, the two maps never disagree: after any
  sequence of calls a name, in any case of letters, leads to a session if and only if that session is
  the one stored under its UUID and has that name.\<close>

theorem LoadFromName_agrees:
  assumes "one_name_each nm uid"
  shows "Store_LoadFromName (run_table (Store_Store uid nm) (Store_Delete uid nm) ops NewDefaultStore) n
      = Some x \<longleftrightarrow>
    Store_Load (run_table (Store_Store uid nm) (Store_Delete uid nm) ops NewDefaultStore) (uid x)
      = Some x \<and> EqualFold (nm x) n"
  using names_agreeD [OF names_agree_run [OF assms names_agree_new]]
  by (simp add: Store_LoadFromName_def Store_Load_def EqualFold_def)

text \<open>Without that assumption the map by name goes wrong. When two players with different UUIDs
  carry the same name, the one that leaves first takes the name entry of the other along, who
  is online but no longer found; and when a player reconnects under a new name, the entry of the old
  name stays for ever and leads to the closed session.\<close>

lemma names_go_wrong:
  assumes "x \<noteq> y"
  shows "(uid x \<noteq> uid y \<and> EqualFold (nm x) (nm y) \<longrightarrow>
      (let s = run_table (Store_Store uid nm) (Store_Delete uid nm) [Put x, Put y, Del x] NewDefaultStore
       in Store_Load s (uid y) = Some y \<and> Store_LoadFromName s (nm y) = None)) \<and>
    (uid x = uid y \<and> \<not> EqualFold (nm x) (nm y) \<longrightarrow>
      (let s = run_table (Store_Store uid nm) (Store_Delete uid nm) [Put x, Put y, Del x, Del y] NewDefaultStore
       in Store_Load s (uid x) = None \<and> Store_LoadFromName s (nm x) = Some x))"
  using assms
  by (cases "uid x = uid y")
    (simp_all add: Store_Store_def Store_Delete_def Store_Load_def Store_LoadFromName_def
      EqualFold_def NewDefaultStore_def)

section \<open>Witnesses\<close>

definition ex_uid :: "sess_ref \<Rightarrow> uuid" where
  "ex_uid x = of_nat x"

definition ex_nm :: "sess_ref \<Rightarrow> string" where
  "ex_nm x = (if x = 0 then ''Alex'' else ''Steve'')"

theorem LoadFromName_agrees_witness:
  "one_name_each (\<lambda>_. ''Steve'') (\<lambda>_. 5) \<and>
   Store_LoadFromName (run_table (Store_Store (\<lambda>_. 5) (\<lambda>_. ''Steve'')) (Store_Delete (\<lambda>_. 5) (\<lambda>_. ''Steve''))
     [Put 0, Put 1, Del 0] NewDefaultStore) ''STEVE'' = Some 1"
proof -
  have one: "one_name_each (\<lambda>_. ''Steve'') (\<lambda>_. 5)" by (simp add: one_name_each_def)
  have "EqualFold ''Steve'' ''STEVE''" by code_simp
  then show ?thesis
    using LoadFromName_agrees [OF one, of "[Put 0, Put 1, Del 0]" "''STEVE''" 1] one
    by (simp add: Store_Load_def Store_Store_def Store_Delete_def)
qed

end
