(* ===== verification/Metrics.thy ===== *)
theory Metrics
  imports Prelude
begin

text \<open>
  The proxy's metrics (\<^verbatim>\<open>metrics/registry.go\<close>). The four counters are 64-bit atomics, so they are
  words. A gauge is registered by the identity of its function; the values the functions return when
  the registry is scraped, and Go's formatting of a float, are arguments of \<open>Handler_body\<close>.
\<close>

section \<open>The code\<close>

type_synonym gauge_id = nat

record Metrics =
  gaugeFuncs :: "string \<rightharpoonup> gauge_id"
  transfersSucceeded :: int64
  transfersFailed :: int64
  transferDurationNanosSum :: int64
  transferDurationCount :: int64

definition NewMetrics :: "Metrics" where
  "NewMetrics =
     \<lparr>gaugeFuncs = Map.empty, transfersSucceeded = 0, transfersFailed = 0,
      transferDurationNanosSum = 0, transferDurationCount = 0\<rparr>"

definition RegisterGauge :: "string \<Rightarrow> gauge_id \<Rightarrow> Metrics \<Rightarrow> Metrics" where
  "RegisterGauge name fn r = r\<lparr>gaugeFuncs := (gaugeFuncs r)(name \<mapsto> fn)\<rparr>"

definition RecordTransfer :: "bool \<Rightarrow> duration \<Rightarrow> Metrics \<Rightarrow> Metrics" where
  "RecordTransfer success duration r =
     (let r = (if success then r\<lparr>transfersSucceeded := transfersSucceeded r + 1\<rparr>
               else r\<lparr>transfersFailed := transfersFailed r + 1\<rparr>);
          r = r\<lparr>transferDurationNanosSum := transferDurationNanosSum r + of_int duration\<rparr>
      in r\<lparr>transferDurationCount := transferDurationCount r + 1\<rparr>)"

definition NL :: string where
  "NL = [CHR 0x0A]"

definition gauge_lines :: "(string \<Rightarrow> string) \<Rightarrow> string \<Rightarrow> string" where
  "gauge_lines val name = ''# TYPE '' @ name @ '' gauge'' @ NL @ name @ '' '' @ val name @ NL"

text \<open>The body of the response: \<open>ks\<close> is the order of the loop over the gauges, \<open>val\<close> the formatted value of
  each, \<open>fmt_seconds\<close> the formatting of a duration in seconds.\<close>

definition Handler_body ::
  "string list \<Rightarrow> (string \<Rightarrow> string) \<Rightarrow> (int \<Rightarrow> string) \<Rightarrow> Metrics \<Rightarrow> string" where
  "Handler_body ks val fmt_seconds r =
     concat (map (gauge_lines val) ks) @
     ''# TYPE portal_transfers_total counter'' @ NL @
     ''portal_transfers_total{result='' @ [CHR 0x22] @ ''success'' @ [CHR 0x22] @ ''} '' @
       show_int (sint (transfersSucceeded r)) @ NL @
     ''portal_transfers_total{result='' @ [CHR 0x22] @ ''failed'' @ [CHR 0x22] @ ''} '' @
       show_int (sint (transfersFailed r)) @ NL @
     ''# TYPE portal_transfer_duration_seconds_sum counter'' @ NL @
     ''portal_transfer_duration_seconds_sum '' @ fmt_seconds (sint (transferDurationNanosSum r)) @ NL @
     ''# TYPE portal_transfer_duration_seconds_count counter'' @ NL @
     ''portal_transfer_duration_seconds_count '' @ show_int (sint (transferDurationCount r)) @ NL"

section \<open>Sequences of transfers\<close>

fun record_transfers :: "(bool \<times> duration) list \<Rightarrow> Metrics \<Rightarrow> Metrics" where
  "record_transfers [] r = r"
| "record_transfers ((success, duration) # ts) r = record_transfers ts (RecordTransfer success duration r)"

lemma record_transfers_counts:
  "transfersSucceeded (record_transfers ts r) = transfersSucceeded r + of_nat (length (filter fst ts)) \<and>
   transfersFailed (record_transfers ts r) = transfersFailed r + of_nat (length (filter (\<lambda>t. \<not> fst t) ts)) \<and>
   transferDurationNanosSum (record_transfers ts r) =
     transferDurationNanosSum r + of_int (sum_list (map snd ts)) \<and>
   transferDurationCount (record_transfers ts r) = transferDurationCount r + of_nat (length ts)"
  by (induction ts r rule: record_transfers.induct) (simp_all add: RecordTransfer_def Let_def)

lemma sint_of_nat_small: "n < 2 ^ 63 \<Longrightarrow> sint (of_nat n :: int64) = int n"
  by (simp add: signed_of_nat signed_take_bit_int_eq_self)

section \<open>Properties\<close>

text \<open>The exported counters are exact: after any sequence of transfers, shorter than the range of
  a 64-bit counter, the two results add up to the number of transfers and each is the number of
  transfers with that outcome, and the sum of durations is the sum of them while it stays in range.\<close>

lemma RecordTransfer_exact:
  assumes "length ts < 2 ^ 63"
    and "- (2 ^ 63) \<le> sum_list (map snd ts)" "sum_list (map snd ts) < 2 ^ 63"
  shows "sint (transfersSucceeded (record_transfers ts NewMetrics)) = int (length (filter fst ts)) \<and>
    sint (transfersFailed (record_transfers ts NewMetrics)) = int (length (filter (\<lambda>t. \<not> fst t) ts)) \<and>
    sint (transferDurationCount (record_transfers ts NewMetrics)) =
      sint (transfersSucceeded (record_transfers ts NewMetrics)) +
      sint (transfersFailed (record_transfers ts NewMetrics)) \<and>
    sint (transferDurationNanosSum (record_transfers ts NewMetrics)) = sum_list (map snd ts)"
proof -
  have le: "length (filter P ts) < 2 ^ 63" for P
    using length_filter_le [of P ts] assms(1) by (rule le_less_trans)
  have "length (filter fst ts) + length (filter (\<lambda>t. \<not> fst t) ts) = length ts"
    by (rule sum_length_filter_compl)
  moreover have "sint (of_int (sum_list (map snd ts)) :: int64) = sum_list (map snd ts)"
    using assms(2,3) by (simp add: signed_of_int signed_take_bit_int_eq_self)
  ultimately show ?thesis
    using record_transfers_counts [of ts NewMetrics] le assms(1)
    by (simp add: NewMetrics_def sint_of_nat_small)
qed

end
