(* ===== verification/Protocol.thy ===== *)
theory Protocol
  imports Prelude
begin

text \<open>
  The game packets that the session code reads, changes or writes. The packet types are
  gophertunnel's (\<^verbatim>\<open>minecraft/protocol/packet\<close>); a constructor has the fields of its type that code
  under \<^verbatim>\<open>session/\<close> mentions, with the types they have there, and no others: the other fields pass
  through the proxy as they are. \<open>OtherPacket\<close> is any packet type the code does not mention.
\<close>

unbundle bit_operations_syntax

section \<open>Parts of packets\<close>

text \<open>A 32-bit float by its bits; the code only copies floats and converts them to integers, with a
  conversion that is an argument of the definitions that use it.\<close>

type_synonym float32 = "32 word"
type_synonym vec3 = "float32 \<times> float32 \<times> float32"

text \<open>The dynamic types of entity metadata values; \<open>MOther\<close> is any type the code leaves alone.\<close>

datatype meta_value =
    MInt64 int64 | MInt32 int32 | MInt int64
  | MUint64 uint64 | MUint32 uint32 | MUint uint64
  | MOther string

type_synonym metadata = "uint32 \<rightharpoonup> meta_value"

record EntityLink =
  RiddenEntityUniqueID :: int64
  RiderEntityUniqueID :: int64

record MapTrackedObject =
  mo_Type :: int32
  mo_EntityUniqueID :: "int64 option"

record PlayerListEntry =
  pe_ActionType :: uint8
  pe_UUID :: uuid
  pe_EntityUniqueID :: int64

record ScoreboardEntry =
  sb_IdentityType :: uint8
  sb_EntityUniqueID :: int64

datatype event_data =
    MobKilledEvent int64 int64
  | BossKilledEvent int64
  | OtherEvent

section \<open>Packets\<close>

text \<open>Packet types of which the code mentions nothing but one entity identifier are grouped by the type
  of that field: a runtime identifier, a unique identifier, a unique identifier held in an
  unsigned field, or the 32-bit runtime identifier of a volume.\<close>

datatype runtime_kind =
    ActorEvent | AgentAnimation | Animate | Emote | EmoteList | Interact | MobArmourEquipment
  | MobEquipment | MotionPredictionHints | MoveActorAbsolute | MoveActorDelta | NPCRequest
  | SetActorMotion | SetLocalPlayerAsInitialised | ShowCredits | UpdateAttributes

datatype unique_kind =
    ActorPickRequest | AdventureSettings | ChangeMobProperty | ClientboundStonecutterSetRecipe
  | ClientCheatAbility | CommandOutput | CommandRequest | ContainerOpen | CreatePhoto | DebugInfo
  | PhotoTransfer | SetPassengerOfBlock | SpawnParticleEffect | StructureBlockUpdate
  | StructureTemplateDataRequest | UpdateAbilities | UpdateEquip | UpdatePlayerGameType

datatype unsigned_kind = NPCDialogue | UpdateBlockSynced

datatype volume_kind = AddVolumeEntity | RemoveVolumeEntity

text \<open>Packets that the session itself sends to the client in a transfer.\<close>

datatype world_packet =
    ChangeDimension int32 vec3
  | StopSound bool
  | LevelChunk "int32 \<times> int32" int32 uint32 "byte list"
  | LevelEvent int32 int32
  | SetDifficulty uint32
  | GameRulesChanged "string list"
  | SetPlayerGameType int32
  | NetworkChunkPublisherUpdate "int32 \<times> int32 \<times> int32" uint32

datatype (plugins only: code size) mc_packet =
    RuntimePacket runtime_kind uint64
  | UniquePacket unique_kind int64
  | UnsignedPacket unsigned_kind uint64
  | VolumePacket volume_kind uint32
  | AddActor int64 uint64 metadata "EntityLink list"
  | AddItemActor int64 uint64 metadata
  | AddPainting int64 uint64
  | AddPlayer int64 uint64 metadata "EntityLink list"
  | AnimateEntity "uint64 list"
  | BossEvent int64 uint32
  | Camera int64 int64
  | ClientBoundMapItemData "MapTrackedObject list option"
  | CommandBlockUpdate bool uint64
  | Event int64 event_data
  | InventoryTransaction "uint64 option"
  | MobEffect uint64 uint8 int32
  | MovePlayer uint64 uint64 vec3 "float32 \<times> float32" uint8
  | PlayerAction uint64 int32
  | PlayerAuthInput bool "int64 option"
  | PlayerList "PlayerListEntry list"
  | RemoveActor int64
  | Respawn vec3 uint8 uint64
  | SetActorData uint64 metadata
  | SetActorLink EntityLink
  | SetScore "ScoreboardEntry list"
  | SetScoreboardIdentity uint8 "int64 option list"
  | StartGame int64 uint64
  | TakeItemActor uint64 uint64
  | UpdateSubChunkBlocks "uint64 list" "uint64 list"
  | UpdateTrade int64 int64
  | RemoveObjective string
  | SetDisplayObjective string
  | BookEdit string
  | TextPacket string
  | WorldPacket world_packet
  | DisconnectPacket bool string
  | OtherPacket string

section \<open>Constants of the protocol\<close>

text \<open>The values of gophertunnel's constants that the code compares with or sends. They are fixed by
  the Bedrock protocol; what matters to the proofs is that those of one field are distinct.\<close>

definition PlayerActionDimensionChangeDone :: int32 where
  "PlayerActionDimensionChangeDone = 14"

definition BossEventShow :: uint32 where
  "BossEventShow = 0"

definition BossEventHide :: uint32 where
  "BossEventHide = 2"

definition MobEffectAdd :: uint8 where
  "MobEffectAdd = 1"

definition MobEffectRemove :: uint8 where
  "MobEffectRemove = 3"

definition PlayerListActionAdd :: uint8 where
  "PlayerListActionAdd = 0"

definition PlayerListActionRemove :: uint8 where
  "PlayerListActionRemove = 1"

definition RespawnStateSearchingForSpawn :: uint8 where
  "RespawnStateSearchingForSpawn = 0"

definition RespawnStateReadyToSpawn :: uint8 where
  "RespawnStateReadyToSpawn = 1"

definition RespawnStateClientReadyToSpawn :: uint8 where
  "RespawnStateClientReadyToSpawn = 2"

definition MoveModeReset :: uint8 where
  "MoveModeReset = 1"

definition LevelEventStopRaining :: int32 where
  "LevelEventStopRaining = 3003"

definition LevelEventStopThunderstorm :: int32 where
  "LevelEventStopThunderstorm = 3004"

definition DimensionOverworld :: int32 where
  "DimensionOverworld = 0"

definition DimensionNether :: int32 where
  "DimensionNether = 1"

definition DimensionEnd :: int32 where
  "DimensionEnd = 2"

definition MapObjectTypeEntity :: int32 where
  "MapObjectTypeEntity = 0"

definition ScoreboardIdentityFakePlayer :: uint8 where
  "ScoreboardIdentityFakePlayer = 3"

definition ScoreboardIdentityActionClear :: uint8 where
  "ScoreboardIdentityActionClear = 1"

section \<open>Game data\<close>

text \<open>The fields of \<^verbatim>\<open>minecraft.GameData\<close> the code uses.\<close>

record GameData =
  gd_EntityRuntimeID :: uint64
  gd_EntityUniqueID :: int64
  gd_Dimension :: int32
  gd_PlayerPosition :: vec3
  gd_Pitch :: float32
  gd_Yaw :: float32
  gd_Difficulty :: int32
  gd_GameRules :: "string list"
  gd_PlayerGameMode :: int32
  gd_ChunkRadius :: int32

end
