(* ===== verification/Translator.thy ===== *)
theory Translator
  imports Protocol
begin

text \<open>
  The translation of entity identifiers (\<^verbatim>\<open>session/translator.go\<close>). A client keeps the identifiers
  that its first server gave its player; after a transfer the new server knows the player under others.
  Every packet, in either direction, has the two exchanged wherever they occur.
\<close>

section \<open>The code\<close>

record translator =
  originalRuntimeID :: uint64
  originalUniqueID :: int64
  currentRuntimeID :: uint64
  currentUniqueID :: int64

definition newTranslator :: "GameData \<Rightarrow> translator" where
  "newTranslator data =
     \<lparr>originalRuntimeID = gd_EntityRuntimeID data, originalUniqueID = gd_EntityUniqueID data,
      currentRuntimeID = gd_EntityRuntimeID data, currentUniqueID = gd_EntityUniqueID data\<rparr>"

definition updateTranslatorData :: "GameData \<Rightarrow> translator \<Rightarrow> translator" where
  "updateTranslatorData data t =
     t\<lparr>currentRuntimeID := gd_EntityRuntimeID data, currentUniqueID := gd_EntityUniqueID data\<rparr>"

definition translateRuntimeID :: "translator \<Rightarrow> uint64 \<Rightarrow> uint64" where
  "translateRuntimeID t id' =
     (let original = originalRuntimeID t; current = currentRuntimeID t in
      if original = id' then current else if current = id' then original else id')"

definition translateRuntimeID32 :: "translator \<Rightarrow> uint32 \<Rightarrow> uint32" where
  "translateRuntimeID32 t id' = ucast (translateRuntimeID t (ucast id'))"

text \<open>An \<^verbatim>\<open>int64\<close> and the \<^verbatim>\<open>uint64\<close> it converts to have the same bits.\<close>

definition translateRuntimeIDInt64 :: "translator \<Rightarrow> int64 \<Rightarrow> int64" where
  "translateRuntimeIDInt64 t id' = (if sint id' < 0 then id' else translateRuntimeID t id')"

definition translateUniqueID :: "translator \<Rightarrow> int64 \<Rightarrow> int64" where
  "translateUniqueID t id' =
     (let original = originalUniqueID t; current = currentUniqueID t in
      if original = id' then current else if current = id' then original else id')"

definition translateEntityLink :: "translator \<Rightarrow> EntityLink \<Rightarrow> EntityLink" where
  "translateEntityLink t x =
     \<lparr>RiddenEntityUniqueID = translateUniqueID t (RiddenEntityUniqueID x),
      RiderEntityUniqueID = translateUniqueID t (RiderEntityUniqueID x)\<rparr>"

definition entityMetadataUniqueIDKeys :: "uint32 list" where
  "entityMetadataUniqueIDKeys = [5, 6, 17, 37, 88]"

fun translateMetadataUniqueID :: "translator \<Rightarrow> meta_value \<Rightarrow> meta_value" where
  "translateMetadataUniqueID t (MInt64 v) = MInt64 (translateUniqueID t v)"
| "translateMetadataUniqueID t (MInt32 v) = MInt32 (ucast (translateUniqueID t (scast v)))"
| "translateMetadataUniqueID t (MInt v) = MInt (translateUniqueID t v)"
| "translateMetadataUniqueID t (MUint64 v) = MUint64 (translateUniqueID t v)"
| "translateMetadataUniqueID t (MUint32 v) = MUint32 (ucast (translateUniqueID t (ucast v)))"
| "translateMetadataUniqueID t (MUint v) = MUint (translateUniqueID t v)"
| "translateMetadataUniqueID t (MOther v) = MOther v"

fun translateMetadataRuntimeID :: "translator \<Rightarrow> meta_value \<Rightarrow> meta_value" where
  "translateMetadataRuntimeID t (MUint64 v) = MUint64 (translateRuntimeID t v)"
| "translateMetadataRuntimeID t (MUint32 v) = MUint32 (translateRuntimeID32 t v)"
| "translateMetadataRuntimeID t (MInt64 v) = MInt64 (translateRuntimeIDInt64 t v)"
| "translateMetadataRuntimeID t (MInt32 v) =
     MInt32 (if sint v < 0 then v else ucast (translateRuntimeID t (scast v)))"
| "translateMetadataRuntimeID t (MInt v) =
     MInt (if sint v < 0 then v else translateRuntimeID t v)"
| "translateMetadataRuntimeID t (MUint v) = MUint v"
| "translateMetadataRuntimeID t (MOther v) = MOther v"

definition at_key :: "(meta_value \<Rightarrow> meta_value) \<Rightarrow> uint32 \<Rightarrow> metadata \<Rightarrow> metadata" where
  "at_key f k x = (case x k of None \<Rightarrow> x | Some v \<Rightarrow> x(k \<mapsto> f v))"

definition translateEntityMetadata :: "translator \<Rightarrow> metadata \<Rightarrow> metadata" where
  "translateEntityMetadata t x =
     at_key (translateMetadataRuntimeID t) 124
       (fold (at_key (translateMetadataUniqueID t)) entityMetadataUniqueIDKeys x)"

fun translateEvent :: "translator \<Rightarrow> event_data \<Rightarrow> event_data" where
  "translateEvent t (MobKilledEvent killer victim) =
     MobKilledEvent (translateUniqueID t killer) (translateUniqueID t victim)"
| "translateEvent t (BossKilledEvent boss) = BossKilledEvent (translateUniqueID t boss)"
| "translateEvent t OtherEvent = OtherEvent"

definition translateTracked :: "translator \<Rightarrow> MapTrackedObject \<Rightarrow> MapTrackedObject" where
  "translateTracked t x =
     (if mo_Type x = MapObjectTypeEntity
      then x\<lparr>mo_EntityUniqueID := map_option (translateUniqueID t) (mo_EntityUniqueID x)\<rparr>
      else x)"

definition translateScore :: "translator \<Rightarrow> ScoreboardEntry \<Rightarrow> ScoreboardEntry" where
  "translateScore t e =
     (if sb_IdentityType e \<noteq> ScoreboardIdentityFakePlayer
      then e\<lparr>sb_EntityUniqueID := translateUniqueID t (sb_EntityUniqueID e)\<rparr> else e)"

primrec translatePacket :: "translator \<Rightarrow> mc_packet \<Rightarrow> mc_packet" where
  "translatePacket t (RuntimePacket k r) = RuntimePacket k (translateRuntimeID t r)"
| "translatePacket t (UniquePacket k u) = UniquePacket k (translateUniqueID t u)"
| "translatePacket t (UnsignedPacket k u) = UnsignedPacket k (translateUniqueID t u)"
| "translatePacket t (VolumePacket k r) = VolumePacket k (translateRuntimeID32 t r)"
| "translatePacket t (AddActor u r m ls) =
     AddActor (translateUniqueID t u) (translateRuntimeID t r) (translateEntityMetadata t m)
       (map (translateEntityLink t) ls)"
| "translatePacket t (AddItemActor u r m) =
     AddItemActor (translateUniqueID t u) (translateRuntimeID t r) (translateEntityMetadata t m)"
| "translatePacket t (AddPainting u r) =
     AddPainting (translateUniqueID t u) (translateRuntimeID t r)"
| "translatePacket t (AddPlayer u r m ls) =
     AddPlayer (translateUniqueID t u) (translateRuntimeID t r) (translateEntityMetadata t m)
       (map (translateEntityLink t) ls)"
| "translatePacket t (AnimateEntity rs) = AnimateEntity (map (translateRuntimeID t) rs)"
| "translatePacket t (BossEvent u e) = BossEvent (translateUniqueID t u) e"
| "translatePacket t (Camera c p) = Camera (translateUniqueID t c) (translateUniqueID t p)"
| "translatePacket t (ClientBoundMapItemData objs) =
     ClientBoundMapItemData (map_option (map (translateTracked t)) objs)"
| "translatePacket t (CommandBlockUpdate block r) =
     CommandBlockUpdate block (if \<not> block then translateRuntimeID t r else r)"
| "translatePacket t (Event r e) = Event (translateRuntimeIDInt64 t r) (translateEvent t e)"
| "translatePacket t (InventoryTransaction target) =
     InventoryTransaction (map_option (translateRuntimeID t) target)"
| "translatePacket t (MobEffect r op e) = MobEffect (translateRuntimeID t r) op e"
| "translatePacket t (MovePlayer r ridden pos rot mode) =
     MovePlayer (translateRuntimeID t r) (translateRuntimeID t ridden) pos rot mode"
| "translatePacket t (PlayerAction r a) = PlayerAction (translateRuntimeID t r) a"
| "translatePacket t (PlayerAuthInput flag vehicle) =
     PlayerAuthInput flag (if flag then map_option (translateUniqueID t) vehicle else vehicle)"
| "translatePacket t (PlayerList es) =
     PlayerList (map (\<lambda>e. e\<lparr>pe_EntityUniqueID := translateUniqueID t (pe_EntityUniqueID e)\<rparr>) es)"
| "translatePacket t (RemoveActor u) = RemoveActor (translateUniqueID t u)"
| "translatePacket t (Respawn pos state r) = Respawn pos state (translateRuntimeID t r)"
| "translatePacket t (SetActorData r m) =
     SetActorData (translateRuntimeID t r) (translateEntityMetadata t m)"
| "translatePacket t (SetActorLink l) = SetActorLink (translateEntityLink t l)"
| "translatePacket t (SetScore es) =
     SetScore (map (translateScore t) es)"
| "translatePacket t (SetScoreboardIdentity a es) =
     SetScoreboardIdentity a (if a \<noteq> ScoreboardIdentityActionClear
       then map (map_option (translateUniqueID t)) es else es)"
| "translatePacket t (StartGame u r) = StartGame (translateUniqueID t u) (translateRuntimeID t r)"
| "translatePacket t (TakeItemActor i k) =
     TakeItemActor (translateRuntimeID t i) (translateRuntimeID t k)"
| "translatePacket t (UpdateSubChunkBlocks bs es) =
     UpdateSubChunkBlocks (map (translateUniqueID t) bs) (map (translateUniqueID t) es)"
| "translatePacket t (UpdateTrade v u) = UpdateTrade (translateUniqueID t v) (translateUniqueID t u)"
| "translatePacket t (RemoveObjective n) = RemoveObjective n"
| "translatePacket t (SetDisplayObjective n) = SetDisplayObjective n"
| "translatePacket t (BookEdit x) = BookEdit x"
| "translatePacket t (TextPacket x) = TextPacket x"
| "translatePacket t (WorldPacket w) = WorldPacket w"
| "translatePacket t (DisconnectPacket h m) = DisconnectPacket h m"
| "translatePacket t (OtherPacket x) = OtherPacket x"

section \<open>Exchanging two identifiers\<close>

definition exchange :: "'a \<Rightarrow> 'a \<Rightarrow> 'a \<Rightarrow> 'a" where
  "exchange a b x = (if a = x then b else if b = x then a else x)"

lemma exchange_exchange [simp]: "exchange a b (exchange a b x) = x"
  by (auto simp: exchange_def)

lemma exchange_same [simp]: "exchange a a x = x"
  by (simp add: exchange_def)

lemma translateRuntimeID_exchange:
  "translateRuntimeID t = exchange (originalRuntimeID t) (currentRuntimeID t)"
  by (auto simp: translateRuntimeID_def exchange_def)

lemma translateUniqueID_exchange:
  "translateUniqueID t = exchange (originalUniqueID t) (currentUniqueID t)"
  by (auto simp: translateUniqueID_def exchange_def)

lemmas exchange_defs = translateRuntimeID_exchange translateUniqueID_exchange

text \<open>An exchange done in a wider type and cut back to the narrow one is an exchange, provided both
  identifiers exist in the narrow type.\<close>

lemma exchange_narrow:
  assumes "\<And>v. narrow (widen v) = v" "widen (narrow a) = a" "widen (narrow b) = b"
  shows "narrow (exchange a b (widen (narrow (exchange a b (widen v))))) = v"
  using assms by (auto simp: exchange_def)

section \<open>When narrow fields can hold the identifiers\<close>

definition fits_u32 :: "uint64 \<Rightarrow> bool" where
  "fits_u32 w \<longleftrightarrow> ucast (ucast w :: uint32) = w"

definition fits_i32 :: "uint64 \<Rightarrow> bool" where
  "fits_i32 w \<longleftrightarrow> scast (ucast w :: int32) = w"

definition fits_nonneg :: "uint64 \<Rightarrow> bool" where
  "fits_nonneg w \<longleftrightarrow> 0 \<le> sint w"

fun unique_value_fits :: "translator \<Rightarrow> meta_value \<Rightarrow> bool" where
  "unique_value_fits t (MInt32 v) = (fits_i32 (originalUniqueID t) \<and> fits_i32 (currentUniqueID t))"
| "unique_value_fits t (MUint32 v) = (fits_u32 (originalUniqueID t) \<and> fits_u32 (currentUniqueID t))"
| "unique_value_fits t v = True"

fun runtime_value_fits :: "translator \<Rightarrow> meta_value \<Rightarrow> bool" where
  "runtime_value_fits t (MUint32 v) = (fits_u32 (originalRuntimeID t) \<and> fits_u32 (currentRuntimeID t))"
| "runtime_value_fits t (MInt32 v) =
     (fits_i32 (originalRuntimeID t) \<and> fits_i32 (currentRuntimeID t) \<and>
      fits_nonneg (originalRuntimeID t) \<and> fits_nonneg (currentRuntimeID t))"
| "runtime_value_fits t (MInt64 v) = (fits_nonneg (originalRuntimeID t) \<and> fits_nonneg (currentRuntimeID t))"
| "runtime_value_fits t (MInt v) = (fits_nonneg (originalRuntimeID t) \<and> fits_nonneg (currentRuntimeID t))"
| "runtime_value_fits t v = True"

definition metadata_fits :: "translator \<Rightarrow> metadata \<Rightarrow> bool" where
  "metadata_fits t m \<longleftrightarrow>
     list_all (\<lambda>k. case m k of None \<Rightarrow> True | Some v \<Rightarrow> unique_value_fits t v)
       entityMetadataUniqueIDKeys \<and>
     (case m 124 of None \<Rightarrow> True | Some v \<Rightarrow> runtime_value_fits t v)"

definition packet_fits_ids :: "translator \<Rightarrow> mc_packet \<Rightarrow> bool" where
  "packet_fits_ids t pk =
     (case pk of
        VolumePacket _ _ \<Rightarrow> fits_u32 (originalRuntimeID t) \<and> fits_u32 (currentRuntimeID t)
      | Event _ _ \<Rightarrow> fits_nonneg (originalRuntimeID t) \<and> fits_nonneg (currentRuntimeID t)
      | AddActor _ _ m _ \<Rightarrow> metadata_fits t m
      | AddItemActor _ _ m \<Rightarrow> metadata_fits t m
      | AddPlayer _ _ m _ \<Rightarrow> metadata_fits t m
      | SetActorData _ m \<Rightarrow> metadata_fits t m
      | _ \<Rightarrow> True)"

section \<open>Facts\<close>

lemma ucast_ucast_u32 [simp]: "ucast (ucast (v :: uint32) :: uint64) = v"
  by (rule bit_word_eqI) (simp add: bit_simps)

lemma ucast_scast_i32 [simp]: "ucast (scast (v :: int32) :: int64) = v"
  by (rule bit_word_eqI) (auto simp: bit_simps)

lemmas exchange_u32 = exchange_narrow [where narrow = "ucast :: uint64 \<Rightarrow> uint32" and widen = ucast,
    OF ucast_ucast_u32]

lemmas exchange_i32 = exchange_narrow [where narrow = "ucast :: int64 \<Rightarrow> int32" and widen = scast,
    OF ucast_scast_i32]

lemma at_key_apply: "at_key f k x j = (if j = k then map_option f (x k) else x j)"
  by (auto simp: at_key_def split: option.split)

lemma translateEntityMetadata_apply:
  "translateEntityMetadata t x j =
     (if j \<in> set entityMetadataUniqueIDKeys then map_option (translateMetadataUniqueID t) (x j)
      else if j = 124 then map_option (translateMetadataRuntimeID t) (x j) else x j)"
  by (simp add: translateEntityMetadata_def entityMetadataUniqueIDKeys_def at_key_apply)

lemma translateMetadataUniqueID_twice:
  "unique_value_fits t v \<Longrightarrow> translateMetadataUniqueID t (translateMetadataUniqueID t v) = v"
  by (cases v) (simp_all add: exchange_defs exchange_u32 exchange_i32 fits_u32_def fits_i32_def)

lemma translateRuntimeIDInt64_twice:
  "fits_nonneg (originalRuntimeID t) \<Longrightarrow> fits_nonneg (currentRuntimeID t) \<Longrightarrow>
   translateRuntimeIDInt64 t (translateRuntimeIDInt64 t v) = v"
  by (auto simp: translateRuntimeIDInt64_def exchange_defs fits_nonneg_def exchange_def)

lemma translateRuntimeID32_twice:
  "fits_u32 (originalRuntimeID t) \<Longrightarrow> fits_u32 (currentRuntimeID t) \<Longrightarrow>
   translateRuntimeID32 t (translateRuntimeID32 t v) = v"
  by (simp add: translateRuntimeID32_def exchange_defs exchange_u32 fits_u32_def)

lemma translateMetadataRuntimeID_twice:
  assumes "runtime_value_fits t v"
  shows "translateMetadataRuntimeID t (translateMetadataRuntimeID t v) = v"
proof (cases v)
  case (MInt32 w)
  have nonneg: "0 \<le> sint (ucast u :: int32)" if "fits_i32 u" "fits_nonneg u" for u :: uint64
  proof -
    have "sint (scast w :: uint64) = sint w" for w :: int32
      using sint_greater_eq [of w] sint_less [of w]
      by (simp add: signed_scast_eq signed_take_bit_int_eq_self)
    from this [of "ucast u"] that show ?thesis by (simp add: fits_i32_def fits_nonneg_def)
  qed
  from MInt32 assms exchange_i32 [of "originalRuntimeID t" "currentRuntimeID t" w]
    nonneg [of "originalRuntimeID t"] nonneg [of "currentRuntimeID t"] show ?thesis
    by (auto simp: exchange_defs fits_i32_def exchange_def split: if_splits)
qed (use assms in \<open>auto simp: exchange_defs translateRuntimeID32_twice translateRuntimeIDInt64_twice
    fits_nonneg_def exchange_def\<close>)

lemma translateEntityMetadata_twice:
  assumes "metadata_fits t m"
  shows "translateEntityMetadata t (translateEntityMetadata t m) = m"
proof (rule ext)
  fix k
  have "k \<in> set entityMetadataUniqueIDKeys \<Longrightarrow> m k = Some v \<Longrightarrow> unique_value_fits t v" for v
    using assms by (auto simp: metadata_fits_def list_all_iff split: option.splits)
  moreover have "m 124 = Some v \<Longrightarrow> runtime_value_fits t v" for v
    using assms by (simp add: metadata_fits_def)
  ultimately show "translateEntityMetadata t (translateEntityMetadata t m) k = m k"
    by (cases "m k") (auto simp: translateEntityMetadata_apply translateMetadataUniqueID_twice
        translateMetadataRuntimeID_twice)
qed

lemma translateEntityLink_twice [simp]: "translateEntityLink t (translateEntityLink t l) = l"
  by (simp add: translateEntityLink_def exchange_defs)

lemma translateTracked_twice [simp]: "translateTracked t (translateTracked t x) = x"
  by (simp add: translateTracked_def exchange_defs option.map_comp comp_def option.map_ident)

lemma translateScore_twice [simp]: "translateScore t (translateScore t e) = e"
  by (simp add: translateScore_def exchange_defs)

lemma translateEvent_twice [simp]: "translateEvent t (translateEvent t e) = e"
  by (cases e) (simp_all add: exchange_defs)

lemma map_twice: "(\<And>x. f (f x) = x) \<Longrightarrow> map f (map f xs) = xs"
  by (simp add: comp_def)

lemma map_option_twice: "(\<And>x. f (f x) = x) \<Longrightarrow> map_option f (map_option f x) = x"
  by (simp add: option.map_comp comp_def option.map_ident)

section \<open>Properties\<close>

text \<open>C9: translating a packet twice gives the packet back: an answer that goes the other way refers
  to the same entities, and no two entities are confused, provided the player's identifiers fit
  the narrower fields (32-bit volumes and metadata values, signed event identifiers) if the packet has
  any.\<close>

theorem translatePacket_involution:
  assumes "packet_fits_ids t pk"
  shows "translatePacket t (translatePacket t pk) = pk"
  using assms
  by (cases pk)
    (simp_all add: packet_fits_ids_def exchange_defs translateRuntimeID32_twice
      translateRuntimeIDInt64_twice translateEntityMetadata_twice map_twice map_option_twice
      option.map_comp comp_def option.map_ident)

text \<open>Before any transfer the translation changes nothing, whatever the identifiers are and
  however narrow the field that holds them.\<close>

lemma translatePacket_before_transfer:
  "translatePacket (newTranslator data) pk = pk"
proof -
  let ?t = "newTranslator data"
  have [simp]: "translateRuntimeID ?t = (\<lambda>x. x)" "translateUniqueID ?t = (\<lambda>x. x)"
    by (auto simp: exchange_defs newTranslator_def)
  have "translateMetadataUniqueID ?t v = v" and "translateMetadataRuntimeID ?t v = v" for v
    by (cases v; simp add: translateRuntimeID32_def translateRuntimeIDInt64_def)+
  then have u: "translateMetadataUniqueID ?t = (\<lambda>v. v)" and r: "translateMetadataRuntimeID ?t = (\<lambda>v. v)"
    by auto
  have [simp]: "translateEntityMetadata ?t m = m" for m
    by (rule ext) (simp add: translateEntityMetadata_apply u r option.map_ident)
  have [simp]: "translateEntityLink ?t = (\<lambda>l. l)" "translateTracked ?t = (\<lambda>x. x)"
    "translateScore ?t = (\<lambda>x. x)"
    by (auto simp: translateEntityLink_def translateTracked_def translateScore_def option.map_ident)
  have [simp]: "map_option (\<lambda>x. x) = (\<lambda>x. x)" for x :: int64
    by (simp add: option.map_ident fun_eq_iff)
  have [simp]: "translateEvent ?t e = e" for e
    by (cases e) simp_all
  show ?thesis
    by (cases pk) (simp_all add: translateRuntimeID32_def translateRuntimeIDInt64_def
        option.map_ident cong: if_cong)
qed

section \<open>Witnesses\<close>

definition ex_translator :: translator where
  "ex_translator =
     \<lparr>originalRuntimeID = 1, originalUniqueID = - 4294967295, currentRuntimeID = 77, currentUniqueID = 900\<rparr>"

definition ex_spawn :: mc_packet where
  "ex_spawn = AddActor 900 1 [5 \<mapsto> MInt64 900, 124 \<mapsto> MInt32 77, 4 \<mapsto> MInt64 900]
     [\<lparr>RiddenEntityUniqueID = 12, RiderEntityUniqueID = - 4294967295\<rparr>]"

theorem translatePacket_involution_witness:
  "packet_fits_ids ex_translator ex_spawn \<and>
   translatePacket ex_translator (translatePacket ex_translator ex_spawn) = ex_spawn \<and>
   translatePacket ex_translator ex_spawn \<noteq> ex_spawn"
proof -
  have "packet_fits_ids ex_translator ex_spawn"
    by (simp add: packet_fits_ids_def ex_spawn_def metadata_fits_def entityMetadataUniqueIDKeys_def
        ex_translator_def fits_i32_def fits_nonneg_def)
  moreover have "translatePacket ex_translator ex_spawn \<noteq> ex_spawn"
    by (simp add: ex_spawn_def ex_translator_def translateUniqueID_def)
  ultimately show ?thesis using translatePacket_involution by blast
qed

end
