(* ===== verification/Session.thy ===== *)
theory Session
  imports Servers SessionStore Metrics Translator
begin

text \<open>
  A player's session (\<^verbatim>\<open>session/session.go\<close>). The state of the proxy that sessions touch is the
  record \<open>world\<close>: the heap of servers, the session store, the published events, the metrics, the
  sessions, and the connections with what was written to each of them and which are closed.

  Each method is a function on the world. What other parties decide is an argument: the clock, the
  outcome of dialing, of spawning and of logging in, whether a handler cancels, and the order in which
  a set is visited or the goroutines of one method interleave. \<open>Panicked\<close> is a nil dereference.
\<close>

unbundle bit_operations_syntax

section \<open>State\<close>

type_synonym conn_ref = nat

record IdentityData =
  id_XUID :: string
  id_DisplayName :: string

record ClientData =
  cd_PlatformOnlineID :: string
  cd_PlatformOfflineID :: string
  cd_PlayFabID :: string
  cd_ThirdPartyName :: string

text \<open>The closure \<^verbatim>\<open>publishTransfer\<close> of a transfer, by the variables it captures.\<close>

record transfer_done =
  td_from :: string
  td_to :: string
  td_start :: time

datatype login_state = LoginPending | LoggedIn | LoginFailed

record session =
  s_uuid :: uuid
  s_identity :: IdentityData
  s_clientData :: ClientData
  s_conn :: conn_ref
  s_translator :: translator
  s_login :: login_state
  s_server :: "srv_ref option"
  s_serverConn :: "conn_ref option"
  s_tempServerConn :: "conn_ref option"
  s_pendingServer :: "srv_ref option"
  s_transferConfirmTimer :: "srv_ref option"
  s_transferDone :: "transfer_done option"
  s_entities :: "int64 set"
  s_playerList :: "uuid set"
  s_effects :: "int32 set"
  s_bossBars :: "int64 set"
  s_scoreboards :: "string set"
  s_transferring :: bool
  s_postTransfer :: bool
  s_dead :: bool
  s_once :: bool

record world =
  w_srv :: srv_heap
  w_store :: Store
  w_preTransfer :: "(string \<times> string) list option"
  w_hasBus :: bool
  w_published :: published
  w_metrics :: Metrics
  w_sess :: "sess_ref \<Rightarrow> session"
  w_next :: sess_ref
  w_gameData :: "conn_ref \<Rightarrow> GameData"
  w_sent :: "conn_ref \<Rightarrow> mc_packet list"
  w_closed :: "conn_ref set"

datatype outcome = Returned "go_error option" | Panicked

definition upd_sess :: "sess_ref \<Rightarrow> (session \<Rightarrow> session) \<Rightarrow> world \<Rightarrow> world" where
  "upd_sess i f w = w\<lparr>w_sess := (w_sess w)(i := f (w_sess w i))\<rparr>"

abbreviation displayName :: "world \<Rightarrow> sess_ref \<Rightarrow> string" where
  "displayName w i \<equiv> id_DisplayName (s_identity (w_sess w i))"

abbreviation uuid_of :: "world \<Rightarrow> sess_ref \<Rightarrow> uuid" where
  "uuid_of w i \<equiv> s_uuid (w_sess w i)"

text \<open>Writing to a connection, whose errors the code ignores: a closed one takes nothing.\<close>

definition write_conn :: "conn_ref \<Rightarrow> mc_packet \<Rightarrow> world \<Rightarrow> world" where
  "write_conn c pk w =
     (if c \<in> w_closed w then w else w\<lparr>w_sent := (w_sent w)(c := w_sent w c @ [pk])\<rparr>)"

definition write_all :: "conn_ref \<Rightarrow> mc_packet list \<Rightarrow> world \<Rightarrow> world" where
  "write_all c pks w = fold (write_conn c) pks w"

definition close_conn :: "conn_ref \<Rightarrow> world \<Rightarrow> world" where
  "close_conn c w = w\<lparr>w_closed := insert c (w_closed w)\<rparr>"

definition close_opt :: "conn_ref option \<Rightarrow> world \<Rightarrow> world" where
  "close_opt c w = (case c of None \<Rightarrow> w | Some c \<Rightarrow> close_conn c w)"

definition bus_Publish :: "string \<Rightarrow> payload \<Rightarrow> world \<Rightarrow> world" where
  "bus_Publish topic p w = (if w_hasBus w then w\<lparr>w_published := w_published w @ [(topic, p)]\<rparr> else w)"

section \<open>Dialing a server\<close>

record Dialer =
  d_ClientData :: ClientData
  d_IdentityData :: IdentityData
  d_EnableLegacyAuth :: bool
  d_KeepXBLIdentityData :: bool

definition dialer_for :: "IdentityData \<Rightarrow> ClientData \<Rightarrow> server \<Rightarrow> Dialer" where
  "dialer_for i c srv =
     (let c = c\<lparr>cd_PlatformOnlineID := '''', cd_PlatformOfflineID := '''', cd_PlayFabID := '''',
                cd_ThirdPartyName := id_DisplayName i\<rparr>;
          i = (if sv_legacyAuth srv then i\<lparr>id_XUID := ''''\<rparr> else i)
      in \<lparr>d_ClientData = c, d_IdentityData = i, d_EnableLegacyAuth = sv_legacyAuth srv,
          d_KeepXBLIdentityData = \<not> sv_legacyAuth srv\<rparr>)"

text \<open>\<^verbatim>\<open>dial\<close>: \<open>nether\<close> and \<open>rak\<close> are gophertunnel's two ways to dial an address.\<close>

definition dial ::
  "(Dialer \<Rightarrow> string \<Rightarrow> go_error + conn_ref) \<Rightarrow> (Dialer \<Rightarrow> string \<Rightarrow> go_error + conn_ref) \<Rightarrow>
   session \<Rightarrow> server \<Rightarrow> go_error + conn_ref" where
  "dial nether rak s srv =
     (let dialer = dialer_for (s_identity s) (s_clientData s) srv in
      if sv_transport srv = TransportNetherNet then nether dialer (sv_address srv)
      else if sv_transport srv = TransportRakNet \<or> sv_transport srv = '''' then rak dialer (sv_address srv)
      else Inl (''dial server '' @ Quote (sv_name srv) @ '': unknown transport '' @ Quote (sv_transport srv)))"

text \<open>\<^verbatim>\<open>login\<close>: the two halves run side by side, and their errors are joined.\<close>

definition login :: "go_error option \<Rightarrow> go_error option \<Rightarrow> go_error option" where
  "login clientErr serverErr =
     (case (clientErr, serverErr) of
        (None, e) \<Rightarrow> e
      | (Some e, None) \<Rightarrow> Some e
      | (Some e, Some e') \<Rightarrow> Some (e @ [CHR 0x0A] @ e'))"

section \<open>Completing a transfer\<close>

definition publishTransfer ::
  "transfer_done \<Rightarrow> go_error option \<Rightarrow> time \<Rightarrow> sess_ref \<Rightarrow> world \<Rightarrow> world" where
  "publishTransfer d transferErr now i w =
     bus_Publish TopicTransfer (TransferPayload (displayName w i) (td_from d) (td_to d) transferErr)
       (w\<lparr>w_metrics := RecordTransfer (transferErr = None) (time_Sub now (td_start d)) (w_metrics w)\<rparr>)"

definition completeTransfer :: "go_error option \<Rightarrow> time \<Rightarrow> sess_ref \<Rightarrow> world \<Rightarrow> world" where
  "completeTransfer err now i w =
     (case s_transferDone (w_sess w i) of
        None \<Rightarrow> upd_sess i (s_transferDone_update (\<lambda>_. None)) w
      | Some done \<Rightarrow>
          publishTransfer done err now i (upd_sess i (s_transferDone_update (\<lambda>_. None)) w))"

definition setTransferring :: "bool \<Rightarrow> sess_ref \<Rightarrow> world \<Rightarrow> world" where
  "setTransferring v i w = upd_sess i (s_transferring_update (\<lambda>_. v)) w"

section \<open>Closing\<close>

text \<open>\<^verbatim>\<open>Close\<close>, by its parts: a transfer that is going on is over; the handler is told (user code, not
  shown) and the quit announced; the store and the connections are let go, and the server's count.\<close>

definition close_transfer :: "time \<Rightarrow> sess_ref \<Rightarrow> world \<Rightarrow> world" where
  "close_transfer now i w =
     (if s_transferring (w_sess w i)
      then completeTransfer (Some ''session closed during transfer'') now i
        (upd_sess i (\<lambda>s. s\<lparr>s_transferring := False, s_postTransfer := False\<rparr>) w)
      else w)"

definition announce_quit :: "sess_ref \<Rightarrow> world \<Rightarrow> world" where
  "announce_quit i w = bus_Publish TopicPlayerQuit (PlayerPayload (uuid_of w i) (displayName w i)) w"

definition store_Delete :: "sess_ref \<Rightarrow> world \<Rightarrow> world" where
  "store_Delete i w = w\<lparr>w_store := Store_Delete (uuid_of w) (displayName w) i (w_store w)\<rparr>"

definition close_conns :: "sess_ref \<Rightarrow> world \<Rightarrow> world" where
  "close_conns i w =
     close_opt (s_tempServerConn (w_sess w i))
       (close_opt (s_serverConn (w_sess w i)) (close_conn (s_conn (w_sess w i)) w))"

definition leave_server :: "sess_ref \<Rightarrow> world \<Rightarrow> world" where
  "leave_server i w =
     (case s_server (w_sess w i) of
        None \<Rightarrow> w
      | Some srv \<Rightarrow> w\<lparr>w_srv := DecrementPlayerCount srv (w_srv w)\<rparr>)"

definition Close :: "time \<Rightarrow> sess_ref \<Rightarrow> world \<Rightarrow> world" where
  "Close now i w =
     (if s_once (w_sess w i) then w
      else leave_server i (close_conns i (store_Delete i (announce_quit i (close_transfer now i
             (upd_sess i (s_once_update (\<lambda>_. True)) w))))))"

definition Session_Disconnect :: "string \<Rightarrow> time \<Rightarrow> sess_ref \<Rightarrow> world \<Rightarrow> world" where
  "Session_Disconnect message now i w =
     Close now i (write_conn (s_conn (w_sess w i)) (DisconnectPacket (message = '''') message) w)"

section \<open>What the client is told in a transfer\<close>

definition changeDimension :: "int32 \<Rightarrow> vec3 \<Rightarrow> mc_packet list" where
  "changeDimension dimension pos =
     [WorldPacket (ChangeDimension dimension pos), WorldPacket (StopSound True),
      PlayerAction 0 PlayerActionDimensionChangeDone]"

fun selectProxyDimension_loop :: "int32 list \<Rightarrow> int32 \<Rightarrow> int32 \<Rightarrow> int32" where
  "selectProxyDimension_loop [] source target = DimensionOverworld"
| "selectProxyDimension_loop (d # ds) source target =
     (if d \<noteq> source \<and> d \<noteq> target then d else selectProxyDimension_loop ds source target)"

definition selectProxyDimension :: "int32 \<Rightarrow> int32 \<Rightarrow> int32" where
  "selectProxyDimension source target =
     selectProxyDimension_loop [DimensionOverworld, DimensionNether, DimensionEnd] source target"

text \<open>The payload of an empty chunk (\<^verbatim>\<open>chunk.go\<close>). The three byte arrays, which are generated, are an argument.\<close>

record chunk_data =
  emptyChunksOverworld :: "byte list"
  emptyChunksNether :: "byte list"
  emptyChunksEnd :: "byte list"

definition emptyChunk :: "chunk_data \<Rightarrow> int32 \<Rightarrow> byte list" where
  "emptyChunk data dimension =
     (if dimension = DimensionNether then emptyChunksNether data
      else if dimension = DimensionEnd then emptyChunksEnd data
      else emptyChunksOverworld data)"

text \<open>The 25 empty chunks around the player. \<open>toInt32\<close> is Go's conversion of a 32-bit float.\<close>

definition empty_chunks ::
  "chunk_data \<Rightarrow> (float32 \<Rightarrow> int32) \<Rightarrow> int32 \<Rightarrow> vec3 \<Rightarrow> mc_packet list" where
  "empty_chunks data toInt32 proxyDimension pos =
     (let chunkX = signed_drop_bit 4 (toInt32 (fst pos));
          chunkZ = signed_drop_bit 4 (toInt32 (snd (snd pos)))
      in concat (map (\<lambda>x. map (\<lambda>z.
           WorldPacket (LevelChunk (chunkX + of_int x, chunkZ + of_int z) proxyDimension 1
             (emptyChunk data proxyDimension))) [-2..2]) [-2..2]))"

text \<open>The five \<^verbatim>\<open>clear\<close> methods: the packets written, for an order in which the set is visited, and the
  set emptied.\<close>

record clear_orders =
  co_entities :: "int64 list"
  co_effects :: "int32 list"
  co_playerList :: "uuid list"
  co_bossBars :: "int64 list"
  co_scoreboards :: "string list"

definition clearEntities :: "clear_orders \<Rightarrow> session \<Rightarrow> mc_packet list \<times> session" where
  "clearEntities co s = (map RemoveActor (co_entities co), s\<lparr>s_entities := {}\<rparr>)"

definition clearPlayerList :: "clear_orders \<Rightarrow> session \<Rightarrow> mc_packet list \<times> session" where
  "clearPlayerList co s =
     ([PlayerList (map (\<lambda>uid. \<lparr>pe_ActionType = PlayerListActionRemove, pe_UUID = uid, pe_EntityUniqueID = 0\<rparr>)
         (co_playerList co))],
      s\<lparr>s_playerList := {}\<rparr>)"

definition clearEffects :: "clear_orders \<Rightarrow> session \<Rightarrow> mc_packet list \<times> session" where
  "clearEffects co s =
     (map (MobEffect (originalRuntimeID (s_translator s)) MobEffectRemove) (co_effects co),
      s\<lparr>s_effects := {}\<rparr>)"

definition clearBossBars :: "clear_orders \<Rightarrow> session \<Rightarrow> mc_packet list \<times> session" where
  "clearBossBars co s = (map (\<lambda>b. BossEvent b BossEventHide) (co_bossBars co), s\<lparr>s_bossBars := {}\<rparr>)"

definition clearScoreboard :: "clear_orders \<Rightarrow> session \<Rightarrow> mc_packet list \<times> session" where
  "clearScoreboard co s = (map RemoveObjective (co_scoreboards co), s\<lparr>s_scoreboards := {}\<rparr>)"

definition respawn_packet :: "vec3 \<Rightarrow> session \<Rightarrow> mc_packet" where
  "respawn_packet pos s = Respawn pos RespawnStateReadyToSpawn (originalRuntimeID (s_translator s))"

section \<open>Transfer\<close>

record transfer_env =
  te_cancelled :: bool
  te_nether :: "nat \<Rightarrow> Dialer \<Rightarrow> string \<Rightarrow> go_error + conn_ref"
  te_rak :: "nat \<Rightarrow> Dialer \<Rightarrow> string \<Rightarrow> go_error + conn_ref"
  te_spawn :: "conn_ref \<Rightarrow> go_error option"
  te_end :: time
  te_toInt32 :: "float32 \<Rightarrow> int32"
  te_chunks :: chunk_data

text \<open>The part of \<^verbatim>\<open>Transfer\<close> before the handler is asked: \<open>Inl\<close> is the value returned at once.\<close>

definition Transfer_begin :: "srv_ref \<Rightarrow> time \<Rightarrow> sess_ref \<Rightarrow> world \<Rightarrow> (outcome + unit) \<times> world" where
  "Transfer_begin srv start i w =
     (if s_transferring (w_sess w i) then (Inl (Returned (Some ''already being transferred'')), w)
      else
        let w = upd_sess i (\<lambda>s. s\<lparr>s_transferring := True, s_postTransfer := False\<rparr>) w in
        (case s_server (w_sess w i) of
           None \<Rightarrow> (Inl Panicked, w)
         | Some from \<Rightarrow>
             (Inr (), upd_sess i (s_transferDone_update (\<lambda>_. Some
                \<lparr>td_from = Name (w_srv w) from, td_to = Name (w_srv w) srv, td_start = start\<rparr>)) w)))"

text \<open>A failure: \<open>setTransferring false\<close>, then \<open>completeTransfer\<close>.\<close>

definition fail_transfer :: "go_error \<Rightarrow> time \<Rightarrow> sess_ref \<Rightarrow> world \<Rightarrow> outcome \<times> world" where
  "fail_transfer err now i w =
     (Returned (Some err), completeTransfer (Some err) now i (setTransferring False i w))"

text \<open>Dialing the target, a second time if it still thinks that the player is logged in.\<close>

definition dial_target :: "transfer_env \<Rightarrow> srv_ref \<Rightarrow> sess_ref \<Rightarrow> world \<Rightarrow> go_error + conn_ref" where
  "dial_target env srv i w =
     (let attempt = (\<lambda>n. dial (te_nether env n) (te_rak env n) (w_sess w i) (srv_at (w_srv w) srv)) in
      case attempt 0 of
        Inl err \<Rightarrow> if Contains err ''already logged in'' then attempt 1 else Inl err
      | Inr conn \<Rightarrow> Inr conn)"

definition PreTransfer :: "srv_ref \<Rightarrow> sess_ref \<Rightarrow> world \<Rightarrow> world" where
  "PreTransfer srv i w =
     w\<lparr>w_preTransfer := map_option (\<lambda>calls. calls @ [(Name (w_srv w) srv, displayName w i)]) (w_preTransfer w)\<rparr>"

text \<open>The connection to the target is up: it becomes the pending one, and the client is sent through
  another dimension.\<close>

definition Transfer_connected ::
  "transfer_env \<Rightarrow> srv_ref \<Rightarrow> conn_ref \<Rightarrow> sess_ref \<Rightarrow> world \<Rightarrow> outcome \<times> world" where
  "Transfer_connected env srv conn i w =
     (let w = upd_sess i (\<lambda>s. s\<lparr>s_tempServerConn := Some conn, s_pendingServer := Some srv,
                               s_transferConfirmTimer := Some srv\<rparr>) w;
          c = s_conn (w_sess w i);
          pos = gd_PlayerPosition (w_gameData w c)
      in case s_serverConn (w_sess w i) of
           None \<Rightarrow> (Panicked, w)
         | Some old \<Rightarrow>
             let proxyDimension = selectProxyDimension (gd_Dimension (w_gameData w old))
                                    (gd_Dimension (w_gameData w conn))
             in (Returned None, write_all c (changeDimension proxyDimension pos @
                   empty_chunks (te_chunks env) (te_toInt32 env) proxyDimension pos) w))"

definition Transfer_continue :: "transfer_env \<Rightarrow> srv_ref \<Rightarrow> sess_ref \<Rightarrow> world \<Rightarrow> outcome \<times> world" where
  "Transfer_continue env srv i w =
     (let c = s_conn (w_sess w i);
          w = (if s_dead (w_sess w i)
               then write_conn c (respawn_packet (gd_PlayerPosition (w_gameData w c)) (w_sess w i))
                 (upd_sess i (s_dead_update (\<lambda>_. False)) w)
               else w);
          w = PreTransfer srv i w
      in case dial_target env srv i w of
           Inl err \<Rightarrow> fail_transfer err (te_end env) i w
         | Inr conn \<Rightarrow>
             (case te_spawn env conn of
                Some err \<Rightarrow> fail_transfer err (te_end env) i (close_conn conn w)
              | None \<Rightarrow> Transfer_connected env srv conn i w))"

definition Transfer ::
  "transfer_env \<Rightarrow> srv_ref \<Rightarrow> time \<Rightarrow> sess_ref \<Rightarrow> world \<Rightarrow> outcome \<times> world" where
  "Transfer env srv start i w =
     (case Transfer_begin srv start i w of
        (Inl r, w) \<Rightarrow> (r, w)
      | (Inr _, w) \<Rightarrow>
          if te_cancelled env then fail_transfer ''transfer cancelled'' (te_end env) i w
          else Transfer_continue env srv i w)"

section \<open>Finishing or aborting a transfer\<close>

text \<open>How the packets of the two clearing goroutines and of the method itself interleave is the
  scheduler's choice.\<close>

type_synonym scheduler = "mc_packet list \<Rightarrow> mc_packet list \<Rightarrow> mc_packet list \<Rightarrow> mc_packet list"

definition fair_merge :: "scheduler \<Rightarrow> bool" where
  "fair_merge sched \<longleftrightarrow> (\<forall>a b c. \<exists>ab \<in> shuffles a b. sched a b c \<in> shuffles ab c)"

definition world_packets :: "(float32 \<Rightarrow> int32) \<Rightarrow> GameData \<Rightarrow> session \<Rightarrow> mc_packet list" where
  "world_packets toInt32 gameData s =
     (let pos = gd_PlayerPosition gameData in
      [MovePlayer (originalRuntimeID (s_translator s)) 0 pos (gd_Pitch gameData, gd_Yaw gameData)
         MoveModeReset,
       WorldPacket (LevelEvent LevelEventStopRaining 10000),
       WorldPacket (LevelEvent LevelEventStopThunderstorm 0),
       WorldPacket (SetDifficulty (gd_Difficulty gameData)),
       WorldPacket (GameRulesChanged (gd_GameRules gameData)),
       WorldPacket (SetPlayerGameType (gd_PlayerGameMode gameData)),
       WorldPacket (NetworkChunkPublisherUpdate
         (toInt32 (fst pos), toInt32 (fst (snd pos)), toInt32 (snd (snd pos)))
         (push_bit 4 (gd_ChunkRadius gameData)))] @
      (if s_dead s then [respawn_packet pos s] else []))"

text \<open>The two goroutines: what each writes, and the session with its sets emptied.\<close>

definition clear_goroutines :: "clear_orders \<Rightarrow> session \<Rightarrow> mc_packet list \<times> mc_packet list \<times> session" where
  "clear_goroutines co s =
     (let (entities, s) = clearEntities co s;
          (effects, s) = clearEffects co s;
          (players, s) = clearPlayerList co s;
          (bars, s) = clearBossBars co s;
          (boards, s) = clearScoreboard co s
      in (entities @ effects, players @ bars @ boards, s))"

text \<open>The client's side of the switch: everything from the change of dimension to the flush.\<close>

definition finish_client ::
  "scheduler \<Rightarrow> clear_orders \<Rightarrow> (float32 \<Rightarrow> int32) \<Rightarrow> GameData \<Rightarrow> sess_ref \<Rightarrow> world \<Rightarrow> world" where
  "finish_client sched co toInt32 gameData i w =
     (let s = w_sess w i;
          dim = changeDimension (gd_Dimension gameData) (gd_PlayerPosition gameData);
          (first, second, s') = clear_goroutines co s
      in upd_sess i (\<lambda>_. s'\<lparr>s_dead := False\<rparr>)
           (write_all (s_conn s) (dim @ sched first second (world_packets toInt32 gameData s)) w))"

text \<open>The servers' side: the old connection is closed with a message, the new one takes its place, and the
  counts follow. None of the fields is nil when the packet loops run and a transfer is pending.\<close>

definition finish_servers :: "conn_ref \<Rightarrow> sess_ref \<Rightarrow> world \<Rightarrow> world" where
  "finish_servers temp i w =
     (let s = w_sess w i;
          w = (case s_serverConn s of
                 None \<Rightarrow> w
               | Some old \<Rightarrow>
                   close_conn old (write_conn old (DisconnectPacket False ''Server transfer'') w));
          h = (case s_server s of None \<Rightarrow> w_srv w | Some old \<Rightarrow> DecrementPlayerCount old (w_srv w));
          h = (case s_pendingServer s of None \<Rightarrow> h | Some new \<Rightarrow> IncrementPlayerCount new h)
      in upd_sess i (\<lambda>s. s\<lparr>s_serverConn := Some temp, s_tempServerConn := None,
                          s_server := s_pendingServer s, s_pendingServer := None\<rparr>)
           (w\<lparr>w_srv := h\<rparr>))"

definition finishTransferDimensionChange ::
  "scheduler \<Rightarrow> clear_orders \<Rightarrow> (float32 \<Rightarrow> int32) \<Rightarrow> sess_ref \<Rightarrow> world \<Rightarrow> GameData option \<times> world" where
  "finishTransferDimensionChange sched co toInt32 i w =
     (case s_tempServerConn (w_sess w i) of
        None \<Rightarrow> (None, w)
      | Some temp \<Rightarrow>
          let gameData = w_gameData w temp in
          (Some gameData,
           finish_servers temp i
             (finish_client sched co toInt32 gameData i
               (upd_sess i (s_transferConfirmTimer_update (\<lambda>_. None)) w))))"

definition abortStuckTransfer :: "srv_ref \<Rightarrow> time \<Rightarrow> sess_ref \<Rightarrow> world \<Rightarrow> world" where
  "abortStuckTransfer srv now i w =
     (let conn = s_tempServerConn (w_sess w i);
          w = upd_sess i (\<lambda>s. s\<lparr>s_tempServerConn := None, s_pendingServer := None,
                               s_transferConfirmTimer := None\<rparr>) w
      in case conn of
           None \<Rightarrow> w
         | Some conn \<Rightarrow>
             Session_Disconnect
               (''Transfer to '' @ Name (w_srv w) srv @ '' timed out, please reconnect.'') now i
               (completeTransfer
                 (Some (''transfer to '' @ Name (w_srv w) srv @
                   '' timed out waiting for client confirmation'')) now i
                 (setTransferring False i (close_conn conn w))))"

section \<open>A new session\<close>

definition fresh_session :: "uuid \<Rightarrow> IdentityData \<Rightarrow> ClientData \<Rightarrow> conn_ref \<Rightarrow> session" where
  "fresh_session u i cd c =
     \<lparr>s_uuid = u, s_identity = i, s_clientData = cd, s_conn = c,
      s_translator = \<lparr>originalRuntimeID = 0, originalUniqueID = 0, currentRuntimeID = 0, currentUniqueID = 0\<rparr>,
      s_login = LoginPending, s_server = None, s_serverConn = None, s_tempServerConn = None,
      s_pendingServer = None, s_transferConfirmTimer = None, s_transferDone = None, s_entities = {},
      s_playerList = {}, s_effects = {}, s_bossBars = {}, s_scoreboards = {}, s_transferring = False,
      s_postTransfer = False, s_dead = False, s_once = False\<rparr>"

text \<open>\<^verbatim>\<open>New\<close>, up to the start of its goroutine. \<open>findServer\<close> is the load balancer, of the registry and
  the servers as they are.\<close>

text \<open>The first part: the session is made and stored, before a server is found for it. Other goroutines
  can load it from then on.\<close>

definition New_stored :: "uuid \<Rightarrow> IdentityData \<Rightarrow> ClientData \<Rightarrow> conn_ref \<Rightarrow> world \<Rightarrow> world" where
  "New_stored u ident cd c w =
     (let i = w_next w;
          w = w\<lparr>w_next := i + 1, w_sess := (w_sess w)(i := fresh_session u ident cd c)\<rparr>
      in w\<lparr>w_store := Store_Store (uuid_of w) (displayName w) i (w_store w)\<rparr>)"

definition session_New ::
  "(world \<Rightarrow> srv_ref option) \<Rightarrow> uuid \<Rightarrow> IdentityData \<Rightarrow> ClientData \<Rightarrow> conn_ref \<Rightarrow> world \<Rightarrow>
   (go_error option \<times> sess_ref) \<times> world" where
  "session_New findServer u ident cd c w =
     (let i = w_next w;
          w = New_stored u ident cd c w
      in case findServer w of
           None \<Rightarrow>
             ((Some ''load balancer did not return a server for the player to join'', i),
              store_Delete i w)
         | Some srv \<Rightarrow>
             ((None, i), upd_sess i (s_server_update (\<lambda>_. Some srv))
               (w\<lparr>w_srv := IncrementPlayerCount srv (w_srv w)\<rparr>)))"

text \<open>The goroutine of \<^verbatim>\<open>New\<close>, for an outcome of dialing the server and of the login.\<close>

definition New_login :: "(go_error + conn_ref) \<Rightarrow> go_error option \<Rightarrow> time \<Rightarrow> sess_ref \<Rightarrow> world \<Rightarrow> world" where
  "New_login dialed loginErr now i w =
     (case dialed of
        Inl err \<Rightarrow> Close now i (upd_sess i (s_login_update (\<lambda>_. LoginFailed)) w)
      | Inr conn \<Rightarrow>
          let w = upd_sess i (s_serverConn_update (\<lambda>_. Some conn)) w in
          (case loginErr of
             Some err \<Rightarrow> Close now i (upd_sess i (s_login_update (\<lambda>_. LoginFailed)) w)
           | None \<Rightarrow>
               bus_Publish TopicPlayerJoin (PlayerPayload (uuid_of w i) (displayName w i))
                 (upd_sess i (\<lambda>s. s\<lparr>s_translator := newTranslator (w_gameData w conn), s_login := LoggedIn\<rparr>) w)))"

end
