(* ===== verification/PacketLoops.thy ===== *)
theory PacketLoops
  imports Session
begin

text \<open>
  The two packet loops of a session (\<^verbatim>\<open>session/packet_handler.go\<close>): one turn of each, for the packet or the
  error that its connection gives. The decisions of the session's handler are arguments.

  The session tracks what it has shown the client, so that a transfer can take it away again. \<open>view\<close> is
  the client's side of that: what the packets written to its connection make visible.
\<close>

section \<open>From the client to the server\<close>

definition clearLegacyIdentity :: "mc_packet \<Rightarrow> bool \<Rightarrow> mc_packet" where
  "clearLegacyIdentity pk legacyAuth =
     (if \<not> legacyAuth then pk
      else case pk of
             BookEdit _ \<Rightarrow> BookEdit ''''
           | TextPacket _ \<Rightarrow> TextPacket ''''
           | _ \<Rightarrow> pk)"

text \<open>The end of a turn: the packet goes to the current server unless a transfer is going on or the handler
  cancels it.\<close>

definition forward_to_server :: "bool \<Rightarrow> mc_packet \<Rightarrow> sess_ref \<Rightarrow> world \<Rightarrow> world" where
  "forward_to_server cancelled pk i w =
     (if s_transferring (w_sess w i) \<or> cancelled then w
      else case s_serverConn (w_sess w i) of None \<Rightarrow> w | Some c \<Rightarrow> write_conn c pk w)"

record turn_env =
  tu_sched :: scheduler
  tu_orders :: clear_orders
  tu_toInt32 :: "float32 \<Rightarrow> int32"
  tu_now :: time
  tu_cancelled :: bool

text \<open>The client has confirmed the change of dimension: \<open>True\<close> when the turn ends here.\<close>

definition dimension_change_done :: "turn_env \<Rightarrow> sess_ref \<Rightarrow> world \<Rightarrow> bool \<times> world" where
  "dimension_change_done env i w =
     (if s_transferring (w_sess w i)
      then (case finishTransferDimensionChange (tu_sched env) (tu_orders env) (tu_toInt32 env) i w of
              (Some gameData, w) \<Rightarrow>
                (True, completeTransfer None (tu_now env) i
                   (upd_sess i (\<lambda>s. s\<lparr>s_translator := updateTranslatorData gameData (s_translator s),
                                     s_transferring := False, s_postTransfer := True\<rparr>) w))
            | (None, w) \<Rightarrow> (False, w))
      else if s_postTransfer (w_sess w i)
      then (True, upd_sess i (s_postTransfer_update (\<lambda>_. False)) w)
      else (False, w))"

definition is_dimension_change_done :: "mc_packet \<Rightarrow> bool" where
  "is_dimension_change_done pk =
     (case pk of PlayerAction _ action \<Rightarrow> action = PlayerActionDimensionChangeDone | _ \<Rightarrow> False)"

definition client_turn :: "turn_env \<Rightarrow> mc_packet \<Rightarrow> sess_ref \<Rightarrow> world \<Rightarrow> world" where
  "client_turn env pk i w =
     (let s = w_sess w i;
          pk = translatePacket (s_translator s) pk;
          pk = clearLegacyIdentity pk
                 (case s_server s of None \<Rightarrow> False | Some srv \<Rightarrow> sv_legacyAuth (srv_at (w_srv w) srv))
      in if is_dimension_change_done pk
         then (case dimension_change_done env i w of
                 (True, w) \<Rightarrow> w
               | (False, w) \<Rightarrow> forward_to_server (tu_cancelled env) pk i w)
         else forward_to_server (tu_cancelled env) pk i w)"

section \<open>From the server to the client\<close>

text \<open>What the session keeps track of.\<close>

definition track_entry :: "PlayerListEntry \<Rightarrow> uuid set \<Rightarrow> uuid set" where
  "track_entry e us = (if pe_ActionType e = PlayerListActionAdd then insert (pe_UUID e) us else us - {pe_UUID e})"

definition track :: "mc_packet \<Rightarrow> session \<Rightarrow> session" where
  "track pk s =
     (case pk of
        AddActor u r m ls \<Rightarrow> s\<lparr>s_entities := insert u (s_entities s)\<rparr>
      | AddItemActor u r m \<Rightarrow> s\<lparr>s_entities := insert u (s_entities s)\<rparr>
      | AddPainting u r \<Rightarrow> s\<lparr>s_entities := insert u (s_entities s)\<rparr>
      | AddPlayer u r m ls \<Rightarrow> s\<lparr>s_entities := insert u (s_entities s)\<rparr>
      | BossEvent b e \<Rightarrow>
          if e = BossEventShow then s\<lparr>s_bossBars := insert b (s_bossBars s)\<rparr>
          else if e = BossEventHide then s\<lparr>s_bossBars := s_bossBars s - {b}\<rparr> else s
      | MobEffect r op e \<Rightarrow>
          if op = MobEffectAdd then s\<lparr>s_effects := insert e (s_effects s)\<rparr>
          else if op = MobEffectRemove then s\<lparr>s_effects := s_effects s - {e}\<rparr> else s
      | PlayerList es \<Rightarrow> s\<lparr>s_playerList := fold track_entry es (s_playerList s)\<rparr>
      | RemoveActor u \<Rightarrow> s\<lparr>s_entities := s_entities s - {u}\<rparr>
      | RemoveObjective n \<Rightarrow> s\<lparr>s_scoreboards := s_scoreboards s - {n}\<rparr>
      | SetDisplayObjective n \<Rightarrow> s\<lparr>s_scoreboards := insert n (s_scoreboards s)\<rparr>
      | Respawn pos state r \<Rightarrow>
          if state = RespawnStateSearchingForSpawn then s\<lparr>s_dead := True\<rparr>
          else if state = RespawnStateReadyToSpawn then s\<lparr>s_dead := False\<rparr> else s
      | _ \<Rightarrow> s)"

text \<open>A death screen that the new server replays after a transfer is answered and not shown.\<close>

definition suppressed_respawn :: "mc_packet \<Rightarrow> session \<Rightarrow> mc_packet option" where
  "suppressed_respawn pk s =
     (case pk of
        Respawn pos state r \<Rightarrow>
          if state = RespawnStateSearchingForSpawn \<and> s_postTransfer s
          then Some (Respawn pos RespawnStateClientReadyToSpawn r) else None
      | _ \<Rightarrow> None)"

text \<open>A turn with a packet that was read from the connection \<open>conn\<close>.\<close>

definition server_turn :: "bool \<Rightarrow> conn_ref \<Rightarrow> mc_packet \<Rightarrow> sess_ref \<Rightarrow> world \<Rightarrow> world" where
  "server_turn cancelled conn pk i w =
     (let pk = translatePacket (s_translator (w_sess w i)) pk;
          w = upd_sess i (track pk) w
      in case suppressed_respawn pk (w_sess w i) of
           Some answer \<Rightarrow> write_conn conn answer w
         | None \<Rightarrow> if cancelled then w else write_conn (s_conn (w_sess w i)) pk w)"

text \<open>A turn in which reading fails: \<open>disconnect\<close> is the message when the error wraps a
  \<^verbatim>\<open>DisconnectError\<close>. The loop goes on (\<open>True\<close>) when the connection has been replaced meanwhile or the
  handler cancels, and ends with the session closed otherwise.\<close>

definition server_error ::
  "bool \<Rightarrow> string option \<Rightarrow> time \<Rightarrow> conn_ref \<Rightarrow> sess_ref \<Rightarrow> world \<Rightarrow> bool \<times> world" where
  "server_error cancelled disconnect now conn i w =
     (if s_serverConn (w_sess w i) \<noteq> Some conn then (True, w)
      else if cancelled then (True, w)
      else (False, Close now i
        (case disconnect of
           None \<Rightarrow> w
         | Some message \<Rightarrow> write_conn (s_conn (w_sess w i)) (DisconnectPacket False message) w)))"

section \<open>The client's view\<close>

record view =
  v_entities :: "int64 set"
  v_playerList :: "uuid set"
  v_effects :: "int32 set"
  v_bossBars :: "int64 set"
  v_scoreboards :: "string set"

definition blank :: view where
  "blank = \<lparr>v_entities = {}, v_playerList = {}, v_effects = {}, v_bossBars = {}, v_scoreboards = {}\<rparr>"

text \<open>What a packet changes for a client whose own entity is \<open>own\<close>. Effects are those of its player.\<close>

definition see :: "uint64 \<Rightarrow> mc_packet \<Rightarrow> view \<Rightarrow> view" where
  "see own pk v =
     (case pk of
        AddActor u r m ls \<Rightarrow> v\<lparr>v_entities := insert u (v_entities v)\<rparr>
      | AddItemActor u r m \<Rightarrow> v\<lparr>v_entities := insert u (v_entities v)\<rparr>
      | AddPainting u r \<Rightarrow> v\<lparr>v_entities := insert u (v_entities v)\<rparr>
      | AddPlayer u r m ls \<Rightarrow> v\<lparr>v_entities := insert u (v_entities v)\<rparr>
      | BossEvent b e \<Rightarrow>
          if e = BossEventShow then v\<lparr>v_bossBars := insert b (v_bossBars v)\<rparr>
          else if e = BossEventHide then v\<lparr>v_bossBars := v_bossBars v - {b}\<rparr> else v
      | MobEffect r op e \<Rightarrow>
          if r \<noteq> own then v
          else if op = MobEffectAdd then v\<lparr>v_effects := insert e (v_effects v)\<rparr>
          else if op = MobEffectRemove then v\<lparr>v_effects := v_effects v - {e}\<rparr> else v
      | PlayerList es \<Rightarrow> v\<lparr>v_playerList := fold track_entry es (v_playerList v)\<rparr>
      | RemoveActor u \<Rightarrow> v\<lparr>v_entities := v_entities v - {u}\<rparr>
      | RemoveObjective n \<Rightarrow> v\<lparr>v_scoreboards := v_scoreboards v - {n}\<rparr>
      | SetDisplayObjective n \<Rightarrow> v\<lparr>v_scoreboards := insert n (v_scoreboards v)\<rparr>
      | _ \<Rightarrow> v)"

definition client_view :: "sess_ref \<Rightarrow> world \<Rightarrow> view" where
  "client_view i w =
     fold (see (originalRuntimeID (s_translator (w_sess w i)))) (w_sent w (s_conn (w_sess w i))) blank"

end
