(* ===== verification/SessionSteps.thy ===== *)
theory SessionSteps
  imports PacketLoops
begin

text \<open>
  Sessions as a concurrent system: the methods of any number of sessions in any order, each an atomic
  step, except that a transfer is two: it begins, and after the time it takes to dial the target it goes on.
  In between anything else can happen, a second transfer, the closing of the session and a
  reconnect included. The state has beside the world the transfers that are dialing and the number of
  transfers accepted so far.
\<close>

section \<open>Frame lemmas\<close>

lemma w_sess_upd_sess [simp]: "w_sess (upd_sess i f w) = (w_sess w)(i := f (w_sess w i))"
  by (simp add: upd_sess_def)

lemma upd_sess_frame [simp]:
  "w_srv (upd_sess i f w) = w_srv w" "w_store (upd_sess i f w) = w_store w"
  "w_published (upd_sess i f w) = w_published w" "w_hasBus (upd_sess i f w) = w_hasBus w"
  "w_next (upd_sess i f w) = w_next w" "w_metrics (upd_sess i f w) = w_metrics w"
  "w_sent (upd_sess i f w) = w_sent w" "w_closed (upd_sess i f w) = w_closed w"
  "w_gameData (upd_sess i f w) = w_gameData w" "w_preTransfer (upd_sess i f w) = w_preTransfer w"
  by (simp_all add: upd_sess_def)

lemma write_conn_frame [simp]:
  "w_srv (write_conn c pk w) = w_srv w" "w_store (write_conn c pk w) = w_store w"
  "w_published (write_conn c pk w) = w_published w" "w_hasBus (write_conn c pk w) = w_hasBus w"
  "w_next (write_conn c pk w) = w_next w" "w_sess (write_conn c pk w) = w_sess w"
  "w_closed (write_conn c pk w) = w_closed w" "w_gameData (write_conn c pk w) = w_gameData w"
  by (simp_all add: write_conn_def)

lemma write_all_frame [simp]:
  "w_srv (write_all c pks w) = w_srv w" "w_store (write_all c pks w) = w_store w"
  "w_published (write_all c pks w) = w_published w" "w_hasBus (write_all c pks w) = w_hasBus w"
  "w_next (write_all c pks w) = w_next w" "w_sess (write_all c pks w) = w_sess w"
  "w_closed (write_all c pks w) = w_closed w" "w_gameData (write_all c pks w) = w_gameData w"
  by (induction pks arbitrary: w; simp add: write_all_def)+

lemma close_conn_frame [simp]:
  "w_srv (close_conn c w) = w_srv w" "w_store (close_conn c w) = w_store w"
  "w_published (close_conn c w) = w_published w" "w_hasBus (close_conn c w) = w_hasBus w"
  "w_next (close_conn c w) = w_next w" "w_sess (close_conn c w) = w_sess w"
  "w_sent (close_conn c w) = w_sent w" "w_gameData (close_conn c w) = w_gameData w"
  by (simp_all add: close_conn_def)

lemma close_opt_frame [simp]:
  "w_srv (close_opt c w) = w_srv w" "w_store (close_opt c w) = w_store w"
  "w_published (close_opt c w) = w_published w" "w_hasBus (close_opt c w) = w_hasBus w"
  "w_next (close_opt c w) = w_next w" "w_sess (close_opt c w) = w_sess w"
  by (simp_all add: close_opt_def split: option.split)

lemma bus_Publish_frame [simp]:
  "w_srv (bus_Publish t p w) = w_srv w" "w_store (bus_Publish t p w) = w_store w"
  "w_hasBus (bus_Publish t p w) = w_hasBus w" "w_next (bus_Publish t p w) = w_next w"
  "w_sess (bus_Publish t p w) = w_sess w" "w_closed (bus_Publish t p w) = w_closed w"
  "w_sent (bus_Publish t p w) = w_sent w" "w_gameData (bus_Publish t p w) = w_gameData w"
  by (simp_all add: bus_Publish_def)

text \<open>The transfer events among the published ones.\<close>

definition transfer_events :: "published \<Rightarrow> payload list" where
  "transfer_events es = map snd (filter (\<lambda>e. fst e = TopicTransfer) es)"

lemma transfer_events_publish:
  "w_hasBus w \<Longrightarrow> transfer_events (w_published (bus_Publish t p w)) =
     transfer_events (w_published w) @ (if t = TopicTransfer then [p] else [])"
  by (simp add: bus_Publish_def transfer_events_def)

lemma topics_distinct [simp]:
  "TopicPlayerQuit \<noteq> TopicTransfer" "TopicPlayerJoin \<noteq> TopicTransfer"
  by (simp_all add: TopicPlayerQuit_def TopicTransfer_def TopicPlayerJoin_def)

lemma completeTransfer_frame [simp]:
  "w_srv (completeTransfer err now i w) = w_srv w" "w_store (completeTransfer err now i w) = w_store w"
  "w_hasBus (completeTransfer err now i w) = w_hasBus w" "w_next (completeTransfer err now i w) = w_next w"
  "w_sess (completeTransfer err now i w) = (w_sess w)(i := (w_sess w i)\<lparr>s_transferDone := None\<rparr>)"
  by (simp_all add: completeTransfer_def publishTransfer_def split: option.split)

lemma transfer_events_complete:
  "w_hasBus w \<Longrightarrow> transfer_events (w_published (completeTransfer err now i w)) =
     transfer_events (w_published w) @
     (case s_transferDone (w_sess w i) of
        None \<Rightarrow> []
      | Some d \<Rightarrow> [TransferPayload (displayName w i) (td_from d) (td_to d) err])"
  by (simp add: completeTransfer_def publishTransfer_def transfer_events_publish split: option.split)

section \<open>Effects of the methods\<close>

text \<open>Whether a session counts as a player on a server, and whether it has a transfer to report.\<close>

definition occ :: "session \<Rightarrow> srv_ref \<Rightarrow> int" where
  "occ s r = of_bool (\<not> s_once s \<and> s_server s = Some r)"

definition pend :: "session \<Rightarrow> int" where
  "pend s = of_bool (s_transferDone s \<noteq> None)"

abbreviation reported :: "world \<Rightarrow> int" where
  "reported w \<equiv> int (length (transfer_events (w_published w)))"

lemma reported_complete:
  "w_hasBus w \<Longrightarrow> reported (completeTransfer err now i w) = reported w + pend (w_sess w i)"
  by (simp add: transfer_events_complete pend_def split: option.split)

lemma reported_publish:
  "w_hasBus w \<Longrightarrow> t \<noteq> TopicTransfer \<Longrightarrow> reported (bus_Publish t p w) = reported w"
  by (simp add: transfer_events_publish)

definition closed_session :: "session \<Rightarrow> session" where
  "closed_session s =
     (if s_once s then s
      else if s_transferring s
      then s\<lparr>s_once := True, s_transferring := False, s_postTransfer := False, s_transferDone := None\<rparr>
      else s\<lparr>s_once := True\<rparr>)"

lemma close_parts_frame [simp]:
  "w_next (close_transfer now i w) = w_next w" "w_hasBus (close_transfer now i w) = w_hasBus w"
  "w_srv (close_transfer now i w) = w_srv w"
  "w_next (announce_quit i w) = w_next w" "w_hasBus (announce_quit i w) = w_hasBus w"
  "w_srv (announce_quit i w) = w_srv w" "w_sess (announce_quit i w) = w_sess w"
  "w_next (store_Delete i w) = w_next w" "w_hasBus (store_Delete i w) = w_hasBus w"
  "w_srv (store_Delete i w) = w_srv w" "w_sess (store_Delete i w) = w_sess w"
  "w_published (store_Delete i w) = w_published w"
  "w_next (close_conns i w) = w_next w" "w_hasBus (close_conns i w) = w_hasBus w"
  "w_srv (close_conns i w) = w_srv w" "w_sess (close_conns i w) = w_sess w"
  "w_published (close_conns i w) = w_published w"
  "w_next (leave_server i w) = w_next w" "w_hasBus (leave_server i w) = w_hasBus w"
  "w_sess (leave_server i w) = w_sess w" "w_published (leave_server i w) = w_published w"
  by (simp_all add: close_transfer_def announce_quit_def store_Delete_def close_conns_def
      leave_server_def split: option.split)

lemma close_transfer_sess [simp]:
  "w_sess (close_transfer now i w) = (w_sess w)(i :=
     (if s_transferring (w_sess w i)
      then (w_sess w i)\<lparr>s_transferring := False, s_postTransfer := False, s_transferDone := None\<rparr>
      else w_sess w i))"
  by (simp add: close_transfer_def)

lemma Close_frame [simp]:
  "w_next (Close now i w) = w_next w" "w_hasBus (Close now i w) = w_hasBus w"
  by (simp_all add: Close_def)

lemma Close_sess: "w_sess (Close now i w) = (w_sess w)(i := closed_session (w_sess w i))"
  by (simp add: Close_def closed_session_def)

lemma Close_count: "PlayerCount (w_srv (Close now i w)) r = PlayerCount (w_srv w) r - occ (w_sess w i) r"
  by (cases "s_server (w_sess w i)") (simp_all add: Close_def leave_server_def occ_def)

lemma Close_reported:
  "w_hasBus w \<Longrightarrow> reported (Close now i w) =
     reported w + (if s_once (w_sess w i) \<or> \<not> s_transferring (w_sess w i) then 0 else pend (w_sess w i))"
  by (simp add: Close_def announce_quit_def close_transfer_def transfer_events_publish
      transfer_events_complete pend_def split: option.split)

lemma Disconnect_frame [simp]:
  "w_next (Session_Disconnect m now i w) = w_next w"
  "w_hasBus (Session_Disconnect m now i w) = w_hasBus w"
  by (simp_all add: Session_Disconnect_def)

lemma Disconnect_effects:
  "w_sess (Session_Disconnect m now i w) = (w_sess w)(i := closed_session (w_sess w i))"
  "PlayerCount (w_srv (Session_Disconnect m now i w)) r = PlayerCount (w_srv w) r - occ (w_sess w i) r"
  "w_hasBus w \<Longrightarrow> reported (Session_Disconnect m now i w) =
     reported w + (if s_once (w_sess w i) \<or> \<not> s_transferring (w_sess w i) then 0 else pend (w_sess w i))"
  by (simp_all add: Session_Disconnect_def Close_sess Close_count Close_reported)

definition finished_session :: "conn_ref \<Rightarrow> session \<Rightarrow> session" where
  "finished_session temp s =
     s\<lparr>s_transferConfirmTimer := None, s_entities := {}, s_effects := {}, s_playerList := {},
       s_bossBars := {}, s_scoreboards := {}, s_dead := False, s_serverConn := Some temp,
       s_tempServerConn := None, s_server := s_pendingServer s, s_pendingServer := None\<rparr>"

lemmas clear_defs =
  clearEntities_def clearEffects_def clearPlayerList_def clearBossBars_def clearScoreboard_def

lemma finish_client_frame [simp]:
  "w_srv (finish_client sched co f gd i w) = w_srv w" "w_next (finish_client sched co f gd i w) = w_next w"
  "w_hasBus (finish_client sched co f gd i w) = w_hasBus w"
  "w_published (finish_client sched co f gd i w) = w_published w"
  "w_sess (finish_client sched co f gd i w) = (w_sess w)(i := (w_sess w i)\<lparr>s_entities := {}, s_effects := {},
     s_playerList := {}, s_bossBars := {}, s_scoreboards := {}, s_dead := False\<rparr>)"
  by (simp_all add: finish_client_def clear_goroutines_def clear_defs Let_def)

lemma finish_servers_frame [simp]:
  "w_next (finish_servers temp i w) = w_next w" "w_hasBus (finish_servers temp i w) = w_hasBus w"
  "w_published (finish_servers temp i w) = w_published w"
  "w_sess (finish_servers temp i w) = (w_sess w)(i := (w_sess w i)\<lparr>s_serverConn := Some temp,
     s_tempServerConn := None, s_server := s_pendingServer (w_sess w i), s_pendingServer := None\<rparr>)"
  by (simp_all add: finish_servers_def Let_def split: option.split)

lemma finish_servers_count [simp]:
  "PlayerCount (w_srv (finish_servers temp i w)) r = PlayerCount (w_srv w) r -
     of_bool (s_server (w_sess w i) = Some r) + of_bool (s_pendingServer (w_sess w i) = Some r)"
  by (cases "s_server (w_sess w i)"; cases "s_pendingServer (w_sess w i)"; cases "s_serverConn (w_sess w i)")
    (simp_all add: finish_servers_def Let_def)

lemma finish_effects:
  assumes temp: "s_tempServerConn (w_sess w i) = Some temp"
    and fin: "finishTransferDimensionChange sched co toInt32 i w = (g, w')"
  shows "g = Some (w_gameData w temp)" and "w_next w' = w_next w" and "w_hasBus w' = w_hasBus w"
    and "w_published w' = w_published w"
    and "w_sess w' = (w_sess w)(i := finished_session temp (w_sess w i))"
    and "PlayerCount (w_srv w') r = PlayerCount (w_srv w) r -
      of_bool (s_server (w_sess w i) = Some r) + of_bool (s_pendingServer (w_sess w i) = Some r)"
proof -
  from fin temp have g: "g = Some (w_gameData w temp)"
    and w': "w' = finish_servers temp i (finish_client sched co toInt32 (w_gameData w temp) i
      (upd_sess i (s_transferConfirmTimer_update (\<lambda>_. None)) w))"
    by (simp_all add: finishTransferDimensionChange_def Let_def)
  show "g = Some (w_gameData w temp)" by (rule g)
  show "w_next w' = w_next w" "w_hasBus w' = w_hasBus w" "w_published w' = w_published w"
    "w_sess w' = (w_sess w)(i := finished_session temp (w_sess w i))"
    "PlayerCount (w_srv w') r = PlayerCount (w_srv w) r -
      of_bool (s_server (w_sess w i) = Some r) + of_bool (s_pendingServer (w_sess w i) = Some r)"
    unfolding w' by (simp_all add: finished_session_def)
qed

lemma finish_none:
  "s_tempServerConn (w_sess w i) = None \<Longrightarrow>
   finishTransferDimensionChange sched co toInt32 i w = (None, w)"
  by (simp add: finishTransferDimensionChange_def)

section \<open>Accounting\<close>

text \<open>
  A step of session \<open>i\<close> that accepts \<open>k\<close> transfers keeps the books: what it changes in a server's player
  count it changes in the session's being a player there, and what it reports of transfers is what
  the session had to report.
\<close>

definition accounted :: "sess_ref \<Rightarrow> int \<Rightarrow> world \<Rightarrow> world \<Rightarrow> bool" where
  "accounted i k w w' \<longleftrightarrow>
     w_next w' = w_next w \<and> w_hasBus w' = w_hasBus w \<and>
     (\<exists>s'. w_sess w' = (w_sess w)(i := s') \<and>
       (\<forall>r. PlayerCount (w_srv w') r - occ s' r = PlayerCount (w_srv w) r - occ (w_sess w i) r) \<and>
       (w_hasBus w \<longrightarrow> reported w' + pend s' = reported w + pend (w_sess w i) + k))"

lemma accountedI:
  assumes "w_next w' = w_next w" "w_hasBus w' = w_hasBus w" "w_sess w' = (w_sess w)(i := s')"
    and "\<And>r. PlayerCount (w_srv w') r - occ s' r = PlayerCount (w_srv w) r - occ (w_sess w i) r"
    and "w_hasBus w \<Longrightarrow> reported w' + pend s' = reported w + pend (w_sess w i) + k"
  shows "accounted i k w w'"
  using assms unfolding accounted_def by blast

lemma accounted_refl: "accounted i 0 w w"
  by (rule accountedI [where s' = "w_sess w i"]) simp_all

lemma accounted_trans:
  assumes "accounted i a w w'" "accounted i b w' w''"
  shows "accounted i (a + b) w w''"
proof -
  obtain s' where w': "w_next w' = w_next w" "w_hasBus w' = w_hasBus w" "w_sess w' = (w_sess w)(i := s')"
    "\<And>r. PlayerCount (w_srv w') r - occ s' r = PlayerCount (w_srv w) r - occ (w_sess w i) r"
    "w_hasBus w \<Longrightarrow> reported w' + pend s' = reported w + pend (w_sess w i) + a"
    using assms(1) unfolding accounted_def by blast
  obtain s'' where w'': "w_next w'' = w_next w'" "w_hasBus w'' = w_hasBus w'" "w_sess w'' = (w_sess w')(i := s'')"
    "\<And>r. PlayerCount (w_srv w'') r - occ s'' r = PlayerCount (w_srv w') r - occ (w_sess w' i) r"
    "w_hasBus w' \<Longrightarrow> reported w'' + pend s'' = reported w' + pend (w_sess w' i) + b"
    using assms(2) unfolding accounted_def by blast
  show ?thesis
  proof (rule accountedI [where s' = s''])
    fix r
    show "PlayerCount (w_srv w'') r - occ s'' r = PlayerCount (w_srv w) r - occ (w_sess w i) r"
      using w'(4) [of r] w''(4) [of r] w'(3) by simp
  qed (use w' w'' in simp_all)
qed

lemma accounted_then: "accounted i 0 w' w'' \<Longrightarrow> accounted i k w w' \<Longrightarrow> accounted i k w w''"
  using accounted_trans [of i k w w' 0 w''] by simp

lemma accounted_upd:
  "(\<And>s. s_once (f s) = s_once s) \<Longrightarrow> (\<And>s. s_server (f s) = s_server s) \<Longrightarrow>
   (\<And>s. s_transferDone (f s) = s_transferDone s) \<Longrightarrow> accounted i 0 w (upd_sess i f w)"
  by (rule accountedI [where s' = "f (w_sess w i)"]) (simp_all add: occ_def pend_def)

lemma accounted_silent:
  assumes "w_next w' = w_next w" "w_hasBus w' = w_hasBus w" "w_sess w' = w_sess w" "w_srv w' = w_srv w"
    "w_published w' = w_published w"
  shows "accounted i 0 w w'"
  by (rule accountedI [where s' = "w_sess w i"]) (simp_all add: assms)

lemma accounted_write: "accounted i 0 w (write_conn c pk w)"
  by (rule accounted_silent) simp_all

lemma accounted_write_all: "accounted i 0 w (write_all c pks w)"
  by (rule accounted_silent) simp_all

lemma accounted_close_conn: "accounted i 0 w (close_conn c w)"
  by (rule accounted_silent) simp_all

lemma accounted_PreTransfer: "accounted i 0 w (PreTransfer srv i w)"
  by (rule accounted_silent) (simp_all add: PreTransfer_def)

lemma accounted_complete: "accounted i 0 w (completeTransfer err now i w)"
  by (rule accountedI [where s' = "(w_sess w i)\<lparr>s_transferDone := None\<rparr>"])
    (simp_all add: occ_def pend_def reported_complete [unfolded pend_def])

lemma accounted_setTransferring: "accounted i 0 w (setTransferring v i w)"
  unfolding setTransferring_def by (rule accounted_upd) simp_all

lemma accounted_Close: "accounted i 0 w (Close now i w)"
  by (rule accountedI [OF _ _ Close_sess])
    (simp_all add: Close_count Close_reported closed_session_def occ_def pend_def)

lemma accounted_Disconnect: "accounted i 0 w (Session_Disconnect m now i w)"
  unfolding Session_Disconnect_def by (rule accounted_then [OF accounted_Close accounted_write])

lemma accounted_fail: "accounted i 0 w (snd (fail_transfer err now i w))"
  unfolding fail_transfer_def snd_conv
  by (rule accounted_then [OF accounted_complete accounted_setTransferring])

lemma accounted_finish:
  assumes "\<not> s_once (w_sess w i)" "finishTransferDimensionChange sched co f i w = (g, w')"
  shows "accounted i 0 w w'"
proof (cases "s_tempServerConn (w_sess w i)")
  case None
  with assms(2) show ?thesis by (simp add: finish_none accounted_refl)
next
  case (Some temp)
  note eff = finish_effects [OF Some assms(2)]
  show ?thesis
    by (rule accountedI [OF eff(2,3,5)])
      (simp_all add: eff(4,6) occ_def pend_def finished_session_def assms(1))
qed

lemma accounted_begin:
  assumes "Transfer_begin srv start i w = (r, w')"
    and "s_transferDone (w_sess w i) \<noteq> None \<Longrightarrow> s_transferring (w_sess w i)"
  shows "accounted i (of_bool (r = Inr ())) w w'"
proof (cases "s_transferring (w_sess w i)")
  case True
  with assms(1) show ?thesis by (auto simp: Transfer_begin_def accounted_refl)
next
  case False
  with assms(2) have idle: "s_transferDone (w_sess w i) = None" by blast
  show ?thesis
  proof (cases "s_server (w_sess w i)")
    case None
    with False assms(1) show ?thesis
      by (auto simp: Transfer_begin_def Let_def intro: accounted_upd)
  next
    case (Some old)
    with False assms(1) idle show ?thesis
      by (auto simp: Transfer_begin_def Let_def occ_def pend_def intro!: accountedI)
  qed
qed

lemma accounted_connected: "accounted i 0 w (snd (Transfer_connected env srv conn i w))"
proof -
  let ?f = "\<lambda>s. s\<lparr>s_tempServerConn := Some conn, s_pendingServer := Some srv, s_transferConfirmTimer := Some srv\<rparr>"
  have "accounted i 0 w (upd_sess i ?f w)" by (rule accounted_upd) simp_all
  then show ?thesis
    by (auto simp: Transfer_connected_def Let_def split: option.split
        intro: accounted_then [OF accounted_write_all])
qed

text \<open>What happens in a transfer before the target is dialed.\<close>

definition before_dial :: "srv_ref \<Rightarrow> sess_ref \<Rightarrow> world \<Rightarrow> world" where
  "before_dial srv i w =
     PreTransfer srv i
       (if s_dead (w_sess w i)
        then write_conn (s_conn (w_sess w i))
          (respawn_packet (gd_PlayerPosition (w_gameData w (s_conn (w_sess w i)))) (w_sess w i))
          (upd_sess i (s_dead_update (\<lambda>_. False)) w)
        else w)"

lemma Transfer_continue_connected:
  "dial_target env srv i (before_dial srv i w) = Inr conn \<Longrightarrow> te_spawn env conn = None \<Longrightarrow>
   Transfer_continue env srv i w = Transfer_connected env srv conn i (before_dial srv i w)"
  by (simp add: Transfer_continue_def before_dial_def Let_def)

lemma Transfer_continue_cases:
  obtains (fail) err conns where
      "Transfer_continue env srv i w = fail_transfer err (te_end env) i (fold close_conn conns (before_dial srv i w))"
    | (connected) conn where
      "Transfer_continue env srv i w = Transfer_connected env srv conn i (before_dial srv i w)"
proof (cases "dial_target env srv i (before_dial srv i w)")
  case (Inl err)
  then have "Transfer_continue env srv i w =
      fail_transfer err (te_end env) i (fold close_conn [] (before_dial srv i w))"
    by (simp add: Transfer_continue_def before_dial_def Let_def)
  then show thesis by (rule fail)
next
  case (Inr conn)
  show thesis
  proof (cases "te_spawn env conn")
    case None
    show thesis by (rule connected, rule Transfer_continue_connected [OF Inr None])
  next
    case (Some err)
    with Inr have "Transfer_continue env srv i w =
        fail_transfer err (te_end env) i (fold close_conn [conn] (before_dial srv i w))"
      by (simp add: Transfer_continue_def before_dial_def Let_def)
    then show thesis by (rule fail)
  qed
qed

lemma before_dial_sess:
  "w_sess (before_dial srv i w) = (w_sess w)(i := (w_sess w i)\<lparr>s_dead := False\<rparr>)"
proof -
  have alive: "\<not> s_dead s \<Longrightarrow> s\<lparr>s_dead := False\<rparr> = s" for s :: session by (cases s) simp
  show ?thesis
    by (cases "s_dead (w_sess w i)") (simp_all add: before_dial_def PreTransfer_def alive)
qed

lemma w_sess_close_conns [simp]: "w_sess (fold close_conn cs w) = w_sess w"
  by (induction cs arbitrary: w) simp_all

lemma accounted_before_dial: "accounted i 0 w (before_dial srv i w)"
proof -
  have "accounted i 0 w (upd_sess i (s_dead_update (\<lambda>_. False)) w)" by (rule accounted_upd) simp_all
  then show ?thesis
    unfolding before_dial_def
    by (auto intro: accounted_then [OF accounted_PreTransfer] accounted_then [OF accounted_write] accounted_refl)
qed

lemma accounted_fold_close: "accounted i 0 w (fold close_conn cs w)"
  by (induction cs arbitrary: w) (auto intro: accounted_refl accounted_then [OF _ accounted_close_conn])

lemma accounted_continue: "accounted i 0 w (snd (Transfer_continue env srv i w))"
proof (cases rule: Transfer_continue_cases [of env srv i w])
  case (fail err conns)
  show ?thesis unfolding fail
    by (rule accounted_then [OF accounted_fail accounted_then [OF accounted_fold_close accounted_before_dial]])
next
  case (connected conn)
  show ?thesis unfolding connected by (rule accounted_then [OF accounted_connected accounted_before_dial])
qed

lemma accounted_abort: "accounted i 0 w (abortStuckTransfer srv now i w)"
proof -
  let ?f = "\<lambda>s. s\<lparr>s_tempServerConn := None, s_pendingServer := None, s_transferConfirmTimer := None\<rparr>"
  have "accounted i 0 w (upd_sess i ?f w)" by (rule accounted_upd) simp_all
  then show ?thesis
    unfolding abortStuckTransfer_def Let_def
    by (auto split: option.split intro!: accounted_then [OF accounted_Disconnect]
        accounted_then [OF accounted_complete] accounted_then [OF accounted_setTransferring]
        accounted_then [OF accounted_close_conn])
qed

lemma accounted_forward: "accounted i 0 w (forward_to_server c pk i w)"
  by (auto simp: forward_to_server_def accounted_refl accounted_write split: option.split)

lemma accounted_dimension_change_done:
  assumes "\<not> s_once (w_sess w i)"
  shows "accounted i 0 w (snd (dimension_change_done env i w))"
proof -
  have upd: "accounted i 0 v (upd_sess i (\<lambda>s. s\<lparr>s_translator := g s, s_transferring := False, s_postTransfer := True\<rparr>) v)"
    for g v by (rule accounted_upd) simp_all
  have post: "accounted i 0 w (upd_sess i (s_postTransfer_update (\<lambda>_. False)) w)"
    by (rule accounted_upd) simp_all
  show ?thesis
    using accounted_finish [OF assms]
    by (auto simp: dimension_change_done_def accounted_refl post split: prod.split option.split
        intro!: accounted_then [OF accounted_complete] accounted_then [OF upd])
qed

lemma accounted_client_turn:
  "\<not> s_once (w_sess w i) \<Longrightarrow> accounted i 0 w (client_turn env pk i w)"
  using accounted_dimension_change_done [of w i env]
  by (auto simp: client_turn_def Let_def accounted_forward split: prod.split bool.split
      intro: accounted_then [OF accounted_forward])

lemma accounted_server_turn: "accounted i 0 w (server_turn c conn pk i w)"
proof -
  have "s_once (track p s) = s_once s" "s_server (track p s) = s_server s"
    "s_transferDone (track p s) = s_transferDone s" for p s
    by (simp_all add: track_def split: mc_packet.split)
  then have "accounted i 0 w (upd_sess i (track p) w)" for p by (intro accounted_upd)
  then show ?thesis
    by (auto simp: server_turn_def Let_def split: option.split intro: accounted_then [OF accounted_write])
qed

lemma accounted_server_error: "accounted i 0 w (snd (server_error c d now conn i w))"
  by (auto simp: server_error_def accounted_refl accounted_Close split: option.split
      intro: accounted_then [OF accounted_Close accounted_write])

lemma accounted_login: "accounted i 0 w (New_login d e now i w)"
proof -
  have failed: "accounted i 0 v (upd_sess i (s_login_update (\<lambda>_. LoginFailed)) v)" for v
    by (rule accounted_upd) simp_all
  have conn: "accounted i 0 w (upd_sess i (s_serverConn_update (\<lambda>_. Some c)) w)" for c
    by (rule accounted_upd) simp_all
  have ok: "accounted i 0 v (upd_sess i (\<lambda>s. s\<lparr>s_translator := t, s_login := LoggedIn\<rparr>) v)" for t v
    by (rule accounted_upd) simp_all
  have join: "accounted i 0 v (bus_Publish TopicPlayerJoin p v)" for p v
    by (rule accountedI [where s' = "w_sess v i"]) (simp_all add: transfer_events_publish)
  show ?thesis
    by (auto simp: New_login_def Let_def split: sum.split option.split
        intro!: accounted_then [OF accounted_Close] accounted_then [OF failed] accounted_then [OF join]
          accounted_then [OF ok] accounted_refl conn)
qed

section \<open>The invariant of a session\<close>

text \<open>
  A pending connection goes with a pending server and an armed timer; a session is transferring exactly
  while it has a transfer to report; a session that went through its login has a server.
\<close>

definition sess_ok :: "session \<Rightarrow> bool" where
  "sess_ok s \<longleftrightarrow>
     (s_tempServerConn s = None \<longleftrightarrow> s_pendingServer s = None) \<and>
     (s_tempServerConn s \<noteq> None \<longrightarrow> s_transferConfirmTimer s \<noteq> None) \<and>
     (s_transferring s \<longleftrightarrow> s_transferDone s \<noteq> None) \<and>
     (s_login s \<noteq> LoginPending \<longrightarrow> s_server s \<noteq> None)"

text \<open>How a step may change a session, with \<open>dialing\<close> saying whether a dialing transfer of it has begun
  (\<open>Some True\<close>) or gone on (\<open>Some False\<close>): it is not left transferring with nothing under way.\<close>

definition sess_step :: "bool \<Rightarrow> session \<Rightarrow> session \<Rightarrow> bool" where
  "sess_step begun s s' \<longleftrightarrow>
     (sess_ok s \<longrightarrow> sess_ok s') \<and>
     (s_login s \<noteq> LoginPending \<longrightarrow> s_login s' \<noteq> LoginPending) \<and>
     (s_transferring s' \<longrightarrow>
        s_tempServerConn s' \<noteq> None \<or> begun \<or> s_transferring s \<and> s_tempServerConn s = None)"

lemma sess_step_refl: "sess_step b s s"
  by (auto simp: sess_step_def)

lemma sess_step_closed: "sess_step b s (closed_session s)"
  by (auto simp: sess_step_def sess_ok_def closed_session_def)

lemma sess_step_begin:
  assumes "Transfer_begin srv start i w = (r, w')" "s_login (w_sess w i) \<noteq> LoginPending"
    and "sess_ok (w_sess w i)"
  shows "\<exists>s'. w_sess w' = (w_sess w)(i := s') \<and> sess_step (r = Inr ()) (w_sess w i) s'"
proof (cases "s_transferring (w_sess w i)")
  case True
  with assms(1) have "w' = w" by (simp add: Transfer_begin_def)
  then show ?thesis using sess_step_refl by (intro exI [of _ "w_sess w i"]) simp
next
  case False
  from assms(2,3) obtain srv' where "s_server (w_sess w i) = Some srv'"
    by (auto simp: sess_ok_def)
  with False assms show ?thesis
    by (auto simp: Transfer_begin_def Let_def sess_step_def sess_ok_def)
qed

lemma fail_sess:
  "w_sess (snd (fail_transfer err now i w)) =
     (w_sess w)(i := (w_sess w i)\<lparr>s_transferring := False, s_transferDone := None\<rparr>)"
  by (simp add: fail_transfer_def setTransferring_def)

lemma connected_sess:
  "w_sess (snd (Transfer_connected env srv conn i w)) =
     (w_sess w)(i := (w_sess w i)\<lparr>s_tempServerConn := Some conn, s_pendingServer := Some srv,
       s_transferConfirmTimer := Some srv\<rparr>)"
  by (simp add: Transfer_connected_def Let_def split: option.split)

text \<open>A dialing transfer that goes on leaves the session with a pending connection, or not
  transferring.\<close>

lemma sess_step_fail:
  "\<exists>s'. w_sess (snd (fail_transfer err now i w)) = (w_sess w)(i := s') \<and>
     sess_step False (w_sess w i) s' \<and> (s_transferring s' \<longrightarrow> s_tempServerConn s' \<noteq> None)"
  unfolding fail_sess
  by (intro exI [of _ "(w_sess w i)\<lparr>s_transferring := False, s_transferDone := None\<rparr>"])
    (auto simp: sess_step_def sess_ok_def)

lemma sess_step_continue:
  "\<exists>s'. w_sess (snd (Transfer_continue env srv i w)) = (w_sess w)(i := s') \<and>
     sess_step False (w_sess w i) s' \<and> (s_transferring s' \<longrightarrow> s_tempServerConn s' \<noteq> None)"
proof (cases rule: Transfer_continue_cases [of env srv i w])
  case (fail err conns)
  show ?thesis
    unfolding fail fail_sess w_sess_close_conns before_dial_sess
    by (auto simp: sess_step_def sess_ok_def
        intro!: exI [of _ "(w_sess w i)\<lparr>s_dead := False, s_transferring := False, s_transferDone := None\<rparr>"])
next
  case (connected conn)
  show ?thesis
    unfolding connected connected_sess before_dial_sess
    by (auto simp: sess_step_def sess_ok_def
        intro!: exI [of _ "(w_sess w i)\<lparr>s_dead := False, s_tempServerConn := Some conn,
          s_pendingServer := Some srv, s_transferConfirmTimer := Some srv\<rparr>"])
qed

lemma abort_sess:
  "w_sess (abortStuckTransfer srv now i w) = (w_sess w)(i :=
     (let s = (w_sess w i)\<lparr>s_tempServerConn := None, s_pendingServer := None, s_transferConfirmTimer := None\<rparr>
      in if s_tempServerConn (w_sess w i) = None then s
         else closed_session (s\<lparr>s_transferring := False, s_transferDone := None\<rparr>)))"
  by (cases "s_tempServerConn (w_sess w i)")
    (simp_all add: abortStuckTransfer_def Let_def Disconnect_effects setTransferring_def)

lemma sess_step_abort:
  "\<exists>s'. w_sess (abortStuckTransfer srv now i w) = (w_sess w)(i := s') \<and> sess_step False (w_sess w i) s'"
  unfolding abort_sess
  by (rule exI, rule conjI, rule refl) (auto simp: Let_def sess_step_def sess_ok_def closed_session_def)

lemma sess_step_forward:
  "w_sess (forward_to_server c pk i w) = w_sess w"
  by (simp add: forward_to_server_def split: option.split)

lemma sess_step_dimension_change_done:
  "\<exists>s'. w_sess (snd (dimension_change_done env i w)) = (w_sess w)(i := s') \<and> sess_step False (w_sess w i) s'"
proof (cases "s_transferring (w_sess w i)")
  case True
  obtain g w' where fin: "finishTransferDimensionChange (tu_sched env) (tu_orders env) (tu_toInt32 env) i w = (g, w')"
    by fastforce
  show ?thesis
  proof (cases "s_tempServerConn (w_sess w i)")
    case None
    with True show ?thesis
      by (intro exI [of _ "w_sess w i"])
        (simp add: dimension_change_done_def finish_none sess_step_refl)
  next
    case (Some temp)
    note eff = finish_effects [OF Some fin]
    let ?s = "(finished_session temp (w_sess w i))\<lparr>s_translator :=
      updateTranslatorData (w_gameData w temp) (s_translator (finished_session temp (w_sess w i))),
      s_transferring := False, s_postTransfer := True, s_transferDone := None\<rparr>"
    have "w_sess (snd (dimension_change_done env i w)) = (w_sess w)(i := ?s)"
      using True by (simp add: dimension_change_done_def fin eff(1,5))
    moreover have "sess_step False (w_sess w i) ?s"
      using Some by (auto simp: sess_step_def sess_ok_def finished_session_def)
    ultimately show ?thesis by blast
  qed
next
  case False
  show ?thesis
  proof (cases "s_postTransfer (w_sess w i)")
    case True
    with False show ?thesis
      by (intro exI [of _ "(w_sess w i)\<lparr>s_postTransfer := False\<rparr>"])
        (auto simp: dimension_change_done_def sess_step_def sess_ok_def)
  next
    case f: False
    with False show ?thesis
      by (intro exI [of _ "w_sess w i"]) (simp add: dimension_change_done_def sess_step_refl)
  qed
qed

lemma sess_step_client_turn:
  "\<exists>s'. w_sess (client_turn env pk i w) = (w_sess w)(i := s') \<and> sess_step False (w_sess w i) s'"
proof -
  obtain b w' where d: "dimension_change_done env i w = (b, w')" by fastforce
  have "w_sess (client_turn env pk i w) = w_sess w \<or> w_sess (client_turn env pk i w) = w_sess w'"
    by (auto simp: client_turn_def Let_def d sess_step_forward split: bool.split)
  then show ?thesis
    using sess_step_dimension_change_done [of env i w] d sess_step_refl [of False "w_sess w i"]
    by (metis fun_upd_triv snd_conv)
qed

lemma sess_step_server_turn:
  "\<exists>s'. w_sess (server_turn c conn pk i w) = (w_sess w)(i := s') \<and> sess_step False (w_sess w i) s'"
proof -
  have "sess_step False s (track p s)" for p s
    by (auto simp: track_def sess_step_def sess_ok_def split: mc_packet.split)
  moreover have "w_sess (server_turn c conn pk i w) = (w_sess w)(i :=
      track (translatePacket (s_translator (w_sess w i)) pk) (w_sess w i))"
    by (simp add: server_turn_def Let_def split: option.split)
  ultimately show ?thesis by blast
qed

lemma sess_step_server_error:
  "\<exists>s'. w_sess (snd (server_error c d now conn i w)) = (w_sess w)(i := s') \<and> sess_step False (w_sess w i) s'"
proof (cases "s_serverConn (w_sess w i) \<noteq> Some conn \<or> c")
  case True
  then show ?thesis
    using sess_step_refl by (intro exI [of _ "w_sess w i"]) (auto simp: server_error_def)
next
  case False
  then show ?thesis
    by (intro exI [of _ "closed_session (w_sess w i)"])
      (simp add: server_error_def Close_sess sess_step_closed split: option.split)
qed

lemma sess_step_login:
  assumes "s_server (w_sess w i) \<noteq> None"
  shows "\<exists>s'. w_sess (New_login d e now i w) = (w_sess w)(i := s') \<and> sess_step False (w_sess w i) s'"
proof -
  have closed: "sess_step False s (closed_session (s\<lparr>s_login := LoginFailed\<rparr>))"
      "sess_step False s (closed_session (s\<lparr>s_serverConn := c, s_login := LoginFailed\<rparr>))"
      "sess_step False s (s\<lparr>s_serverConn := c, s_translator := t, s_login := LoggedIn\<rparr>)"
    if "s_server s \<noteq> None" for s c t
    using that by (auto simp: sess_step_def sess_ok_def closed_session_def)
  from closed [OF assms] show ?thesis
    by (auto simp: New_login_def Let_def Close_sess split: sum.split option.split)
qed

section \<open>The system\<close>

type_synonym sys = "world \<times> (sess_ref \<times> srv_ref) list \<times> nat"

inductive sys_step :: "sys \<Rightarrow> sys \<Rightarrow> bool" where
  step_join: "sys_step (w, T, n) (snd (session_New findServer u ident cd c w), T, n)"
| step_login:
    "i < w_next w \<Longrightarrow> s_login (w_sess w i) = LoginPending \<Longrightarrow> s_server (w_sess w i) \<noteq> None \<Longrightarrow>
     sys_step (w, T, n) (New_login dialed err now i w, T, n)"
| step_begin:
    "i < w_next w \<Longrightarrow> s_login (w_sess w i) \<noteq> LoginPending \<Longrightarrow>
     Transfer_begin srv start i w = (Inr (), w') \<Longrightarrow> sys_step (w, T, n) (w', (i, srv) # T, n + 1)"
| step_refused:
    "i < w_next w \<Longrightarrow> s_login (w_sess w i) \<noteq> LoginPending \<Longrightarrow>
     Transfer_begin srv start i w = (Inl r, w') \<Longrightarrow> sys_step (w, T, n) (w', T, n)"
| step_cancelled:
    "(i, srv) \<in> set T \<Longrightarrow>
     sys_step (w, T, n) (snd (fail_transfer ''transfer cancelled'' now i w), remove1 (i, srv) T, n)"
| step_continue:
    "(i, srv) \<in> set T \<Longrightarrow>
     sys_step (w, T, n) (snd (Transfer_continue env srv i w), remove1 (i, srv) T, n)"
| step_client:
    "i < w_next w \<Longrightarrow> \<not> s_once (w_sess w i) \<Longrightarrow> sys_step (w, T, n) (client_turn tenv pk i w, T, n)"
| step_server: "i < w_next w \<Longrightarrow> sys_step (w, T, n) (server_turn cancelled conn pk i w, T, n)"
| step_server_error:
    "i < w_next w \<Longrightarrow> sys_step (w, T, n) (snd (server_error cancelled msg now conn i w), T, n)"
| step_timer:
    "i < w_next w \<Longrightarrow> s_transferConfirmTimer (w_sess w i) = Some srv \<Longrightarrow>
     sys_step (w, T, n) (abortStuckTransfer srv now i w, T, n)"
| step_close: "i < w_next w \<Longrightarrow> sys_step (w, T, n) (Close now i w, T, n)"
| step_disconnect: "i < w_next w \<Longrightarrow> sys_step (w, T, n) (Session_Disconnect m now i w, T, n)"

inductive reachable :: "world \<Rightarrow> sys \<Rightarrow> bool" for w0 where
  start: "reachable w0 (w0, [], 0)"
| next_step: "reachable w0 x \<Longrightarrow> sys_step x y \<Longrightarrow> reachable w0 y"

text \<open>The proxy before the first player: no sessions, and no transfer reported.\<close>

definition initial :: "world \<Rightarrow> bool" where
  "initial w \<longleftrightarrow> w_next w = 0 \<and> w_hasBus w \<and> transfer_events (w_published w) = []"

definition sys_inv :: "(srv_ref \<Rightarrow> int) \<Rightarrow> sys \<Rightarrow> bool" where
  "sys_inv base = (\<lambda>(w, T, n).
     w_hasBus w \<and> (\<forall>i < w_next w. sess_ok (w_sess w i)) \<and>
     (\<forall>(i, srv) \<in> set T. i < w_next w \<and> s_login (w_sess w i) \<noteq> LoginPending) \<and>
     (\<forall>i < w_next w. s_transferring (w_sess w i) \<longrightarrow>
        s_tempServerConn (w_sess w i) \<noteq> None \<or> (\<exists>srv. (i, srv) \<in> set T)) \<and>
     (\<forall>r. PlayerCount (w_srv w) r = base r + (\<Sum>i < w_next w. occ (w_sess w i) r)) \<and>
     int n = reported w + (\<Sum>i < w_next w. pend (w_sess w i)))"

lemma sum_upd:
  fixes f :: "'a \<Rightarrow> int" and n :: nat
  assumes "i < n"
  shows "(\<Sum>j < n. f ((g(i := x)) j)) = (\<Sum>j < n. f (g j)) - f (g i) + f x"
proof -
  have split: "(\<Sum>j < n. f (h j)) = f (h i) + (\<Sum>j \<in> {..< n} - {i}. f (h j))" for h
    by (rule sum.remove) (use assms in auto)
  have "(\<Sum>j \<in> {..< n} - {i}. f ((g(i := x)) j)) = (\<Sum>j \<in> {..< n} - {i}. f (g j))"
    by (rule sum.cong) auto
  with split [of "g(i := x)"] split [of g] show ?thesis by simp
qed

text \<open>One step of one session keeps the invariant.\<close>

lemma sys_inv_step:
  assumes inv: "sys_inv base (w, T, n)" and i: "i < w_next w" and acc: "accounted i (int k) w w'"
    and step: "w_sess w' = (w_sess w)(i := s')" "sess_step begun (w_sess w i) s'"
    and login: "begun \<Longrightarrow> s_login (w_sess w i) \<noteq> LoginPending"
    and T: "\<And>j srv. (j, srv) \<in> set T' \<Longrightarrow> (j, srv) \<in> set T \<or> begun \<and> j = i"
      "\<And>j srv. (j, srv) \<in> set T \<Longrightarrow> j \<noteq> i \<Longrightarrow> (j, srv) \<in> set T'"
      "begun \<Longrightarrow> \<exists>srv. (i, srv) \<in> set T'"
      "(\<exists>srv. (i, srv) \<in> set T) \<Longrightarrow> \<not> (\<exists>srv. (i, srv) \<in> set T') \<Longrightarrow>
        s_transferring s' \<Longrightarrow> s_tempServerConn s' \<noteq> None"
  shows "sys_inv base (w', T', n + k)"
proof -
  from inv have inv': "w_hasBus w" "\<And>j. j < w_next w \<Longrightarrow> sess_ok (w_sess w j)"
    "\<And>j srv. (j, srv) \<in> set T \<Longrightarrow> j < w_next w \<and> s_login (w_sess w j) \<noteq> LoginPending"
    "\<And>j. j < w_next w \<Longrightarrow> s_transferring (w_sess w j) \<Longrightarrow>
       s_tempServerConn (w_sess w j) \<noteq> None \<or> (\<exists>srv. (j, srv) \<in> set T)"
    "\<And>r. PlayerCount (w_srv w) r = base r + (\<Sum>i < w_next w. occ (w_sess w i) r)"
    "int n = reported w + (\<Sum>i < w_next w. pend (w_sess w i))"
    unfolding sys_inv_def by auto
  obtain s'' where a: "w_next w' = w_next w" "w_hasBus w' = w_hasBus w" "w_sess w' = (w_sess w)(i := s'')"
    "\<And>r. PlayerCount (w_srv w') r - occ s'' r = PlayerCount (w_srv w) r - occ (w_sess w i) r"
    "reported w' + pend s'' = reported w + pend (w_sess w i) + int k"
    using acc inv'(1) unfolding accounted_def by blast
  have [simp]: "s'' = s'" using a(3) step(1) by (metis fun_upd_same)
  note ok = step(2) [unfolded sess_step_def]
  show ?thesis
    unfolding sys_inv_def split
  proof (intro conjI allI impI)
    show "w_hasBus w'" using a(2) inv'(1) by simp
    show "sess_ok (w_sess w' j)" if "j < w_next w'" for j
    proof (cases "j = i")
      case True
      with inv'(2) [OF i] ok step(1) show ?thesis by simp
    next
      case False
      with that inv'(2) [of j] a(1) step(1) show ?thesis by simp
    qed
    show "\<forall>(j, srv) \<in> set T'. j < w_next w' \<and> s_login (w_sess w' j) \<noteq> LoginPending"
    proof (clarify)
      fix j srv
      assume j: "(j, srv) \<in> set T'"
      show "j < w_next w' \<and> s_login (w_sess w' j) \<noteq> LoginPending"
      proof (cases "j = i")
        case True
        with T(1) [OF j] inv'(3) [of j srv] login have "s_login (w_sess w i) \<noteq> LoginPending" by blast
        with True ok i a(1) step(1) show ?thesis by simp
      next
        case False
        with T(1) [OF j] have "(j, srv) \<in> set T" by blast
        with False inv'(3) [of j srv] a(1) step(1) show ?thesis by simp
      qed
    qed
    show "s_tempServerConn (w_sess w' j) \<noteq> None \<or> (\<exists>srv. (j, srv) \<in> set T')"
      if "j < w_next w'" "s_transferring (w_sess w' j)" for j
    proof (cases "j = i")
      case True
      with that step(1) have tr: "s_transferring s'" by simp
      have "s_tempServerConn s' \<noteq> None \<or> (\<exists>srv. (i, srv) \<in> set T')"
        using ok tr T(3,4) inv'(4) [OF i] by blast
      with True step(1) show ?thesis by simp
    next
      case False
      with that step(1) a(1) have "j < w_next w" "s_transferring (w_sess w j)" by simp_all
      with inv'(4) have "s_tempServerConn (w_sess w j) \<noteq> None \<or> (\<exists>srv. (j, srv) \<in> set T)" by blast
      with False T(2) step(1) show ?thesis by fastforce
    qed
    show "PlayerCount (w_srv w') r = base r + (\<Sum>j < w_next w'. occ (w_sess w' j) r)" for r
      using sum_upd [OF i, of "\<lambda>s. occ s r" "w_sess w" s'] a(4) [of r] inv'(5) [of r] a(1) step(1)
      by simp
    show "int (n + k) = reported w' + (\<Sum>j < w_next w'. pend (w_sess w' j))"
      using sum_upd [OF i, of pend "w_sess w" s'] a(5) inv'(6) a(1) step(1) by simp
  qed
qed

text \<open>A step that neither begins a transfer nor takes one up again.\<close>

lemma sys_inv_plain:
  assumes "sys_inv base (w, T, n)" "i < w_next w" "accounted i 0 w w'"
    and "\<exists>s'. w_sess w' = (w_sess w)(i := s') \<and> sess_step False (w_sess w i) s'"
  shows "sys_inv base (w', T, n)"
proof -
  obtain s' where "w_sess w' = (w_sess w)(i := s')" "sess_step False (w_sess w i) s'"
    using assms(4) by blast
  from sys_inv_step [of base w T n i 0 w' s' False T, OF assms(1,2) _ this] assms(3)
  show ?thesis by simp
qed

text \<open>A step that takes up a dialing transfer.\<close>

lemma sys_inv_resume:
  assumes inv: "sys_inv base (w, T, n)" and mem: "(i, srv) \<in> set T" and "accounted i 0 w w'"
    and "\<exists>s'. w_sess w' = (w_sess w)(i := s') \<and> sess_step False (w_sess w i) s' \<and>
      (s_transferring s' \<longrightarrow> s_tempServerConn s' \<noteq> None)"
  shows "sys_inv base (w', remove1 (i, srv) T, n)"
proof -
  obtain s' where s': "w_sess w' = (w_sess w)(i := s')" "sess_step False (w_sess w i) s'"
      "s_transferring s' \<longrightarrow> s_tempServerConn s' \<noteq> None"
    using assms(4) by blast
  have i: "i < w_next w" using inv mem by (auto simp: sys_inv_def)
  have "sys_inv base (w', remove1 (i, srv) T, n + 0)"
  proof (rule sys_inv_step [OF inv i _ s'(1,2)])
    show "accounted i (int 0) w w'" using assms(3) by simp
    show "(j, x) \<in> set T \<or> False \<and> j = i" if "(j, x) \<in> set (remove1 (i, srv) T)" for j x
      using that set_remove1_subset [of "(i, srv)" T] by blast
    show "(j, x) \<in> set (remove1 (i, srv) T)" if "(j, x) \<in> set T" "j \<noteq> i" for j x
      using that by (simp add: in_set_remove1)
    show "s_tempServerConn s' \<noteq> None" if "s_transferring s'" using s'(3) that by blast
  qed simp_all
  then show ?thesis by simp
qed

lemma fresh_session_ok: "sess_ok (fresh_session u ident cd c)" "pend (fresh_session u ident cd c) = 0"
  "occ (fresh_session u ident cd c) r = 0"
  by (simp_all add: fresh_session_def sess_ok_def pend_def occ_def)

text \<open>A session that joins.\<close>

lemma join_cases:
  obtains (refused) "w_sess (snd (session_New findServer u ident cd c w)) =
        (w_sess w)(w_next w := fresh_session u ident cd c)"
      "w_srv (snd (session_New findServer u ident cd c w)) = w_srv w"
    | (joined) srv where "w_sess (snd (session_New findServer u ident cd c w)) =
        (w_sess w)(w_next w := (fresh_session u ident cd c)\<lparr>s_server := Some srv\<rparr>)"
      "w_srv (snd (session_New findServer u ident cd c w)) = IncrementPlayerCount srv (w_srv w)"
proof -
  let ?w = "w\<lparr>w_next := w_next w + 1, w_sess := (w_sess w)(w_next w := fresh_session u ident cd c)\<rparr>"
  let ?v = "?w\<lparr>w_store := Store_Store (uuid_of ?w) (displayName ?w) (w_next w) (w_store ?w)\<rparr>"
  show thesis
  proof (cases "findServer ?v")
    case None
    then show thesis by (intro refused) (simp_all add: session_New_def New_stored_def Let_def store_Delete_def)
  next
    case (Some srv)
    then show thesis by (intro joined [of srv]) (simp_all add: session_New_def New_stored_def Let_def)
  qed
qed

lemma join_frame [simp]:
  "w_next (snd (session_New findServer u ident cd c w)) = Suc (w_next w)"
  "w_hasBus (snd (session_New findServer u ident cd c w)) = w_hasBus w"
  "w_published (snd (session_New findServer u ident cd c w)) = w_published w"
  by (simp_all add: session_New_def New_stored_def Let_def store_Delete_def split: option.split)

lemma sys_inv_join:
  assumes inv: "sys_inv base (w, T, n)"
  shows "sys_inv base (snd (session_New findServer u ident cd c w), T, n)"
proof -
  let ?w = "snd (session_New findServer u ident cd c w)"
  obtain s where s: "w_sess ?w = (w_sess w)(w_next w := s)" "sess_ok s" "pend s = 0" "\<not> s_transferring s"
    "\<And>r. PlayerCount (w_srv ?w) r = PlayerCount (w_srv w) r + occ s r"
  proof (cases rule: join_cases [of findServer u ident cd c w])
    case refused
    then show thesis
      by (intro that [of "fresh_session u ident cd c"]) (simp_all add: fresh_session_ok, simp add: fresh_session_def)
  next
    case (joined srv)
    then show thesis
      by (intro that [of "(fresh_session u ident cd c)\<lparr>s_server := Some srv\<rparr>"])
        (simp_all add: fresh_session_def sess_ok_def pend_def occ_def)
  qed
  have "(\<Sum>j < w_next w. f (w_sess ?w j)) = (\<Sum>j < w_next w. f (w_sess w j))" for f :: "session \<Rightarrow> int"
    by (rule sum.cong) (auto simp: s(1))
  moreover from inv have "w_hasBus w" "\<And>j. j < w_next w \<Longrightarrow> sess_ok (w_sess w j)"
    "\<And>j srv. (j, srv) \<in> set T \<Longrightarrow> j < w_next w \<and> s_login (w_sess w j) \<noteq> LoginPending"
    "\<And>j. j < w_next w \<Longrightarrow> s_transferring (w_sess w j) \<Longrightarrow>
       s_tempServerConn (w_sess w j) \<noteq> None \<or> (\<exists>srv. (j, srv) \<in> set T)"
    "\<And>r. PlayerCount (w_srv w) r = base r + (\<Sum>i < w_next w. occ (w_sess w i) r)"
    "int n = reported w + (\<Sum>i < w_next w. pend (w_sess w i))"
    unfolding sys_inv_def by auto
  ultimately show ?thesis
    unfolding sys_inv_def split join_frame sum.lessThan_Suc
    using s by (auto simp: less_Suc_eq split: if_splits) (metis less_irrefl)+
qed

lemma sys_inv_reachable:
  assumes "sys_step x y" "sys_inv base x"
  shows "sys_inv base y"
  using assms
proof (induction rule: sys_step.induct)
  case (step_join w T n findServer u ident cd c)
  then show ?case by (rule sys_inv_join)
next
  case (step_login i w T n dialed err now)
  show ?case by (rule sys_inv_plain [OF step_login(4,1) accounted_login sess_step_login [OF step_login(3)]])
next
  case (step_begin i w srv start w' T n)
  have ok: "sess_ok (w_sess w i)" using step_begin(1,4) by (simp add: sys_inv_def)
  then have acc: "accounted i 1 w w'" using accounted_begin [OF step_begin(3)] by (simp add: sess_ok_def)
  obtain s' where s': "w_sess w' = (w_sess w)(i := s')" "sess_step True (w_sess w i) s'"
    using sess_step_begin [OF step_begin(3,2) ok] by auto
  show ?case
    by (rule sys_inv_step [where k = 1, OF step_begin(4,1) _ s']) (use acc step_begin(2) in auto)
next
  case (step_refused i w srv start r w' T n)
  have ok: "sess_ok (w_sess w i)" using step_refused(1,4) by (simp add: sys_inv_def)
  then have acc: "accounted i 0 w w'" using accounted_begin [OF step_refused(3)] by (simp add: sess_ok_def)
  show ?case
    by (rule sys_inv_plain [OF step_refused(4,1) acc])
      (use sess_step_begin [OF step_refused(3,2) ok] in simp)
next
  case (step_cancelled i srv T w n now)
  show ?case by (rule sys_inv_resume [OF step_cancelled(2,1) accounted_fail sess_step_fail])
next
  case (step_continue i srv T w n env)
  show ?case by (rule sys_inv_resume [OF step_continue(2,1) accounted_continue sess_step_continue])
next
  case (step_client i w T n tenv pk)
  show ?case
    by (rule sys_inv_plain [OF step_client(3,1) accounted_client_turn [OF step_client(2)] sess_step_client_turn])
next
  case (step_server i w T n cancelled conn pk)
  show ?case by (rule sys_inv_plain [OF step_server(2,1) accounted_server_turn sess_step_server_turn])
next
  case (step_server_error i w T n cancelled msg now conn)
  show ?case
    by (rule sys_inv_plain [OF step_server_error(2,1) accounted_server_error sess_step_server_error])
next
  case (step_timer i w srv T n now)
  show ?case by (rule sys_inv_plain [OF step_timer(3,1) accounted_abort sess_step_abort])
next
  case (step_close i w T n now)
  show ?case
    by (rule sys_inv_plain [OF step_close(2,1) accounted_Close]) (use Close_sess sess_step_closed in blast)
next
  case (step_disconnect i w T n m now)
  show ?case
    by (rule sys_inv_plain [OF step_disconnect(2,1) accounted_Disconnect])
      (use Disconnect_effects(1) sess_step_closed in blast)
qed

lemma reachable_inv:
  assumes "initial w0" "reachable w0 x"
  shows "sys_inv (PlayerCount (w_srv w0)) x"
  using assms(2)
proof (induction rule: reachable.induct)
  case start
  with assms(1) show ?case by (simp add: initial_def sys_inv_def)
next
  case (next_step x y)
  then show ?case using sys_inv_reachable by blast
qed

lemma w_closed_complete [simp]: "w_closed (completeTransfer err now i w) = w_closed w"
  by (simp add: completeTransfer_def publishTransfer_def split: option.split)

lemma Close_closes: "c \<in> w_closed w \<Longrightarrow> c \<in> w_closed (Close now i w)"
proof -
  assume c: "c \<in> w_closed w"
  then have "c \<in> w_closed (announce_quit i (close_transfer now i (upd_sess i (s_once_update (\<lambda>_. True)) w)))"
    by (simp add: announce_quit_def close_transfer_def)
  with c show ?thesis
    by (auto simp: Close_def leave_server_def close_conns_def close_opt_def close_conn_def store_Delete_def
        split: option.split)
qed


section \<open>Properties\<close>



text \<open>C3: no session stays locked in a transfer. Whenever a session is transferring, its transfer is
  still dialing the target, or a timer is armed for it; and when that timer fires, the transfer is over,
  the pending connection is closed, and so is the session.\<close>

theorem no_transfer_is_stuck:
  assumes "initial w0" "reachable w0 (w, T, n)" "i < w_next w" "s_transferring (w_sess w i)"
  shows "(\<exists>srv. (i, srv) \<in> set T) \<or>
    (\<exists>srv conn. s_transferConfirmTimer (w_sess w i) = Some srv \<and> s_tempServerConn (w_sess w i) = Some conn \<and>
       (let w' = abortStuckTransfer srv now i w in
        \<not> s_transferring (w_sess w' i) \<and> s_tempServerConn (w_sess w' i) = None \<and>
        s_once (w_sess w' i) \<and> conn \<in> w_closed w'))"
proof -
  note inv = reachable_inv [OF assms(1,2), unfolded sys_inv_def split]
  have closed: "conn \<in> w_closed (abortStuckTransfer srv now i w)"
    if "s_tempServerConn (w_sess w i) = Some conn" for srv conn
    using that
    by (simp add: abortStuckTransfer_def Let_def Session_Disconnect_def)
      (rule Close_closes, simp add: setTransferring_def, simp add: close_conn_def)
  show ?thesis
  proof (cases "\<exists>srv. (i, srv) \<in> set T")
    case False
    with inv assms(3,4) obtain conn where conn: "s_tempServerConn (w_sess w i) = Some conn" by blast
    moreover from this inv assms(3) obtain srv where "s_transferConfirmTimer (w_sess w i) = Some srv"
      by (auto simp: sess_ok_def)
    moreover have "\<not> s_transferring (w_sess (abortStuckTransfer srv now i w) i) \<and>
        s_tempServerConn (w_sess (abortStuckTransfer srv now i w) i) = None \<and>
        s_once (w_sess (abortStuckTransfer srv now i w) i)"
      using conn by (simp add: abort_sess Let_def closed_session_def)
    ultimately show ?thesis using closed by (auto simp: Let_def)
  qed simp
qed

section \<open>Witnesses\<close>

text \<open>A proxy with two servers; a player joins the first, logs in, and a transfer to the second begins
  and connects.\<close>

definition ex_game :: GameData where
  "ex_game = \<lparr>gd_EntityRuntimeID = 1, gd_EntityUniqueID = 1, gd_Dimension = 0, gd_PlayerPosition = (0, 0, 0),
     gd_Pitch = 0, gd_Yaw = 0, gd_Difficulty = 1, gd_GameRules = [], gd_PlayerGameMode = 0, gd_ChunkRadius = 8\<rparr>"

definition ex_world :: world where
  "ex_world =
     \<lparr>w_srv = \<lparr>srv_at = (\<lambda>r. server_New (if r = 0 then ''lobby'' else ''games'') ''127.0.0.1:19133''
         TransportRakNet '''' 1 False), srv_next = 3\<rparr>,
      w_store = NewDefaultStore, w_preTransfer = None, w_hasBus = True, w_published = [],
      w_metrics = NewMetrics, w_sess = (\<lambda>_. fresh_session 0 \<lparr>id_XUID = [], id_DisplayName = []\<rparr>
        \<lparr>cd_PlatformOnlineID = [], cd_PlatformOfflineID = [], cd_PlayFabID = [], cd_ThirdPartyName = []\<rparr> 0),
      w_next = 0, w_gameData = (\<lambda>_. ex_game), w_sent = (\<lambda>_. []), w_closed = {}\<rparr>"

definition ex_joined :: world where
  "ex_joined = snd (session_New (\<lambda>_. Some 0) 7 \<lparr>id_XUID = ''253'', id_DisplayName = ''Steve''\<rparr>
     \<lparr>cd_PlatformOnlineID = [], cd_PlatformOfflineID = [], cd_PlayFabID = [], cd_ThirdPartyName = []\<rparr> 100 ex_world)"

definition ex_online :: world where
  "ex_online = New_login (Inr 200) None 0 0 ex_joined"

definition ex_dialing :: world where
  "ex_dialing = snd (Transfer_begin 2 5 0 ex_online)"

definition ex_env :: transfer_env where
  "ex_env = \<lparr>te_cancelled = False, te_nether = (\<lambda>_ _ _. Inl ''unreachable''), te_rak = (\<lambda>_ _ _. Inr 201),
     te_spawn = (\<lambda>_. None), te_end = 9, te_toInt32 = (\<lambda>f. f),
     te_chunks = \<lparr>emptyChunksOverworld = [], emptyChunksNether = [], emptyChunksEnd = []\<rparr>\<rparr>"

definition ex_pending :: world where
  "ex_pending = snd (Transfer_continue ex_env 2 0 ex_dialing)"

lemmas ex_defs = ex_joined_def session_New_def New_stored_def ex_world_def fresh_session_def Let_def

lemma initial_ex: "initial ex_world"
  by (simp add: initial_def ex_world_def transfer_events_def)

lemma ex_joined_sess:
  "w_next ex_joined = 1" "s_login (w_sess ex_joined 0) = LoginPending" "s_server (w_sess ex_joined 0) = Some 0"
  "s_transferring (w_sess ex_joined 0) = False" "s_once (w_sess ex_joined 0) = False"
  "PlayerCount (w_srv ex_joined) 0 = 1" "s_dead (w_sess ex_joined 0) = False"
  "s_tempServerConn (w_sess ex_joined 0) = None"
  by (simp_all add: ex_defs PlayerCount_def IncrementPlayerCount_def server_New_def upd_server_def)

lemma ex_online_sess:
  "w_next ex_online = 1" "s_login (w_sess ex_online 0) = LoggedIn" "s_server (w_sess ex_online 0) = Some 0"
  "s_transferring (w_sess ex_online 0) = False" "s_serverConn (w_sess ex_online 0) = Some 200"
  "s_once (w_sess ex_online 0) = False" "s_dead (w_sess ex_online 0) = False"
  "s_tempServerConn (w_sess ex_online 0) = None"
  by (simp_all add: ex_online_def New_login_def Let_def ex_joined_sess)

lemma ex_dialing_begin: "Transfer_begin 2 5 0 ex_online = (Inr (), ex_dialing)"
  by (simp add: ex_dialing_def Transfer_begin_def Let_def ex_online_sess)

lemma ex_dialing_sess:
  "w_next ex_dialing = 1" "s_transferring (w_sess ex_dialing 0)" "s_dead (w_sess ex_dialing 0) = False"
  "s_serverConn (w_sess ex_dialing 0) = Some 200" "s_server (w_sess ex_dialing 0) = Some 0"
  "s_tempServerConn (w_sess ex_dialing 0) = None" "s_once (w_sess ex_dialing 0) = False"
  by (simp_all add: ex_dialing_def Transfer_begin_def Let_def ex_online_sess)

lemma ex_reachable:
  "reachable ex_world (ex_joined, [], 0)" "reachable ex_world (ex_online, [], 0)"
  "reachable ex_world (ex_dialing, [(0, 2)], 1)" "reachable ex_world (ex_pending, [], 1)"
proof -
  show joined: "reachable ex_world (ex_joined, [], 0)"
    unfolding ex_joined_def by (rule next_step [OF start]) (rule step_join)
  show online: "reachable ex_world (ex_online, [], 0)"
    unfolding ex_online_def by (rule next_step [OF joined], rule step_login) (simp_all add: ex_joined_sess)
  show dialing: "reachable ex_world (ex_dialing, [(0, 2)], 1)"
    by (rule next_step [OF online], subst One_nat_def, subst Suc_eq_plus1, rule step_begin [OF _ _ ex_dialing_begin])
      (simp_all add: ex_online_sess)
  show "reachable ex_world (ex_pending, [], 1)"
    using next_step [OF dialing step_continue [of 0 2 "[(0, 2)]" ex_dialing 1 ex_env]]
    by (simp add: ex_pending_def)
qed



lemma ex_pending_eq:
  "ex_pending = snd (Transfer_connected ex_env 2 201 0 (before_dial 2 0 ex_dialing))"
proof -
  have "w_srv (before_dial 2 0 ex_dialing) = w_srv ex_joined"
    by (simp add: before_dial_def PreTransfer_def ex_dialing_def Transfer_begin_def ex_online_def
        New_login_def Let_def ex_joined_sess split: option.split)
  then have "sv_transport (srv_at (w_srv (before_dial 2 0 ex_dialing)) 2) = TransportRakNet"
    by (simp add: ex_defs server_New_def IncrementPlayerCount_def upd_server_def TransportRakNet_def)
  then have "dial_target ex_env 2 0 (before_dial 2 0 ex_dialing) = Inr 201"
    by (simp add: dial_target_def dial_def ex_env_def Let_def TransportRakNet_def TransportNetherNet_def)
  from Transfer_continue_connected [OF this] show ?thesis by (simp add: ex_pending_def ex_env_def)
qed

lemma ex_pending_sess: "w_next ex_pending = 1" "s_transferring (w_sess ex_pending 0)"
  using accounted_connected [of 0 "before_dial 2 0 ex_dialing" ex_env 2 201]
    accounted_before_dial [of 0 ex_dialing 2]
  by (simp_all add: ex_pending_eq connected_sess before_dial_sess ex_dialing_sess accounted_def)

theorem no_transfer_is_stuck_witness:
  "\<exists>srv conn. s_transferConfirmTimer (w_sess ex_pending 0) = Some srv \<and>
     s_tempServerConn (w_sess ex_pending 0) = Some conn \<and>
     (let w' = abortStuckTransfer srv 40 0 ex_pending in
      \<not> s_transferring (w_sess w' 0) \<and> s_tempServerConn (w_sess w' 0) = None \<and>
      s_once (w_sess w' 0) \<and> conn \<in> w_closed w')"
  using no_transfer_is_stuck [OF initial_ex ex_reachable(4), of 0 40] ex_pending_sess by simp

end
