(* ===== verification/ClientView.thy ===== *)
theory ClientView
  imports SessionSteps
begin

text \<open>
  The session's record of what its client sees, against what the client really sees. \<open>tracked\<close> is the
  contract of one kind of thing that is tracked: a packet changes the record and the view alike.
  \<open>cleared\<close> adds what a transfer relies on: the packets it sends take things away and show nothing.
  Entities, the player list, boss bars and scoreboards keep both contracts; effects do not keep the first.
\<close>

section \<open>Contracts\<close>



section \<open>The kinds of things\<close>
















section \<open>In step with the client\<close>


definition server_turns :: "conn_ref \<Rightarrow> mc_packet list \<Rightarrow> sess_ref \<Rightarrow> world \<Rightarrow> world" where
  "server_turns conn pks i w = fold (\<lambda>pk. server_turn False conn pk i) pks w"

lemma track_frame [simp]:
  "s_conn (track pk s) = s_conn s" "s_translator (track pk s) = s_translator s"
  "s_postTransfer (track pk s) = s_postTransfer s" "s_tempServerConn (track pk s) = s_tempServerConn s"
  "s_serverConn (track pk s) = s_serverConn s"
  by (simp_all add: track_def split: mc_packet.split)

lemma server_turn_frame:
  "w_closed (server_turn c conn pk i w) = w_closed w"
  "w_sess (server_turn c conn pk i w) i = track (translatePacket (s_translator (w_sess w i)) pk) (w_sess w i)"
  by (simp_all add: server_turn_def Let_def split: option.split)



lemma server_turns_frame:
  "w_closed (server_turns conn pks i w) = w_closed w"
  "s_conn (w_sess (server_turns conn pks i w) i) = s_conn (w_sess w i)"
  "s_translator (w_sess (server_turns conn pks i w) i) = s_translator (w_sess w i)"
  "s_tempServerConn (w_sess (server_turns conn pks i w) i) = s_tempServerConn (w_sess w i)"
  "s_serverConn (w_sess (server_turns conn pks i w) i) = s_serverConn (w_sess w i)"
  by (induction pks arbitrary: w; simp add: server_turns_def server_turn_frame)+


section \<open>What a transfer takes away\<close>









section \<open>Properties\<close>


text \<open>An effect can survive a transfer. The session notes effects by their type alone, for whatever
  entity they are; when another entity loses an effect of the same type, the session forgets the player's
  own, which the client then keeps on the new server.\<close>

lemma effect_survives_transfer:
  assumes "s_conn (w_sess w i) \<notin> w_closed w" "conn \<noteq> s_conn (w_sess w i)"
    and "s_translator (w_sess w i) = newTranslator gd" and "other \<noteq> gd_EntityRuntimeID gd"
    and "v = server_turns conn [MobEffect (gd_EntityRuntimeID gd) MobEffectAdd e, MobEffect other MobEffectRemove e] i w"
  shows "e \<in> v_effects (client_view i v) \<and> e \<notin> s_effects (w_sess v i)"
proof -
  let ?own = "gd_EntityRuntimeID gd"
  have tr: "translateRuntimeID (newTranslator gd) r = r" for r
    by (simp add: translateRuntimeID_def newTranslator_def Let_def)
  have "w_sent v (s_conn (w_sess w i)) = w_sent w (s_conn (w_sess w i)) @
      [MobEffect ?own MobEffectAdd e, MobEffect other MobEffectRemove e]"
    using assms(1-3)
    by (simp add: assms(5) server_turns_def server_turn_def Let_def tr suppressed_respawn_def write_conn_def)
  moreover have "originalRuntimeID (s_translator (w_sess v i)) = ?own" "s_conn (w_sess v i) = s_conn (w_sess w i)"
    using assms(3) by (simp_all add: assms(5) server_turns_frame newTranslator_def)
  ultimately have "e \<in> v_effects (client_view i v)"
    using assms(4) by (simp add: client_view_def see_def MobEffectAdd_def)
  moreover have "e \<notin> s_effects (w_sess v i)"
    using assms(3)
    by (simp add: assms(5) server_turns_def server_turn_frame tr track_def MobEffectAdd_def MobEffectRemove_def)
  ultimately show ?thesis ..
qed

section \<open>Witnesses\<close>












end
