(* ===== verification/SessionRaces.thy ===== *)
theory SessionRaces
  imports SessionSteps
begin

text \<open>
  Orders of execution below the granularity of \<open>SessionSteps\<close>. The code reads and writes its atomic
  flags outside the mutexes that guard the rest of a session, so other goroutines can come in between.
  Each theorem composes the parts of the code in an order that the locks allow and states what comes of it.
\<close>

section \<open>Properties\<close>

text \<open>C36: closing can overtake a confirmed transfer. The client's loop has seen that the session is
  transferring and is about to finish the transfer; \<^verbatim>\<open>Close\<close>, which takes no mutex and leaves the pending
  connection in place, runs to its end first. The loop then switches servers in a closed session: the old
  server loses two players for one, the new server gains one that is gone, and since the session is closed
  already nothing will ever correct the counts.\<close>

theorem Close_overtakes_confirmation:
  assumes "s_tempServerConn (w_sess w i) = Some temp" "\<not> s_once (w_sess w i)"
    and "s_server (w_sess w i) = Some old" "s_pendingServer (w_sess w i) = Some new" "old \<noteq> new"
    and "finishTransferDimensionChange sched co f i (Close now i w) = (g, w')"
  shows "PlayerCount (w_srv w') old = PlayerCount (w_srv w) old - 2 \<and>
    PlayerCount (w_srv w') new = PlayerCount (w_srv w) new + 1 \<and>
    Close now' i w' = w'"
proof -
  have s: "w_sess (Close now i w) i = closed_session (w_sess w i)" by (simp add: Close_sess)
  have temp: "s_tempServerConn (w_sess (Close now i w) i) = Some temp"
    using assms(1) by (simp add: s closed_session_def)
  note eff = finish_effects [OF temp assms(6)]
  have "s_once (w_sess w' i)" by (simp add: eff(5) s finished_session_def closed_session_def)
  moreover have "s_server (closed_session (w_sess w i)) = Some old"
    "s_pendingServer (closed_session (w_sess w i)) = Some new"
    using assms(3,4) by (simp_all add: closed_session_def)
  moreover have "Close now' i w' = w'" using calculation(1) by (simp add: Close_def)
  ultimately show ?thesis
    using eff(6) [of old] eff(6) [of new] assms(2-5)
    by (simp add: s Close_count occ_def)
qed

text \<open>A transfer can be reported with the outcome of another. A failing transfer first clears the
  flag and then completes itself; a transfer that begins in between replaces what is to be reported,
  so that the first is never reported and the second is reported as failed, with the error of the
  first, while it is still going on, and not again when it ends.\<close>

lemma failure_reported_for_the_next_transfer:
  assumes "w_hasBus w" "s_transferDone (w_sess w i) = Some d"
    and "Transfer_begin srv start i (setTransferring False i w) = (Inr (), w')"
  shows "transfer_events (w_published (completeTransfer (Some err) now i w')) =
      transfer_events (w_published w) @
        [TransferPayload (displayName w i) (Name (w_srv w) (the (s_server (w_sess w i)))) (Name (w_srv w) srv) (Some err)] \<and>
    s_transferring (w_sess (completeTransfer (Some err) now i w') i) \<and>
    w_published (completeTransfer e now' i (completeTransfer (Some err) now i w')) =
      w_published (completeTransfer (Some err) now i w')"
proof -
  obtain old where old: "s_server (w_sess w i) = Some old"
    using assms(3) by (cases "s_server (w_sess w i)") (auto simp: Transfer_begin_def Let_def setTransferring_def)
  have w': "w' = upd_sess i (s_transferDone_update (\<lambda>_. Some
      \<lparr>td_from = Name (w_srv w) old, td_to = Name (w_srv w) srv, td_start = start\<rparr>))
      (upd_sess i (\<lambda>s. s\<lparr>s_transferring := True, s_postTransfer := False\<rparr>) (setTransferring False i w))"
    using assms(3) old by (simp add: Transfer_begin_def Let_def setTransferring_def)
  have "w_hasBus w'" "w_published w' = w_published w"
    using assms(1) by (simp_all add: w' setTransferring_def)
  moreover have "w_published (completeTransfer e now' i v) = w_published v"
    if "s_transferDone (w_sess v i) = None" for v
    using that by (simp add: completeTransfer_def)
  ultimately show ?thesis
    by (simp add: transfer_events_complete w' setTransferring_def old)
qed

text \<open>A transfer of a player whose first server could not be reached crashes. \<^verbatim>\<open>Transfer\<close> waits for
  the login to be over, not for it to have succeeded; it then dials the target, and reads the game data of
  a connection that was never made. That is a nil dereference in the goroutine of the caller, the
  socket connection of a backend or the console.\<close>

lemma Transfer_crashes_without_server_connection:
  assumes "s_serverConn (w_sess w i) = None" "s_server (w_sess w i) = Some old"
    and "\<not> s_once (w_sess w i)" "\<not> s_transferring (w_sess w i)" "s_login (w_sess w i) = LoginPending"
    and "\<not> te_cancelled env" "te_rak env 0 = (\<lambda>_ _. Inr conn)"
    and "te_spawn env conn = None" "sv_transport (srv_at (w_srv w) srv) = TransportRakNet"
  shows "fst (Transfer env srv start i (New_login (Inl err) e now i w)) = Panicked"
proof -
  let ?v = "New_login (Inl err) e now i w"
  have v: "w_sess ?v = (w_sess w)(i := closed_session ((w_sess w i)\<lparr>s_login := LoginFailed\<rparr>))"
    by (simp add: New_login_def Close_sess)
  have transport: "sv_transport (srv_at (w_srv ?v) srv) = TransportRakNet"
    using assms(9)
    by (simp add: New_login_def Close_def leave_server_def DecrementPlayerCount_def split: option.split)
  obtain u where b: "Transfer_begin srv start i ?v = (Inr (), u)" "s_serverConn (w_sess u i) = None"
    "w_srv u = w_srv ?v"
    using assms(1-4) by (auto simp: Transfer_begin_def Let_def v closed_session_def)
  have "w_srv (before_dial srv i u) = w_srv u" by (simp add: before_dial_def PreTransfer_def)
  then have "dial_target env srv i (before_dial srv i u) = Inr conn"
    using assms(7) b(3) transport
    by (simp add: dial_target_def dial_def Let_def TransportRakNet_def TransportNetherNet_def)
  from Transfer_continue_connected [OF this assms(8)] b assms(6) show ?thesis
    by (simp add: Transfer_def Transfer_connected_def Let_def before_dial_sess)
qed

text \<open>While a session is transferring, packets from the client are dropped, a confirmation that comes
  before the target is connected included, and packets from the server still reach the client.\<close>

lemma transferring_drops_server_bound_only:
  assumes "s_transferring (w_sess w i)" "s_tempServerConn (w_sess w i) = None"
    and "s_conn (w_sess w i) \<notin> w_closed w"
    and "\<not> s_postTransfer (w_sess w i)"
  shows "client_turn env any i w = w \<and>
    w_sent (server_turn False conn pk i w) (s_conn (w_sess w i)) =
      w_sent w (s_conn (w_sess w i)) @ [translatePacket (s_translator (w_sess w i)) pk]"
proof -
  have "forward_to_server c p i w = w" for c p using assms(1) by (simp add: forward_to_server_def)
  moreover have "dimension_change_done env i w = (False, w)"
    using assms(1,2) by (simp add: dimension_change_done_def finish_none)
  ultimately have "client_turn env any i w = w" by (simp add: client_turn_def Let_def)
  moreover have "s_conn (track p s) = s_conn s" "s_postTransfer (track p s) = s_postTransfer s" for p s
    by (simp_all add: track_def split: mc_packet.split)
  moreover have "suppressed_respawn p s = None" if "\<not> s_postTransfer s" for p s
    using that by (simp add: suppressed_respawn_def split: mc_packet.split)
  ultimately show ?thesis
    using assms(3,4) by (simp add: server_turn_def Let_def write_conn_def)
qed

section \<open>Witnesses\<close>

lemma ex_more:
  "s_tempServerConn (w_sess ex_pending 0) = Some 201" "s_server (w_sess ex_pending 0) = Some 0"
  "s_pendingServer (w_sess ex_pending 0) = Some 2" "\<not> s_once (w_sess ex_pending 0)"
  by (simp_all add: ex_pending_eq connected_sess before_dial_sess ex_dialing_sess)

lemma ex_dialing_more:
  "w_hasBus ex_dialing" "s_transferDone (w_sess ex_dialing 0) \<noteq> None"
  "w_closed ex_dialing = {}" "\<not> s_postTransfer (w_sess ex_dialing 0)"
  by (simp_all add: ex_dialing_def Transfer_begin_def ex_online_def New_login_def Let_def ex_joined_sess)
    (simp_all add: ex_defs)

definition ex_orders :: clear_orders where
  "ex_orders = \<lparr>co_entities = [], co_effects = [], co_playerList = [], co_bossBars = [], co_scoreboards = []\<rparr>"

theorem Close_overtakes_confirmation_witness:
  "let w' = snd (finishTransferDimensionChange (\<lambda>a b c. a @ b @ c) ex_orders (\<lambda>f. f) 0 (Close 50 0 ex_pending))
   in PlayerCount (w_srv w') 0 = PlayerCount (w_srv ex_pending) 0 - 2 \<and>
      PlayerCount (w_srv w') 2 = PlayerCount (w_srv ex_pending) 2 + 1"
  unfolding Let_def
  using Close_overtakes_confirmation [OF ex_more(1,4,2,3) _ surjective_pairing,
      of "\<lambda>a b c. a @ b @ c" ex_orders "\<lambda>f. f" 50]
  by simp

section \<open>Closing during the login\<close>

text \<open>C38: a session that is closed while it logs in leaves its server connection open. \<^verbatim>\<open>Close\<close> finds no server connection
  yet; the goroutine of \<^verbatim>\<open>New\<close> then stores the one it dialed, and the \<^verbatim>\<open>Close\<close> of a failed login does
  nothing, because the session is closed already. The player stays on the backend as a ghost, and nothing in
  the session closes that connection any more.\<close>

theorem login_after_close_leaks:
  assumes "s_login (w_sess w i) = LoginPending" "\<not> s_once (w_sess w i)" "conn \<notin> w_closed w"
    "s_conn (w_sess w i) \<noteq> conn" "s_serverConn (w_sess w i) = None" "s_tempServerConn (w_sess w i) = None"
    and "w' = New_login (Inr conn) e now i (Close t i w)"
  shows "s_serverConn (w_sess w' i) = Some conn \<and> conn \<notin> w_closed w' \<and> conn \<notin> w_closed (Close t2 i w')"
proof -
  let ?v = "Close t i w"
  have once: "s_once (w_sess ?v i)" by (simp add: Close_sess closed_session_def)
  have open_: "conn \<notin> w_closed ?v"
    using assms(2-6)
    by (simp add: Close_def leave_server_def close_conns_def close_opt_def close_conn_def announce_quit_def store_Delete_def
        close_transfer_def completeTransfer_def publishTransfer_def split: option.split)
  have same: "Close t' i u = u" if "s_once (w_sess u i)" for t' u using that by (simp add: Close_def)
  have "s_serverConn (w_sess w' i) = Some conn \<and> s_once (w_sess w' i) \<and> w_closed w' = w_closed ?v"
    unfolding assms(7) using once by (cases e) (simp_all add: New_login_def same Let_def)
  then show ?thesis using open_ by (simp add: same)
qed

theorem login_after_close_leaks_witness:
  "let w' = New_login (Inr 200) (Some ''connection closed'') 3 0 (Close 2 0 ex_joined) in
   s_serverConn (w_sess w' 0) = Some 200 \<and> 200 \<notin> w_closed w'"
proof -
  have "s_conn (w_sess ex_joined 0) = 100" "s_serverConn (w_sess ex_joined 0) = None" "w_closed ex_joined = {}"
    by (simp_all add: ex_defs)
  then show ?thesis
    using login_after_close_leaks [OF ex_joined_sess(2), of 200 "New_login (Inr 200) (Some ''connection closed'') 3 0 (Close 2 0 ex_joined)"
        "Some ''connection closed''" 3 2] ex_joined_sess
    by (simp add: Let_def)
qed

end
