(* ===== verification/Wire.thy ===== *)
theory Wire
  imports Prelude
begin

text \<open>
  Bytes on the wire. The socket's packets are written and read field by field with gophertunnel's
  \<^verbatim>\<open>protocol.Writer\<close> and \<^verbatim>\<open>protocol.Reader\<close>, which are not part of the repository: the record
  \<open>wire\<close> has one writing and one reading function per kind of field the packets use, and every
  definition that encodes or decodes takes it as an argument. A reading function gives the value and
  the bytes that are left, or \<open>None\<close> where the reader panics. \<open>wire_laws\<close> is what the packets rely
  on: reading what was written gives the value back and leaves what follows.

  The frame around a packet is the proxy's own code and uses \<^verbatim>\<open>encoding/binary\<close>: \<open>word_le\<close> and
  \<open>le_word\<close> are its little-endian encoding.
\<close>

unbundle bit_operations_syntax

section \<open>The fields of packets\<close>

type_synonym 'a getter = "byte list \<Rightarrow> ('a \<times> byte list) option"

record wire =
  put_u8 :: "uint8 \<Rightarrow> byte list"
  get_u8 :: "uint8 getter"
  put_u32 :: "uint32 \<Rightarrow> byte list"
  get_u32 :: "uint32 getter"
  put_varu32 :: "uint32 \<Rightarrow> byte list"
  get_varu32 :: "uint32 getter"
  put_i64 :: "int64 \<Rightarrow> byte list"
  get_i64 :: "int64 getter"
  put_bool :: "bool \<Rightarrow> byte list"
  get_bool :: "bool getter"
  put_str :: "string \<Rightarrow> byte list"
  get_str :: "string getter"
  put_uuid :: "uuid \<Rightarrow> byte list"
  get_uuid :: "uuid getter"

text \<open>Strings longer than the reader accepts are outside the law.\<close>

definition str_ok :: "string \<Rightarrow> bool" where
  "str_ok s \<longleftrightarrow> length s < 2 ^ 31"

definition reads_back :: "('a \<Rightarrow> bool) \<Rightarrow> ('a \<Rightarrow> byte list) \<Rightarrow> 'a getter \<Rightarrow> bool" where
  "reads_back ok put get \<longleftrightarrow> (\<forall>x rest. ok x \<longrightarrow> get (put x @ rest) = Some (x, rest))"

definition wire_laws :: "wire \<Rightarrow> bool" where
  "wire_laws io \<longleftrightarrow>
     reads_back (\<lambda>_. True) (put_u8 io) (get_u8 io) \<and>
     reads_back (\<lambda>_. True) (put_u32 io) (get_u32 io) \<and>
     reads_back (\<lambda>_. True) (put_varu32 io) (get_varu32 io) \<and>
     reads_back (\<lambda>_. True) (put_i64 io) (get_i64 io) \<and>
     reads_back (\<lambda>_. True) (put_bool io) (get_bool io) \<and>
     reads_back str_ok (put_str io) (get_str io) \<and>
     reads_back (\<lambda>_. True) (put_uuid io) (get_uuid io)"

lemma wire_lawsD [wire_rt]:
  assumes "wire_laws io"
  shows "get_u8 io (put_u8 io a @ rest) = Some (a, rest)"
    and "get_u32 io (put_u32 io b @ rest) = Some (b, rest)"
    and "get_varu32 io (put_varu32 io c @ rest) = Some (c, rest)"
    and "get_i64 io (put_i64 io d @ rest) = Some (d, rest)"
    and "get_bool io (put_bool io e @ rest) = Some (e, rest)"
    and "str_ok s \<Longrightarrow> get_str io (put_str io s @ rest) = Some (s, rest)"
    and "get_uuid io (put_uuid io u @ rest) = Some (u, rest)"
  using assms by (simp_all add: wire_laws_def reads_back_def)

section \<open>Unmarshalling\<close>

text \<open>
  \<^verbatim>\<open>Unmarshal\<close> fills a packet in place, one field after the other. Its state is the packet so far
  with the bytes left, or with \<open>None\<close> once the reader has panicked: the fields read before the
  panic stay set.
\<close>

type_synonym 'p unmarshal = "'p \<times> byte list option"

definition field :: "'a getter \<Rightarrow> ('a \<Rightarrow> 'p \<Rightarrow> 'p) \<Rightarrow> 'p unmarshal \<Rightarrow> 'p unmarshal" where
  "field get upd st =
     (case st of
        (pk, None) \<Rightarrow> (pk, None)
      | (pk, Some bs) \<Rightarrow>
          (case get bs of None \<Rightarrow> (pk, None) | Some (v, rest) \<Rightarrow> (upd v pk, Some rest)))"

text \<open>A field that is read only when the packet so far says so.\<close>

definition field_if ::
  "('p \<Rightarrow> bool) \<Rightarrow> 'a getter \<Rightarrow> ('a \<Rightarrow> 'p \<Rightarrow> 'p) \<Rightarrow> 'p unmarshal \<Rightarrow> 'p unmarshal" where
  "field_if cond get upd st = (if cond (fst st) then field get upd st else st)"

definition steps :: "('s \<Rightarrow> 's) list \<Rightarrow> 's \<Rightarrow> 's" where
  "steps fs st = foldl (\<lambda>st f. f st) st fs"

lemma steps_simps [simp]: "steps [] st = st" "steps (f # fs) st = steps fs (f st)"
  by (simp_all add: steps_def)

lemma field_Some [simp]:
  "get bs = Some (v, rest) \<Longrightarrow> field get upd (pk, Some bs) = (upd v pk, Some rest)"
  by (simp add: field_def)

lemma field_panicked [simp]: "field get upd (pk, None) = (pk, None)"
  by (simp add: field_def)

section \<open>Codecs\<close>

text \<open>
  The contract of a packet type: what \<open>marshal\<close> writes, \<open>unmarshal\<close> reads, into any packet of the same
  kind that was there before and before any bytes that follow. Fields that are sent under a condition only
  keep what they held in the old packet, so packets are compared by \<open>vis\<close>, which blanks the
  fields that are not sent. \<open>fits\<close> bounds the lengths of strings and lists.
\<close>

locale codec =
  fixes marshal :: "wire \<Rightarrow> 'p \<Rightarrow> byte list"
    and unmarshal :: "wire \<Rightarrow> 'p \<Rightarrow> byte list \<Rightarrow> 'p unmarshal"
    and fits :: "'p \<Rightarrow> bool"
    and vis :: "'p \<Rightarrow> 'p"
    and kind :: "'p \<Rightarrow> 'k"
  assumes round_trip: "wire_laws io \<Longrightarrow> fits pk \<Longrightarrow> kind old = kind pk \<Longrightarrow>
      \<exists>pk'. unmarshal io old (marshal io pk @ rest) = (pk', Some rest) \<and> vis pk' = vis pk"
    and marshal_vis: "marshal io (vis pk) = marshal io pk"
begin

text \<open>No encoding is the beginning of another: a stream of packets has one reading.\<close>

lemma prefix_free:
  assumes io: "wire_laws io" and fits: "fits p" "fits q" and k: "kind p = kind q"
    and eq: "marshal io p @ r = marshal io q @ s"
  shows "vis p = vis q \<and> r = s"
proof -
  obtain p' where "unmarshal io p (marshal io p @ r) = (p', Some r)" "vis p' = vis p"
    using round_trip [OF io fits(1) refl] by blast
  moreover obtain q' where "unmarshal io p (marshal io q @ s) = (q', Some s)" "vis q' = vis q"
    using round_trip [OF io fits(2) k] by blast
  ultimately show ?thesis using eq by auto
qed

lemma same_encoding_iff:
  "wire_laws io \<Longrightarrow> fits p \<Longrightarrow> fits q \<Longrightarrow> kind p = kind q \<Longrightarrow>
     marshal io p = marshal io q \<longleftrightarrow> vis p = vis q"
  using prefix_free [of io p q "[]" "[]"] marshal_vis by (metis append_Nil2)

end

section \<open>Little-endian words\<close>

fun word_le :: "nat \<Rightarrow> 'a::len word \<Rightarrow> byte list" where
  "word_le 0 w = []"
| "word_le (Suc n) w = ucast w # word_le n (drop_bit 8 w)"

fun le_word :: "byte list \<Rightarrow> 'a::len word" where
  "le_word [] = 0"
| "le_word (b # bs) = ucast b OR push_bit 8 (le_word bs)"

lemma length_word_le [simp]: "length (word_le n w) = n"
  by (induction n w rule: word_le.induct) auto

lemma le_word_word_le: "le_word (word_le n w) = take_bit (8 * n) w"
proof (induction n w rule: word_le.induct)
  case (2 n w)
  have "ucast (ucast w :: byte) OR push_bit 8 (take_bit (8 * n) (drop_bit 8 w)) =
      take_bit (8 * Suc n) w"
    by (rule bit_word_eqI) (auto simp: bit_simps)
  with 2 show ?case by simp
qed simp

lemma le_word_id: "LENGTH('a) \<le> 8 * n \<Longrightarrow> le_word (word_le n w) = (w :: 'a::len word)"
  unfolding le_word_word_le by (rule bit_word_eqI) (simp add: bit_simps)

section \<open>An instance\<close>

text \<open>
  Little-endian integers, base-128 variable-length integers and length-prefixed strings: the format
  of the Bedrock protocol. It shows that the laws can hold; no theorem about the packets uses it.
\<close>

definition get_le :: "nat \<Rightarrow> 'a::len word getter" where
  "get_le n bs = (if length bs < n then None else Some (le_word (take n bs), drop n bs))"

fun put_var :: "nat \<Rightarrow> nat \<Rightarrow> byte list" where
  "put_var 0 n = []"
| "put_var (Suc k) n =
     (if n < 128 then [of_nat n] else of_nat (n mod 128 + 128) # put_var k (n div 128))"

fun get_var :: "nat \<Rightarrow> nat getter" where
  "get_var 0 bs = None"
| "get_var (Suc k) [] = None"
| "get_var (Suc k) (b # bs) =
     (if unat b < 128 then Some (unat b, bs)
      else (case get_var k bs of
              None \<Rightarrow> None
            | Some (n, rest) \<Rightarrow> Some (unat b - 128 + 128 * n, rest)))"

lemma get_put_var:
  "n < 128 ^ k \<Longrightarrow> 0 < k \<Longrightarrow> get_var k (put_var k n @ rest) = Some (n, rest)"
proof (induction k arbitrary: n)
  case (Suc k)
  show ?case
  proof (cases "n < 128")
    case True
    then show ?thesis by (simp add: unat_of_nat)
  next
    case False
    with Suc.prems have "0 < k" by (cases k) auto
    moreover have "n div 128 < 128 ^ k" using Suc.prems by (simp add: less_mult_imp_div_less)
    ultimately have "get_var k (put_var k (n div 128) @ rest) = Some (n div 128, rest)"
      using Suc.IH by blast
    moreover have "unat (of_nat (n mod 128 + 128) :: byte) = n mod 128 + 128"
    proof -
      have "n mod 128 < 128" by simp
      then have "n mod 128 + 128 < 2 ^ LENGTH(8)" by simp
      then show ?thesis by (simp only: unat_of_nat mod_less)
    qed
    ultimately show ?thesis using False by (simp del: of_nat_add)
  qed
qed simp

definition byte_of :: "char \<Rightarrow> byte" where
  "byte_of c = of_nat (of_char c)"

definition char_of_byte :: "byte \<Rightarrow> char" where
  "char_of_byte b = char_of (unat b)"

lemma char_of_byte_of [simp]: "char_of_byte (byte_of c) = c"
  by (simp add: char_of_byte_def byte_of_def unat_of_nat nat_of_char_less_256)

definition put_string :: "string \<Rightarrow> byte list" where
  "put_string s = put_var 5 (length s) @ map byte_of s"

definition get_string :: "string getter" where
  "get_string bs =
     (case get_var 5 bs of
        None \<Rightarrow> None
      | Some (n, rest) \<Rightarrow>
          if n \<ge> 2 ^ 31 \<or> length rest < n then None
          else Some (map char_of_byte (take n rest), drop n rest))"

definition bedrock_wire :: wire where
  "bedrock_wire =
     \<lparr>put_u8 = word_le 1, get_u8 = get_le 1, put_u32 = word_le 4, get_u32 = get_le 4,
      put_varu32 = (\<lambda>w. put_var 5 (unat w)),
      get_varu32 = (\<lambda>bs. map_option (apfst of_nat) (get_var 5 bs)),
      put_i64 = word_le 8, get_i64 = get_le 8,
      put_bool = (\<lambda>b. [of_bool b]),
      get_bool = (\<lambda>bs. case bs of [] \<Rightarrow> None | b # bs \<Rightarrow> Some (b \<noteq> 0, bs)),
      put_str = put_string, get_str = get_string,
      put_uuid = word_le 16, get_uuid = get_le 16\<rparr>"

lemma reads_back_le: "LENGTH('a) \<le> 8 * n \<Longrightarrow> reads_back ok (word_le n) (get_le n :: 'a::len word getter)"
  by (simp add: reads_back_def get_le_def le_word_id)

lemma bedrock_wire_laws: "wire_laws bedrock_wire"
proof -
  have "unat (w :: uint32) < 128 ^ 5" for w
    using unsigned_less [of w, where ?'a = nat] by simp
  then have v: "get_var 5 (put_var 5 (unat (w :: uint32)) @ rest) = Some (unat w, rest)" for w rest
    by (rule get_put_var) simp
  have "get_string (put_string s @ rest) = Some (s, rest)" if "str_ok s" for s rest
  proof -
    from that have "length s < 128 ^ 5" by (simp add: str_ok_def)
    from get_put_var [OF this, of rest for rest] that show ?thesis
      by (simp add: get_string_def put_string_def str_ok_def comp_def)
  qed
  with v show ?thesis
    by (simp add: wire_laws_def bedrock_wire_def reads_back_le) (simp add: reads_back_def)
qed

end
