(* ===== verification/Packets.thy ===== *)
theory Packets
  imports Wire
begin

text \<open>
  The packets of the socket protocol (\<^verbatim>\<open>socket/packet/\<close>): a record per packet with its \<^verbatim>\<open>Marshal\<close> and
  \<^verbatim>\<open>Unmarshal\<close>, the identifiers, the header and the pool. Each packet type is shown to be a
  codec; the sum of them all, \<open>packet\<close>, is one too.
\<close>

section \<open>Identifiers and status codes\<close>

definition ProtocolVersion :: uint32 where
  "ProtocolVersion = 3"

definition IDAuthRequest :: uint16 where
  "IDAuthRequest = 0"

definition IDAuthResponse :: uint16 where
  "IDAuthResponse = 1"

definition IDRegisterServer :: uint16 where
  "IDRegisterServer = 2"

definition IDTransferRequest :: uint16 where
  "IDTransferRequest = 3"

definition IDTransferResponse :: uint16 where
  "IDTransferResponse = 4"

definition IDPlayerInfoRequest :: uint16 where
  "IDPlayerInfoRequest = 5"

definition IDPlayerInfoResponse :: uint16 where
  "IDPlayerInfoResponse = 6"

definition IDServerListRequest :: uint16 where
  "IDServerListRequest = 7"

definition IDServerListResponse :: uint16 where
  "IDServerListResponse = 8"

definition IDFindPlayerRequest :: uint16 where
  "IDFindPlayerRequest = 9"

definition IDFindPlayerResponse :: uint16 where
  "IDFindPlayerResponse = 10"

definition IDUpdatePlayerLatency :: uint16 where
  "IDUpdatePlayerLatency = 11"

definition IDDisconnectPlayer :: uint16 where
  "IDDisconnectPlayer = 12"

definition IDSetServerDraining :: uint16 where
  "IDSetServerDraining = 13"

definition AuthResponseSuccess :: uint8 where
  "AuthResponseSuccess = 0"

definition AuthResponseUnsupportedProtocol :: uint8 where
  "AuthResponseUnsupportedProtocol = 1"

definition AuthResponseIncorrectSecret :: uint8 where
  "AuthResponseIncorrectSecret = 2"

definition AuthResponseAlreadyConnected :: uint8 where
  "AuthResponseAlreadyConnected = 3"

definition AuthResponseUnauthenticated :: uint8 where
  "AuthResponseUnauthenticated = 4"

definition TransferResponseSuccess :: uint8 where
  "TransferResponseSuccess = 0"

definition TransferResponseServerNotFound :: uint8 where
  "TransferResponseServerNotFound = 1"

definition TransferResponseAlreadyOnServer :: uint8 where
  "TransferResponseAlreadyOnServer = 2"

definition TransferResponsePlayerNotFound :: uint8 where
  "TransferResponsePlayerNotFound = 3"

definition TransferResponseError :: uint8 where
  "TransferResponseError = 4"

definition PlayerInfoResponseSuccess :: uint8 where
  "PlayerInfoResponseSuccess = 0"

definition PlayerInfoResponsePlayerNotFound :: uint8 where
  "PlayerInfoResponsePlayerNotFound = 1"

lemmas ID_defs =
  IDAuthRequest_def IDAuthResponse_def IDRegisterServer_def IDTransferRequest_def
  IDTransferResponse_def IDPlayerInfoRequest_def IDPlayerInfoResponse_def IDServerListRequest_def
  IDServerListResponse_def IDFindPlayerRequest_def IDFindPlayerResponse_def IDUpdatePlayerLatency_def
  IDDisconnectPlayer_def IDSetServerDraining_def

section \<open>The header\<close>

record Header =
  PacketID :: uint16

definition Header_Write :: "Header \<Rightarrow> byte list" where
  "Header_Write header = [ucast (PacketID header), ucast (drop_bit 8 (PacketID header))]"

text \<open>\<^verbatim>\<open>Read\<close>: \<open>None\<close> when the buffer ends, which is the reader's end-of-file error.\<close>

fun Header_Read :: "byte list \<Rightarrow> (Header \<times> byte list) option" where
  "Header_Read (b1 # b2 # rest) = Some (\<lparr>PacketID = ucast b1 OR push_bit 8 (ucast b2)\<rparr>, rest)"
| "Header_Read _ = None"

lemma Header_Read_Write [simp]: "Header_Read (Header_Write header @ rest) = Some (header, rest)"
proof -
  have "ucast (ucast w :: byte) OR push_bit 8 (ucast (ucast (drop_bit 8 w) :: byte)) = w"
    for w :: uint16
    by (rule bit_word_eqI) (auto simp: bit_simps)
  then show ?thesis by (simp add: Header_Write_def)
qed

section \<open>AuthRequest\<close>

record AuthRequest =
  aq_Protocol :: uint32
  aq_Secret :: string
  aq_Name :: string

definition AuthRequest_Marshal :: "wire \<Rightarrow> AuthRequest \<Rightarrow> byte list" where
  "AuthRequest_Marshal io pk =
     put_u32 io (aq_Protocol pk) @
     put_str io (aq_Secret pk) @
     put_str io (aq_Name pk)"

definition AuthRequest_Unmarshal ::
  "wire \<Rightarrow> AuthRequest \<Rightarrow> byte list \<Rightarrow> AuthRequest unmarshal" where
  "AuthRequest_Unmarshal io pk bs = steps
     [field (get_u32 io) (\<lambda>v pk. pk\<lparr>aq_Protocol := v\<rparr>),
      field (get_str io) (\<lambda>v pk. pk\<lparr>aq_Secret := v\<rparr>),
      field (get_str io) (\<lambda>v pk. pk\<lparr>aq_Name := v\<rparr>)]
     (pk, Some bs)"

definition AuthRequest_fits :: "AuthRequest \<Rightarrow> bool" where
  "AuthRequest_fits pk \<longleftrightarrow> str_ok (aq_Secret pk) \<and> str_ok (aq_Name pk)"

interpretation auth_request_codec:
  codec AuthRequest_Marshal AuthRequest_Unmarshal AuthRequest_fits "\<lambda>pk. pk" "\<lambda>_. ()"
  by unfold_locales
    (simp_all add: AuthRequest_Unmarshal_def AuthRequest_Marshal_def AuthRequest_fits_def wire_rt)

section \<open>AuthResponse\<close>

record AuthResponse =
  ar_Protocol :: uint32
  ar_Status :: uint8

definition AuthResponse_Marshal :: "wire \<Rightarrow> AuthResponse \<Rightarrow> byte list" where
  "AuthResponse_Marshal io pk =
     put_u32 io (ar_Protocol pk) @
     put_u8 io (ar_Status pk)"

definition AuthResponse_Unmarshal ::
  "wire \<Rightarrow> AuthResponse \<Rightarrow> byte list \<Rightarrow> AuthResponse unmarshal" where
  "AuthResponse_Unmarshal io pk bs = steps
     [field (get_u32 io) (\<lambda>v pk. pk\<lparr>ar_Protocol := v\<rparr>),
      field (get_u8 io) (\<lambda>v pk. pk\<lparr>ar_Status := v\<rparr>)]
     (pk, Some bs)"

interpretation auth_response_codec:
  codec AuthResponse_Marshal AuthResponse_Unmarshal "\<lambda>_. True" "\<lambda>pk. pk" "\<lambda>_. ()"
  by unfold_locales
    (simp_all add: AuthResponse_Unmarshal_def AuthResponse_Marshal_def wire_rt)

section \<open>RegisterServer\<close>

record RegisterServer =
  rs_Address :: string
  rs_Transport :: string
  rs_LegacyAuth :: bool
  rs_Group :: string
  rs_Weight :: uint32

definition RegisterServer_Marshal :: "wire \<Rightarrow> RegisterServer \<Rightarrow> byte list" where
  "RegisterServer_Marshal io pk =
     put_str io (rs_Address pk) @
     put_str io (rs_Transport pk) @
     put_bool io (rs_LegacyAuth pk) @
     put_str io (rs_Group pk) @
     put_varu32 io (rs_Weight pk)"

definition RegisterServer_Unmarshal ::
  "wire \<Rightarrow> RegisterServer \<Rightarrow> byte list \<Rightarrow> RegisterServer unmarshal" where
  "RegisterServer_Unmarshal io pk bs = steps
     [field (get_str io) (\<lambda>v pk. pk\<lparr>rs_Address := v\<rparr>),
      field (get_str io) (\<lambda>v pk. pk\<lparr>rs_Transport := v\<rparr>),
      field (get_bool io) (\<lambda>v pk. pk\<lparr>rs_LegacyAuth := v\<rparr>),
      field (get_str io) (\<lambda>v pk. pk\<lparr>rs_Group := v\<rparr>),
      field (get_varu32 io) (\<lambda>v pk. pk\<lparr>rs_Weight := v\<rparr>)]
     (pk, Some bs)"

definition RegisterServer_fits :: "RegisterServer \<Rightarrow> bool" where
  "RegisterServer_fits pk \<longleftrightarrow> str_ok (rs_Address pk) \<and> str_ok (rs_Transport pk) \<and> str_ok (rs_Group pk)"

interpretation register_server_codec:
  codec RegisterServer_Marshal RegisterServer_Unmarshal RegisterServer_fits "\<lambda>pk. pk" "\<lambda>_. ()"
  by unfold_locales
    (simp_all add: RegisterServer_Unmarshal_def RegisterServer_Marshal_def RegisterServer_fits_def wire_rt)

section \<open>TransferRequest\<close>

record TransferRequest =
  tq_PlayerUUID :: uuid
  tq_Server :: string

definition TransferRequest_Marshal :: "wire \<Rightarrow> TransferRequest \<Rightarrow> byte list" where
  "TransferRequest_Marshal io pk =
     put_uuid io (tq_PlayerUUID pk) @
     put_str io (tq_Server pk)"

definition TransferRequest_Unmarshal ::
  "wire \<Rightarrow> TransferRequest \<Rightarrow> byte list \<Rightarrow> TransferRequest unmarshal" where
  "TransferRequest_Unmarshal io pk bs = steps
     [field (get_uuid io) (\<lambda>v pk. pk\<lparr>tq_PlayerUUID := v\<rparr>),
      field (get_str io) (\<lambda>v pk. pk\<lparr>tq_Server := v\<rparr>)]
     (pk, Some bs)"

definition TransferRequest_fits :: "TransferRequest \<Rightarrow> bool" where
  "TransferRequest_fits pk \<longleftrightarrow> str_ok (tq_Server pk)"

interpretation transfer_request_codec:
  codec TransferRequest_Marshal TransferRequest_Unmarshal TransferRequest_fits "\<lambda>pk. pk" "\<lambda>_. ()"
  by unfold_locales
    (simp_all add: TransferRequest_Unmarshal_def TransferRequest_Marshal_def TransferRequest_fits_def wire_rt)

section \<open>TransferResponse\<close>

record TransferResponse =
  tr_PlayerUUID :: uuid
  tr_Status :: uint8
  tr_Error :: string

definition TransferResponse_Marshal :: "wire \<Rightarrow> TransferResponse \<Rightarrow> byte list" where
  "TransferResponse_Marshal io pk =
     put_uuid io (tr_PlayerUUID pk) @
     put_u8 io (tr_Status pk) @
     (if tr_Status pk = TransferResponseError then put_str io (tr_Error pk) else [])"

definition TransferResponse_Unmarshal ::
  "wire \<Rightarrow> TransferResponse \<Rightarrow> byte list \<Rightarrow> TransferResponse unmarshal" where
  "TransferResponse_Unmarshal io pk bs = steps
     [field (get_uuid io) (\<lambda>v pk. pk\<lparr>tr_PlayerUUID := v\<rparr>),
      field (get_u8 io) (\<lambda>v pk. pk\<lparr>tr_Status := v\<rparr>),
      field_if (\<lambda>pk. tr_Status pk = TransferResponseError) (get_str io) (\<lambda>v pk. pk\<lparr>tr_Error := v\<rparr>)]
     (pk, Some bs)"

definition TransferResponse_fits :: "TransferResponse \<Rightarrow> bool" where
  "TransferResponse_fits pk \<longleftrightarrow> str_ok (tr_Error pk)"

definition TransferResponse_vis :: "TransferResponse \<Rightarrow> TransferResponse" where
  "TransferResponse_vis pk = (if tr_Status pk = TransferResponseError then pk else pk\<lparr>tr_Error := []\<rparr>)"

interpretation transfer_response_codec:
  codec TransferResponse_Marshal TransferResponse_Unmarshal TransferResponse_fits TransferResponse_vis "\<lambda>_. ()"
  by unfold_locales
    (auto simp: TransferResponse_Unmarshal_def TransferResponse_Marshal_def TransferResponse_fits_def TransferResponse_vis_def field_if_def wire_rt)

section \<open>PlayerInfoRequest\<close>

record PlayerInfoRequest =
  iq_PlayerUUID :: uuid

definition PlayerInfoRequest_Marshal :: "wire \<Rightarrow> PlayerInfoRequest \<Rightarrow> byte list" where
  "PlayerInfoRequest_Marshal io pk =
     put_uuid io (iq_PlayerUUID pk)"

definition PlayerInfoRequest_Unmarshal ::
  "wire \<Rightarrow> PlayerInfoRequest \<Rightarrow> byte list \<Rightarrow> PlayerInfoRequest unmarshal" where
  "PlayerInfoRequest_Unmarshal io pk bs = steps
     [field (get_uuid io) (\<lambda>v pk. pk\<lparr>iq_PlayerUUID := v\<rparr>)]
     (pk, Some bs)"

interpretation info_request_codec:
  codec PlayerInfoRequest_Marshal PlayerInfoRequest_Unmarshal "\<lambda>_. True" "\<lambda>pk. pk" "\<lambda>_. ()"
  by unfold_locales
    (simp_all add: PlayerInfoRequest_Unmarshal_def PlayerInfoRequest_Marshal_def wire_rt)

section \<open>PlayerInfoResponse\<close>

record PlayerInfoResponse =
  ir_PlayerUUID :: uuid
  ir_Status :: uint8
  ir_XUID :: string
  ir_Address :: string

definition PlayerInfoResponse_Marshal :: "wire \<Rightarrow> PlayerInfoResponse \<Rightarrow> byte list" where
  "PlayerInfoResponse_Marshal io pk =
     put_uuid io (ir_PlayerUUID pk) @
     put_u8 io (ir_Status pk) @
     put_str io (ir_XUID pk) @
     put_str io (ir_Address pk)"

definition PlayerInfoResponse_Unmarshal ::
  "wire \<Rightarrow> PlayerInfoResponse \<Rightarrow> byte list \<Rightarrow> PlayerInfoResponse unmarshal" where
  "PlayerInfoResponse_Unmarshal io pk bs = steps
     [field (get_uuid io) (\<lambda>v pk. pk\<lparr>ir_PlayerUUID := v\<rparr>),
      field (get_u8 io) (\<lambda>v pk. pk\<lparr>ir_Status := v\<rparr>),
      field (get_str io) (\<lambda>v pk. pk\<lparr>ir_XUID := v\<rparr>),
      field (get_str io) (\<lambda>v pk. pk\<lparr>ir_Address := v\<rparr>)]
     (pk, Some bs)"

definition PlayerInfoResponse_fits :: "PlayerInfoResponse \<Rightarrow> bool" where
  "PlayerInfoResponse_fits pk \<longleftrightarrow> str_ok (ir_XUID pk) \<and> str_ok (ir_Address pk)"

interpretation info_response_codec:
  codec PlayerInfoResponse_Marshal PlayerInfoResponse_Unmarshal PlayerInfoResponse_fits "\<lambda>pk. pk" "\<lambda>_. ()"
  by unfold_locales
    (simp_all add: PlayerInfoResponse_Unmarshal_def PlayerInfoResponse_Marshal_def PlayerInfoResponse_fits_def wire_rt)

section \<open>ServerListRequest\<close>

datatype ServerListRequest = ServerListRequest

definition ServerListRequest_Marshal :: "wire \<Rightarrow> ServerListRequest \<Rightarrow> byte list" where
  "ServerListRequest_Marshal io pk = []"

definition ServerListRequest_Unmarshal ::
  "wire \<Rightarrow> ServerListRequest \<Rightarrow> byte list \<Rightarrow> ServerListRequest unmarshal" where
  "ServerListRequest_Unmarshal io pk bs = (pk, Some bs)"

interpretation list_request_codec:
  codec ServerListRequest_Marshal ServerListRequest_Unmarshal "\<lambda>_. True" "\<lambda>pk. pk" "\<lambda>_. ()"
proof
  fix io rest and pk old :: ServerListRequest
  show "\<exists>pk'. ServerListRequest_Unmarshal io old (ServerListRequest_Marshal io pk @ rest) =
      (pk', Some rest) \<and> pk' = pk"
    by (cases old; cases pk) (simp add: ServerListRequest_Unmarshal_def ServerListRequest_Marshal_def)
qed simp

section \<open>ServerListResponse\<close>

record ServerEntry =
  se_Name :: string
  se_PlayerCount :: int64

record ServerListResponse =
  lr_Servers :: "ServerEntry list"

definition ServerListResponse_Marshal :: "wire \<Rightarrow> ServerListResponse \<Rightarrow> byte list" where
  "ServerListResponse_Marshal io pk =
     put_u32 io (of_nat (length (lr_Servers pk))) @
     concat (map (\<lambda>s. put_str io (se_Name s) @ put_i64 io (se_PlayerCount s)) (lr_Servers pk))"

text \<open>One turn of the reading loop: an entry is appended once both its fields are read.\<close>

fun read_entry :: "wire \<Rightarrow> ServerListResponse unmarshal \<Rightarrow> ServerListResponse unmarshal" where
  "read_entry io (pk, None) = (pk, None)"
| "read_entry io (pk, Some bs) =
     (case steps
        [field (get_str io) (\<lambda>v e. e\<lparr>se_Name := v\<rparr>),
         field (get_i64 io) (\<lambda>v e. e\<lparr>se_PlayerCount := v\<rparr>)]
        (\<lparr>se_Name = [], se_PlayerCount = 0\<rparr>, Some bs) of
        (e, None) \<Rightarrow> (pk, None)
      | (e, Some rest) \<Rightarrow> (pk\<lparr>lr_Servers := lr_Servers pk @ [e]\<rparr>, Some rest))"

fun read_entries :: "wire \<Rightarrow> nat \<Rightarrow> ServerListResponse unmarshal \<Rightarrow> ServerListResponse unmarshal" where
  "read_entries io 0 st = st"
| "read_entries io (Suc n) st = read_entries io n (read_entry io st)"

definition ServerListResponse_Unmarshal ::
  "wire \<Rightarrow> ServerListResponse \<Rightarrow> byte list \<Rightarrow> ServerListResponse unmarshal" where
  "ServerListResponse_Unmarshal io pk bs =
     (case get_u32 io bs of
        None \<Rightarrow> (pk, None)
      | Some (l, rest) \<Rightarrow> read_entries io (unat l) (pk\<lparr>lr_Servers := []\<rparr>, Some rest))"

definition ServerListResponse_fits :: "ServerListResponse \<Rightarrow> bool" where
  "ServerListResponse_fits pk \<longleftrightarrow>
     length (lr_Servers pk) < 2 ^ 32 \<and> (\<forall>s \<in> set (lr_Servers pk). str_ok (se_Name s))"

lemma read_entries_Marshal:
  assumes "wire_laws io" "\<forall>s \<in> set ss. str_ok (se_Name s)"
  shows "read_entries io (length ss) (pk, Some (concat
      (map (\<lambda>s. put_str io (se_Name s) @ put_i64 io (se_PlayerCount s)) ss) @ rest)) =
    (pk\<lparr>lr_Servers := lr_Servers pk @ ss\<rparr>, Some rest)"
  using assms(2) by (induction ss arbitrary: pk) (auto simp: wire_rt [OF assms(1)])

interpretation list_response_codec:
  codec ServerListResponse_Marshal ServerListResponse_Unmarshal ServerListResponse_fits "\<lambda>pk. pk" "\<lambda>_. ()"
proof
  fix io rest and pk old :: ServerListResponse
  assume io: "wire_laws io" and fits: "ServerListResponse_fits pk"
  have "unat (of_nat (length (lr_Servers pk)) :: uint32) = length (lr_Servers pk)"
    using fits by (simp add: ServerListResponse_fits_def unat_of_nat)
  with read_entries_Marshal [OF io, of "lr_Servers pk" "old\<lparr>lr_Servers := []\<rparr>" rest] fits
  show "\<exists>pk'. ServerListResponse_Unmarshal io old (ServerListResponse_Marshal io pk @ rest) =
      (pk', Some rest) \<and> pk' = pk"
    by (simp add: ServerListResponse_Unmarshal_def ServerListResponse_Marshal_def wire_rt [OF io]
        ServerListResponse_fits_def)
qed simp

section \<open>FindPlayerRequest\<close>

record FindPlayerRequest =
  fq_PlayerUUID :: uuid
  fq_PlayerName :: string

definition FindPlayerRequest_Marshal :: "wire \<Rightarrow> FindPlayerRequest \<Rightarrow> byte list" where
  "FindPlayerRequest_Marshal io pk =
     put_uuid io (fq_PlayerUUID pk) @
     put_str io (fq_PlayerName pk)"

definition FindPlayerRequest_Unmarshal ::
  "wire \<Rightarrow> FindPlayerRequest \<Rightarrow> byte list \<Rightarrow> FindPlayerRequest unmarshal" where
  "FindPlayerRequest_Unmarshal io pk bs = steps
     [field (get_uuid io) (\<lambda>v pk. pk\<lparr>fq_PlayerUUID := v\<rparr>),
      field (get_str io) (\<lambda>v pk. pk\<lparr>fq_PlayerName := v\<rparr>)]
     (pk, Some bs)"

definition FindPlayerRequest_fits :: "FindPlayerRequest \<Rightarrow> bool" where
  "FindPlayerRequest_fits pk \<longleftrightarrow> str_ok (fq_PlayerName pk)"

interpretation find_request_codec:
  codec FindPlayerRequest_Marshal FindPlayerRequest_Unmarshal FindPlayerRequest_fits "\<lambda>pk. pk" "\<lambda>_. ()"
  by unfold_locales
    (simp_all add: FindPlayerRequest_Unmarshal_def FindPlayerRequest_Marshal_def FindPlayerRequest_fits_def wire_rt)

section \<open>FindPlayerResponse\<close>

record FindPlayerResponse =
  fr_PlayerUUID :: uuid
  fr_PlayerName :: string
  fr_Online :: bool
  fr_Server :: string
  fr_Proxy :: string

definition FindPlayerResponse_Marshal :: "wire \<Rightarrow> FindPlayerResponse \<Rightarrow> byte list" where
  "FindPlayerResponse_Marshal io pk =
     put_uuid io (fr_PlayerUUID pk) @
     put_str io (fr_PlayerName pk) @
     put_bool io (fr_Online pk) @
     (if fr_Online pk then put_str io (fr_Server pk) @ put_str io (fr_Proxy pk) else [])"

definition FindPlayerResponse_Unmarshal ::
  "wire \<Rightarrow> FindPlayerResponse \<Rightarrow> byte list \<Rightarrow> FindPlayerResponse unmarshal" where
  "FindPlayerResponse_Unmarshal io pk bs = steps
     [field (get_uuid io) (\<lambda>v pk. pk\<lparr>fr_PlayerUUID := v\<rparr>),
      field (get_str io) (\<lambda>v pk. pk\<lparr>fr_PlayerName := v\<rparr>),
      field (get_bool io) (\<lambda>v pk. pk\<lparr>fr_Online := v\<rparr>),
      field_if (\<lambda>pk. fr_Online pk) (get_str io) (\<lambda>v pk. pk\<lparr>fr_Server := v\<rparr>),
      field_if (\<lambda>pk. fr_Online pk) (get_str io) (\<lambda>v pk. pk\<lparr>fr_Proxy := v\<rparr>)]
     (pk, Some bs)"

definition FindPlayerResponse_fits :: "FindPlayerResponse \<Rightarrow> bool" where
  "FindPlayerResponse_fits pk \<longleftrightarrow> str_ok (fr_PlayerName pk) \<and> str_ok (fr_Server pk) \<and> str_ok (fr_Proxy pk)"

definition FindPlayerResponse_vis :: "FindPlayerResponse \<Rightarrow> FindPlayerResponse" where
  "FindPlayerResponse_vis pk = (if fr_Online pk then pk else pk\<lparr>fr_Server := [], fr_Proxy := []\<rparr>)"

interpretation find_response_codec:
  codec FindPlayerResponse_Marshal FindPlayerResponse_Unmarshal FindPlayerResponse_fits FindPlayerResponse_vis "\<lambda>_. ()"
  by unfold_locales
    (auto simp: FindPlayerResponse_Unmarshal_def FindPlayerResponse_Marshal_def FindPlayerResponse_fits_def FindPlayerResponse_vis_def field_if_def wire_rt)

section \<open>UpdatePlayerLatency\<close>

record UpdatePlayerLatency =
  ul_PlayerUUID :: uuid
  ul_Latency :: int64

definition UpdatePlayerLatency_Marshal :: "wire \<Rightarrow> UpdatePlayerLatency \<Rightarrow> byte list" where
  "UpdatePlayerLatency_Marshal io pk =
     put_uuid io (ul_PlayerUUID pk) @
     put_i64 io (ul_Latency pk)"

definition UpdatePlayerLatency_Unmarshal ::
  "wire \<Rightarrow> UpdatePlayerLatency \<Rightarrow> byte list \<Rightarrow> UpdatePlayerLatency unmarshal" where
  "UpdatePlayerLatency_Unmarshal io pk bs = steps
     [field (get_uuid io) (\<lambda>v pk. pk\<lparr>ul_PlayerUUID := v\<rparr>),
      field (get_i64 io) (\<lambda>v pk. pk\<lparr>ul_Latency := v\<rparr>)]
     (pk, Some bs)"

interpretation latency_codec:
  codec UpdatePlayerLatency_Marshal UpdatePlayerLatency_Unmarshal "\<lambda>_. True" "\<lambda>pk. pk" "\<lambda>_. ()"
  by unfold_locales
    (simp_all add: UpdatePlayerLatency_Unmarshal_def UpdatePlayerLatency_Marshal_def wire_rt)

section \<open>DisconnectPlayer\<close>

record DisconnectPlayer =
  dp_PlayerName :: string

definition DisconnectPlayer_Marshal :: "wire \<Rightarrow> DisconnectPlayer \<Rightarrow> byte list" where
  "DisconnectPlayer_Marshal io pk =
     put_str io (dp_PlayerName pk)"

definition DisconnectPlayer_Unmarshal ::
  "wire \<Rightarrow> DisconnectPlayer \<Rightarrow> byte list \<Rightarrow> DisconnectPlayer unmarshal" where
  "DisconnectPlayer_Unmarshal io pk bs = steps
     [field (get_str io) (\<lambda>v pk. pk\<lparr>dp_PlayerName := v\<rparr>)]
     (pk, Some bs)"

definition DisconnectPlayer_fits :: "DisconnectPlayer \<Rightarrow> bool" where
  "DisconnectPlayer_fits pk \<longleftrightarrow> str_ok (dp_PlayerName pk)"

interpretation disconnect_player_codec:
  codec DisconnectPlayer_Marshal DisconnectPlayer_Unmarshal DisconnectPlayer_fits "\<lambda>pk. pk" "\<lambda>_. ()"
  by unfold_locales
    (simp_all add: DisconnectPlayer_Unmarshal_def DisconnectPlayer_Marshal_def DisconnectPlayer_fits_def wire_rt)

section \<open>SetServerDraining\<close>

record SetServerDraining =
  sd_Draining :: bool

definition SetServerDraining_Marshal :: "wire \<Rightarrow> SetServerDraining \<Rightarrow> byte list" where
  "SetServerDraining_Marshal io pk =
     put_bool io (sd_Draining pk)"

definition SetServerDraining_Unmarshal ::
  "wire \<Rightarrow> SetServerDraining \<Rightarrow> byte list \<Rightarrow> SetServerDraining unmarshal" where
  "SetServerDraining_Unmarshal io pk bs = steps
     [field (get_bool io) (\<lambda>v pk. pk\<lparr>sd_Draining := v\<rparr>)]
     (pk, Some bs)"

interpretation draining_codec:
  codec SetServerDraining_Marshal SetServerDraining_Unmarshal "\<lambda>_. True" "\<lambda>pk. pk" "\<lambda>_. ()"
  by unfold_locales
    (simp_all add: SetServerDraining_Unmarshal_def SetServerDraining_Marshal_def wire_rt)

section \<open>All packets\<close>

datatype packet =
    AuthRequestPk AuthRequest
  | AuthResponsePk AuthResponse
  | RegisterServerPk RegisterServer
  | TransferRequestPk TransferRequest
  | TransferResponsePk TransferResponse
  | PlayerInfoRequestPk PlayerInfoRequest
  | PlayerInfoResponsePk PlayerInfoResponse
  | ServerListRequestPk ServerListRequest
  | ServerListResponsePk ServerListResponse
  | FindPlayerRequestPk FindPlayerRequest
  | FindPlayerResponsePk FindPlayerResponse
  | UpdatePlayerLatencyPk UpdatePlayerLatency
  | DisconnectPlayerPk DisconnectPlayer
  | SetServerDrainingPk SetServerDraining

fun packet_ID :: "packet \<Rightarrow> uint16" where
  "packet_ID (AuthRequestPk _) = IDAuthRequest"
| "packet_ID (AuthResponsePk _) = IDAuthResponse"
| "packet_ID (RegisterServerPk _) = IDRegisterServer"
| "packet_ID (TransferRequestPk _) = IDTransferRequest"
| "packet_ID (TransferResponsePk _) = IDTransferResponse"
| "packet_ID (PlayerInfoRequestPk _) = IDPlayerInfoRequest"
| "packet_ID (PlayerInfoResponsePk _) = IDPlayerInfoResponse"
| "packet_ID (ServerListRequestPk _) = IDServerListRequest"
| "packet_ID (ServerListResponsePk _) = IDServerListResponse"
| "packet_ID (FindPlayerRequestPk _) = IDFindPlayerRequest"
| "packet_ID (FindPlayerResponsePk _) = IDFindPlayerResponse"
| "packet_ID (UpdatePlayerLatencyPk _) = IDUpdatePlayerLatency"
| "packet_ID (DisconnectPlayerPk _) = IDDisconnectPlayer"
| "packet_ID (SetServerDrainingPk _) = IDSetServerDraining"

fun Marshal :: "wire \<Rightarrow> packet \<Rightarrow> byte list" where
  "Marshal io (AuthRequestPk pk) = AuthRequest_Marshal io pk"
| "Marshal io (AuthResponsePk pk) = AuthResponse_Marshal io pk"
| "Marshal io (RegisterServerPk pk) = RegisterServer_Marshal io pk"
| "Marshal io (TransferRequestPk pk) = TransferRequest_Marshal io pk"
| "Marshal io (TransferResponsePk pk) = TransferResponse_Marshal io pk"
| "Marshal io (PlayerInfoRequestPk pk) = PlayerInfoRequest_Marshal io pk"
| "Marshal io (PlayerInfoResponsePk pk) = PlayerInfoResponse_Marshal io pk"
| "Marshal io (ServerListRequestPk pk) = ServerListRequest_Marshal io pk"
| "Marshal io (ServerListResponsePk pk) = ServerListResponse_Marshal io pk"
| "Marshal io (FindPlayerRequestPk pk) = FindPlayerRequest_Marshal io pk"
| "Marshal io (FindPlayerResponsePk pk) = FindPlayerResponse_Marshal io pk"
| "Marshal io (UpdatePlayerLatencyPk pk) = UpdatePlayerLatency_Marshal io pk"
| "Marshal io (DisconnectPlayerPk pk) = DisconnectPlayer_Marshal io pk"
| "Marshal io (SetServerDrainingPk pk) = SetServerDraining_Marshal io pk"

fun Unmarshal :: "wire \<Rightarrow> packet \<Rightarrow> byte list \<Rightarrow> packet unmarshal" where
  "Unmarshal io (AuthRequestPk pk) bs = apfst AuthRequestPk (AuthRequest_Unmarshal io pk bs)"
| "Unmarshal io (AuthResponsePk pk) bs = apfst AuthResponsePk (AuthResponse_Unmarshal io pk bs)"
| "Unmarshal io (RegisterServerPk pk) bs = apfst RegisterServerPk (RegisterServer_Unmarshal io pk bs)"
| "Unmarshal io (TransferRequestPk pk) bs = apfst TransferRequestPk (TransferRequest_Unmarshal io pk bs)"
| "Unmarshal io (TransferResponsePk pk) bs = apfst TransferResponsePk (TransferResponse_Unmarshal io pk bs)"
| "Unmarshal io (PlayerInfoRequestPk pk) bs = apfst PlayerInfoRequestPk (PlayerInfoRequest_Unmarshal io pk bs)"
| "Unmarshal io (PlayerInfoResponsePk pk) bs = apfst PlayerInfoResponsePk (PlayerInfoResponse_Unmarshal io pk bs)"
| "Unmarshal io (ServerListRequestPk pk) bs = apfst ServerListRequestPk (ServerListRequest_Unmarshal io pk bs)"
| "Unmarshal io (ServerListResponsePk pk) bs = apfst ServerListResponsePk (ServerListResponse_Unmarshal io pk bs)"
| "Unmarshal io (FindPlayerRequestPk pk) bs = apfst FindPlayerRequestPk (FindPlayerRequest_Unmarshal io pk bs)"
| "Unmarshal io (FindPlayerResponsePk pk) bs = apfst FindPlayerResponsePk (FindPlayerResponse_Unmarshal io pk bs)"
| "Unmarshal io (UpdatePlayerLatencyPk pk) bs = apfst UpdatePlayerLatencyPk (UpdatePlayerLatency_Unmarshal io pk bs)"
| "Unmarshal io (DisconnectPlayerPk pk) bs = apfst DisconnectPlayerPk (DisconnectPlayer_Unmarshal io pk bs)"
| "Unmarshal io (SetServerDrainingPk pk) bs = apfst SetServerDrainingPk (SetServerDraining_Unmarshal io pk bs)"

fun packet_fits :: "packet \<Rightarrow> bool" where
  "packet_fits (AuthRequestPk pk) = AuthRequest_fits pk"
| "packet_fits (RegisterServerPk pk) = RegisterServer_fits pk"
| "packet_fits (TransferRequestPk pk) = TransferRequest_fits pk"
| "packet_fits (TransferResponsePk pk) = TransferResponse_fits pk"
| "packet_fits (PlayerInfoResponsePk pk) = PlayerInfoResponse_fits pk"
| "packet_fits (ServerListResponsePk pk) = ServerListResponse_fits pk"
| "packet_fits (FindPlayerRequestPk pk) = FindPlayerRequest_fits pk"
| "packet_fits (FindPlayerResponsePk pk) = FindPlayerResponse_fits pk"
| "packet_fits (DisconnectPlayerPk pk) = DisconnectPlayer_fits pk"
| "packet_fits _ = True"

fun packet_vis :: "packet \<Rightarrow> packet" where
  "packet_vis (TransferResponsePk pk) = TransferResponsePk (TransferResponse_vis pk)"
| "packet_vis (FindPlayerResponsePk pk) = FindPlayerResponsePk (FindPlayerResponse_vis pk)"
| "packet_vis pk = pk"

text \<open>The packets of the type switch in \<^verbatim>\<open>pool.go\<close>, each a zero value.\<close>

definition registered_packets :: "(uint16 \<times> packet) list" where
  "registered_packets =
     [(IDAuthRequest, AuthRequestPk \<lparr>aq_Protocol = 0, aq_Secret = [], aq_Name = []\<rparr>),
      (IDAuthResponse, AuthResponsePk \<lparr>ar_Protocol = 0, ar_Status = 0\<rparr>),
      (IDRegisterServer, RegisterServerPk \<lparr>rs_Address = [], rs_Transport = [], rs_LegacyAuth = False, rs_Group = [], rs_Weight = 0\<rparr>),
      (IDTransferRequest, TransferRequestPk \<lparr>tq_PlayerUUID = 0, tq_Server = []\<rparr>),
      (IDTransferResponse, TransferResponsePk \<lparr>tr_PlayerUUID = 0, tr_Status = 0, tr_Error = []\<rparr>),
      (IDPlayerInfoRequest, PlayerInfoRequestPk \<lparr>iq_PlayerUUID = 0\<rparr>),
      (IDPlayerInfoResponse, PlayerInfoResponsePk \<lparr>ir_PlayerUUID = 0, ir_Status = 0, ir_XUID = [], ir_Address = []\<rparr>),
      (IDServerListRequest, ServerListRequestPk ServerListRequest),
      (IDServerListResponse, ServerListResponsePk \<lparr>lr_Servers = []\<rparr>),
      (IDFindPlayerRequest, FindPlayerRequestPk \<lparr>fq_PlayerUUID = 0, fq_PlayerName = []\<rparr>),
      (IDFindPlayerResponse, FindPlayerResponsePk \<lparr>fr_PlayerUUID = 0, fr_PlayerName = [], fr_Online = False, fr_Server = [], fr_Proxy = []\<rparr>),
      (IDUpdatePlayerLatency, UpdatePlayerLatencyPk \<lparr>ul_PlayerUUID = 0, ul_Latency = 0\<rparr>),
      (IDDisconnectPlayer, DisconnectPlayerPk \<lparr>dp_PlayerName = []\<rparr>),
      (IDSetServerDraining, SetServerDrainingPk \<lparr>sd_Draining = False\<rparr>)]"

type_synonym pool = "uint16 \<rightharpoonup> packet"

definition Register :: "uint16 \<Rightarrow> packet \<Rightarrow> pool \<Rightarrow> pool" where
  "Register pid pk registered = registered(pid \<mapsto> pk)"

definition registeredPackets :: pool where
  "registeredPackets = fold (\<lambda>(pid, pk). Register pid pk) registered_packets Map.empty"

text \<open>\<^verbatim>\<open>NewPool\<close> makes a packet of each registered kind; the order of the loop does not matter, as
  the identifiers are distinct.\<close>

definition NewPool :: pool where
  "NewPool = registeredPackets"

lemma packet_ID_less: "unat (packet_ID pk) < 14"
  by (cases pk) (simp_all add: ID_defs)

lemmas codec_round_trips =
  auth_request_codec.round_trip
  auth_response_codec.round_trip
  register_server_codec.round_trip
  transfer_request_codec.round_trip
  transfer_response_codec.round_trip
  info_request_codec.round_trip
  info_response_codec.round_trip
  list_request_codec.round_trip
  list_response_codec.round_trip
  find_request_codec.round_trip
  find_response_codec.round_trip
  latency_codec.round_trip
  disconnect_player_codec.round_trip
  draining_codec.round_trip

lemma lift_round_trip:
  assumes "\<exists>p'. u = (p', Some rest) \<and> v p' = v p" "\<And>q. V (K q) = K (v q)"
  shows "\<exists>pk'. apfst K u = (pk', Some rest) \<and> V pk' = V (K p)"
  using assms by auto

interpretation packets: codec Marshal Unmarshal packet_fits packet_vis packet_ID
proof
  fix io rest pk old
  assume "wire_laws io" "packet_fits pk" "packet_ID old = packet_ID pk"
  then show "\<exists>pk'. Unmarshal io old (Marshal io pk @ rest) = (pk', Some rest) \<and>
      packet_vis pk' = packet_vis pk"
    by (cases pk; cases old; simp add: ID_defs del: packet_vis.simps;
        intro lift_round_trip; simp add: codec_round_trips [simplified])
next
  fix io pk
  show "Marshal io (packet_vis pk) = Marshal io pk"
    by (cases pk)
      (simp_all add: transfer_response_codec.marshal_vis find_response_codec.marshal_vis)
qed

section \<open>The pool\<close>

lemmas NewPool_unfold = NewPool_def registeredPackets_def registered_packets_def Register_def

lemma NewPool_ID: "NewPool pid = Some pk \<Longrightarrow> packet_ID pk = pid"
  by (auto simp: NewPool_unfold split: if_splits)

lemma NewPool_complete: "\<exists>old. NewPool (packet_ID pk) = Some old"
  by (cases pk) (simp_all add: NewPool_unfold ID_defs)

lemma ID_Unmarshal [simp]: "packet_ID (fst (Unmarshal io pk bs)) = packet_ID pk"
  by (cases pk) simp_all

section \<open>The list of servers\<close>

text \<open>What the bound below relies on: the reader takes at least one byte for a string and does not
  give bytes back.\<close>

definition wire_progress :: "wire \<Rightarrow> bool" where
  "wire_progress io \<longleftrightarrow>
     (\<forall>bs v rest. get_str io bs = Some (v, rest) \<longrightarrow> length rest < length bs) \<and>
     (\<forall>bs v rest. get_i64 io bs = Some (v, rest) \<longrightarrow> length rest \<le> length bs) \<and>
     (\<forall>bs v rest. get_u32 io bs = Some (v, rest) \<longrightarrow> length rest \<le> length bs)"

text \<open>Entries read so far and bytes left.\<close>

definition list_size :: "ServerListResponse unmarshal \<Rightarrow> nat" where
  "list_size st = length (lr_Servers (fst st)) + (case snd st of None \<Rightarrow> 0 | Some bs \<Rightarrow> length bs)"

lemma list_size_read_entry: "wire_progress io \<Longrightarrow> list_size (read_entry io st) \<le> list_size st"
proof (cases "snd st")
  case None
  then show ?thesis by (cases st) simp
next
  case (Some bs)
  assume "wire_progress io"
  with Some show ?thesis
    by (cases st) (fastforce simp: list_size_def field_def wire_progress_def
        split: option.splits prod.splits)
qed

lemma list_size_read_entries: "wire_progress io \<Longrightarrow> list_size (read_entries io n st) \<le> list_size st"
proof (induction n arbitrary: st)
  case (Suc n)
  from Suc.IH [OF Suc.prems] list_size_read_entry [OF Suc.prems] show ?case
    by (metis order_trans read_entries.simps(2))
qed simp

section \<open>Properties\<close>

text \<open>A hostile length field cannot make the reader of a server list allocate: whatever the count
  on the wire says, and whether or not the reader panics, the list holds no more entries than
  the packet has bytes, or is the old list when not even the count could be read.\<close>

lemma ServerListResponse_bounded:
  assumes "wire_progress io"
  shows "length (lr_Servers (fst (ServerListResponse_Unmarshal io pk bs))) \<le> length bs \<or>
    fst (ServerListResponse_Unmarshal io pk bs) = pk"
proof (cases "get_u32 io bs")
  case None
  then show ?thesis by (simp add: ServerListResponse_Unmarshal_def)
next
  case (Some lr)
  obtain l rest where lr: "lr = (l, rest)" by fastforce
  have "list_size (read_entries io (unat l) (pk\<lparr>lr_Servers := []\<rparr>, Some rest)) \<le> length rest"
    using list_size_read_entries [OF assms] by (rule order_trans) (simp add: list_size_def)
  moreover have "length rest \<le> length bs"
    using assms Some by (auto simp: wire_progress_def lr)
  ultimately show ?thesis
    by (simp add: ServerListResponse_Unmarshal_def Some lr list_size_def)
qed

section \<open>Witnesses\<close>

lemma get_var_progress: "get_var k bs = Some (n, rest) \<Longrightarrow> length rest < length bs"
  by (induction k bs arbitrary: n rule: get_var.induct) (fastforce split: if_splits option.splits)+

lemma bedrock_wire_progress: "wire_progress bedrock_wire"
  using get_var_progress [of 5]
  by (fastforce simp: wire_progress_def bedrock_wire_def get_le_def get_string_def
      split: if_splits option.splits)

end
