(* ===== verification/ClientConn.thy ===== *)
theory ClientConn
  imports Packets
begin

text \<open>
  The connection of a backend to the proxy's socket (\<^verbatim>\<open>socket/client.go\<close>): frames of a 4-byte
  length, a 2-byte packet identifier and the packet. The incoming side of the connection is the
  bytes that arrive before reading fails, with the error it then fails with, for ever; the outgoing
  side is the bytes written. \<open>io\<close> is the reader and writer of fields of \<open>Wire\<close>.
\<close>

section \<open>The code\<close>

datatype io_error = EOF | ErrUnexpectedEOF | ErrTimeout | ErrClosed | ErrOther string

datatype read_error =
    ReadIO io_error
  | TooLarge uint32
  | UnknownPacket uint16
  | UnmarshalPanic packet
  | StillUnread nat

record Client =
  cl_in :: "byte list"
  cl_inErr :: io_error
  cl_out :: "byte list"
  cl_pool :: pool
  cl_hdr :: Header
  cl_buf :: "byte list"
  cl_name :: string
  cl_authenticated :: bool
  cl_closed :: bool

definition NewClient :: "byte list \<Rightarrow> io_error \<Rightarrow> Client" where
  "NewClient input err =
     \<lparr>cl_in = input, cl_inErr = err, cl_out = [], cl_pool = NewPool, cl_hdr = \<lparr>PacketID = 0\<rparr>,
      cl_buf = [], cl_name = [], cl_authenticated = False, cl_closed = False\<rparr>"

text \<open>Closing the connection: reading then fails with the closed-connection error.\<close>

definition Client_Close :: "Client \<Rightarrow> Client" where
  "Client_Close c = c\<lparr>cl_closed := True, cl_in := [], cl_inErr := ErrClosed\<rparr>"

definition Authenticate :: "string \<Rightarrow> Client \<Rightarrow> Client" where
  "Authenticate name c =
     (if \<not> cl_authenticated c then c\<lparr>cl_authenticated := True, cl_name := name\<rparr> else c)"

definition maxPacketSize :: uint32 where
  "maxPacketSize = push_bit 20 1"

text \<open>\<^verbatim>\<open>io.ReadFull\<close>: the end of the stream in the middle of the bytes asked for is an unexpected one.\<close>

definition ReadFull :: "nat \<Rightarrow> Client \<Rightarrow> (io_error + byte list) \<times> Client" where
  "ReadFull n c =
     (if n \<le> length (cl_in c) then (Inr (take n (cl_in c)), c\<lparr>cl_in := drop n (cl_in c)\<rparr>)
      else (Inl (if cl_inErr c = EOF \<and> cl_in c \<noteq> [] then ErrUnexpectedEOF else cl_inErr c),
            c\<lparr>cl_in := []\<rparr>))"

definition read_payload :: "wire \<Rightarrow> byte list \<Rightarrow> Client \<Rightarrow> (read_error + packet) \<times> Client" where
  "read_payload io data c =
     (case Header_Read data of
        None \<Rightarrow> (Inl (ReadIO EOF), c)
      | Some (header, buf) \<Rightarrow>
          (case cl_pool c (PacketID header) of
             None \<Rightarrow> (Inl (UnknownPacket (PacketID header)), c)
           | Some pk \<Rightarrow>
               (case Unmarshal io pk buf of (pk, left) \<Rightarrow>
                  let c = c\<lparr>cl_pool := (cl_pool c)(PacketID header \<mapsto> pk)\<rparr> in
                  (case left of
                     None \<Rightarrow> (Inl (UnmarshalPanic pk), c)
                   | Some left \<Rightarrow>
                       if length left > 0 then (Inl (StillUnread (length left)), c)
                       else (Inr pk, c)))))"

definition ReadPacket :: "wire \<Rightarrow> Client \<Rightarrow> (read_error + packet) \<times> Client" where
  "ReadPacket io c =
     (case ReadFull 4 c of
        (Inl err, c) \<Rightarrow> (Inl (ReadIO err), c)
      | (Inr bs, c) \<Rightarrow>
          let l = le_word bs :: uint32 in
          if l > maxPacketSize then (Inl (TooLarge l), c)
          else (case ReadFull (unat l) c of
                  (Inl err, c) \<Rightarrow> (Inl (ReadIO err), c)
                | (Inr data, c) \<Rightarrow> read_payload io data c))"

text \<open>\<^verbatim>\<open>WritePacket\<close>. The outcome of the write to the connection is an argument: how many bytes
  went out, and the error if not all of them.\<close>

definition framed :: "byte list \<Rightarrow> byte list" where
  "framed buf = word_le 4 (of_nat (length buf) :: uint32) @ buf"

definition WritePacket ::
  "wire \<Rightarrow> packet \<Rightarrow> nat \<times> io_error option \<Rightarrow> Client \<Rightarrow> io_error option \<times> Client" where
  "WritePacket io pk outcome c =
     (let hdr = (cl_hdr c)\<lparr>PacketID := packet_ID pk\<rparr>;
          buf = cl_buf c @ Header_Write hdr @ Marshal io pk;
          (n, err) = outcome
      in (err, c\<lparr>cl_hdr := hdr, cl_out := cl_out c @ take n (framed buf), cl_buf := []\<rparr>))"

section \<open>Sending and receiving several packets\<close>

fun send_all :: "wire \<Rightarrow> packet list \<Rightarrow> Client \<Rightarrow> Client" where
  "send_all io [] c = c"
| "send_all io (pk # pks) c =
     send_all io pks (snd (WritePacket io pk (6 + length (Marshal io pk), None) c))"

text \<open>Reading until the first error, at most \<open>n\<close> packets.\<close>

fun receive :: "wire \<Rightarrow> nat \<Rightarrow> Client \<Rightarrow> packet list \<times> Client" where
  "receive io 0 c = ([], c)"
| "receive io (Suc n) c =
     (case ReadPacket io c of
        (Inl err, c) \<Rightarrow> ([], c)
      | (Inr pk, c) \<Rightarrow> (case receive io n c of (pks, c) \<Rightarrow> (pk # pks, c)))"

text \<open>A packet that can be sent and received: its strings fit, and its frame is not too large.\<close>

definition sendable :: "wire \<Rightarrow> packet \<Rightarrow> bool" where
  "sendable io pk \<longleftrightarrow> packet_fits pk \<and> 2 + length (Marshal io pk) \<le> unat maxPacketSize"

text \<open>The pool keeps a packet of each kind under its identifier.\<close>

definition pool_wf :: "pool \<Rightarrow> bool" where
  "pool_wf pool \<longleftrightarrow>
     (\<forall>pid pk. pool pid = Some pk \<longrightarrow> packet_ID pk = pid) \<and>
     (\<forall>pk. pool (packet_ID pk) \<noteq> None)"

section \<open>Facts\<close>

lemma pool_wf_NewPool: "pool_wf NewPool"
  using NewPool_ID NewPool_complete by (fastforce simp: pool_wf_def)

lemma pool_wf_update: "pool_wf pool \<Longrightarrow> packet_ID pk = pid \<Longrightarrow> pool_wf (pool(pid \<mapsto> pk))"
  by (auto simp: pool_wf_def)

lemma ReadFull_append:
  "cl_in c = bs @ rest \<Longrightarrow> length bs = n \<Longrightarrow> ReadFull n c = (Inr bs, c\<lparr>cl_in := rest\<rparr>)"
  by (simp add: ReadFull_def)

lemma unat_maxPacketSize: "unat maxPacketSize = 1048576"
  by (simp add: maxPacketSize_def)

lemma read_payload_Marshal:
  assumes io: "wire_laws io" and pk: "packet_fits pk" and pool: "pool_wf (cl_pool c)"
  shows "\<exists>pk' c'. read_payload io (Header_Write \<lparr>PacketID = packet_ID pk\<rparr> @ Marshal io pk) c = (Inr pk', c') \<and>
    packet_vis pk' = packet_vis pk \<and> cl_in c' = cl_in c \<and> pool_wf (cl_pool c')"
proof -
  obtain old where old: "cl_pool c (packet_ID pk) = Some old" "packet_ID old = packet_ID pk"
    using pool by (fastforce simp: pool_wf_def)
  obtain pk' where un: "Unmarshal io old (Marshal io pk) = (pk', Some [])"
    and vis: "packet_vis pk' = packet_vis pk"
    using packets.round_trip [OF io pk old(2), of "[]"] by auto
  have "packet_ID pk' = packet_ID pk" using ID_Unmarshal [of io old "Marshal io pk"] un old by simp
  with pool_wf_update [OF pool, of pk' "packet_ID pk"] old un vis show ?thesis
    by (simp add: read_payload_def)
qed

lemma ReadPacket_framed:
  assumes io: "wire_laws io" and pk: "sendable io pk" and pool: "pool_wf (cl_pool c)"
    and in_c: "cl_in c = framed (Header_Write \<lparr>PacketID = packet_ID pk\<rparr> @ Marshal io pk) @ rest"
  shows "\<exists>pk' c'. ReadPacket io c = (Inr pk', c') \<and> packet_vis pk' = packet_vis pk \<and>
    cl_in c' = rest \<and> pool_wf (cl_pool c')"
proof -
  let ?data = "Header_Write \<lparr>PacketID = packet_ID pk\<rparr> @ Marshal io pk"
  let ?l = "of_nat (length ?data) :: uint32"
  have len: "length ?data = 2 + length (Marshal io pk)" by (simp add: Header_Write_def)
  then have "length ?data < 2 ^ LENGTH(32)"
    using pk by (simp add: sendable_def unat_maxPacketSize)
  then have l: "unat ?l = length ?data" by (simp only: unat_of_nat mod_less)
  have small: "\<not> ?l > maxPacketSize"
    using pk l len by (simp add: sendable_def word_less_nat_alt)
  have "ReadFull 4 c = (Inr (word_le 4 ?l), c\<lparr>cl_in := ?data @ rest\<rparr>)"
    using in_c by (intro ReadFull_append) (simp_all add: framed_def)
  moreover have "ReadFull (unat ?l) (c\<lparr>cl_in := ?data @ rest\<rparr>) =
      (Inr ?data, c\<lparr>cl_in := ?data @ rest, cl_in := rest\<rparr>)"
    using l by (intro ReadFull_append) simp_all
  moreover have "le_word (word_le 4 ?l) = ?l" by (rule le_word_id) simp
  ultimately have "ReadPacket io c = read_payload io ?data (c\<lparr>cl_in := rest\<rparr>)"
    using small by (simp add: ReadPacket_def)
  with read_payload_Marshal [OF io, of pk "c\<lparr>cl_in := rest\<rparr>"] pk pool show ?thesis
    by (simp add: sendable_def)
qed

lemma cl_out_send_all:
  "cl_buf c = [] \<Longrightarrow> cl_out (send_all io pks c) =
     cl_out c @ concat (map (\<lambda>pk. framed (Header_Write \<lparr>PacketID = packet_ID pk\<rparr> @ Marshal io pk)) pks)"
proof (induction pks arbitrary: c)
  case (Cons pk pks)
  have hdr: "(cl_hdr c)\<lparr>PacketID := packet_ID pk\<rparr> = \<lparr>PacketID = packet_ID pk\<rparr>"
    by (cases "cl_hdr c") simp
  have "snd (WritePacket io pk (6 + length (Marshal io pk), None) c) =
      c\<lparr>cl_hdr := \<lparr>PacketID = packet_ID pk\<rparr>, cl_out := cl_out c @
        framed (Header_Write \<lparr>PacketID = packet_ID pk\<rparr> @ Marshal io pk), cl_buf := []\<rparr>"
    using Cons.prems by (simp add: WritePacket_def hdr framed_def Header_Write_def)
  with Cons.IH show ?case by simp
qed simp

lemma receive_framed:
  assumes io: "wire_laws io" and pks: "\<forall>pk \<in> set pks. sendable io pk" and pool: "pool_wf (cl_pool c)"
    and in_c: "cl_in c = concat
      (map (\<lambda>pk. framed (Header_Write \<lparr>PacketID = packet_ID pk\<rparr> @ Marshal io pk)) pks) @ rest"
  shows "\<exists>qs c'. receive io (length pks) c = (qs, c') \<and>
    map packet_vis qs = map packet_vis pks \<and> cl_in c' = rest"
  using pks pool in_c
proof (induction pks arbitrary: c)
  case (Cons pk pks)
  obtain pk' c' where r: "ReadPacket io c = (Inr pk', c')" "packet_vis pk' = packet_vis pk"
    and c': "cl_in c' = concat (map (\<lambda>pk. framed
      (Header_Write \<lparr>PacketID = packet_ID pk\<rparr> @ Marshal io pk)) pks) @ rest"
      "pool_wf (cl_pool c')"
    using ReadPacket_framed [OF io, of pk c] Cons.prems by auto
  from Cons.IH [OF _ c'(2,1)] Cons.prems(1) obtain qs c'' where
    "receive io (length pks) c' = (qs, c'')" "map packet_vis qs = map packet_vis pks" "cl_in c'' = rest"
    by auto
  with r show ?case by simp
qed simp

lemma read_payload_frame:
  assumes "read_payload io data c = (r, c')"
  shows "cl_in c' = cl_in c \<and> cl_inErr c' = cl_inErr c \<and> cl_out c' = cl_out c \<and>
    cl_name c' = cl_name c \<and> cl_authenticated c' = cl_authenticated c \<and> cl_closed c' = cl_closed c"
  using assms
  by (auto simp: read_payload_def Let_def split: option.splits prod.splits if_splits)

lemma read_payload_known:
  assumes "Header_Read data = Some (header, buf)" "cl_pool c (PacketID header) = Some pk"
    and "Unmarshal io pk buf = (pk', left)" "read_payload io data c = (r, c')"
  shows "cl_pool c' = (cl_pool c)(PacketID header \<mapsto> pk') \<and> (r = Inr q \<longrightarrow> q = pk')"
  using assms(4)
  by (simp add: read_payload_def assms(1-3) Let_def split: option.splits if_splits) auto

lemma read_payload_unknown:
  assumes "\<And>header buf. Header_Read data = Some (header, buf) \<Longrightarrow> cl_pool c (PacketID header) = None"
    and "read_payload io data c = (r, c')"
  shows "c' = c \<and> (\<exists>err. r = Inl err)"
  using assms(2) assms(1)
  by (cases "Header_Read data") (auto simp: read_payload_def)

lemma read_payload_pool:
  assumes rp: "read_payload io data c = (r, c')" and wf: "pool_wf (cl_pool c)"
  shows "pool_wf (cl_pool c')"
proof (cases "\<exists>header buf pk. Header_Read data = Some (header, buf) \<and> cl_pool c (PacketID header) = Some pk")
  case True
  then obtain header buf pk pk' left where k: "Header_Read data = Some (header, buf)"
    "cl_pool c (PacketID header) = Some pk" "Unmarshal io pk buf = (pk', left)"
    by (metis surj_pair)
  have "packet_ID pk' = PacketID header"
    using k(2) wf ID_Unmarshal [of io pk buf] k(3) by (simp add: pool_wf_def)
  from pool_wf_update [OF wf this] read_payload_known [OF k rp] show ?thesis by simp
next
  case False
  then have "c' = c" using read_payload_unknown [OF _ rp] by fastforce
  with wf show ?thesis by simp
qed

lemma ReadFull_cases:
  assumes "ReadFull n c = (r, c')"
  obtains (ok) bs where "r = Inr bs" "length bs = n" "cl_in c = bs @ cl_in c'"
      "c' = c\<lparr>cl_in := cl_in c'\<rparr>"
    | (short) err where "r = Inl err" "length (cl_in c) < n" "c' = c\<lparr>cl_in := []\<rparr>"
  using assms by (auto simp: ReadFull_def not_le split: if_splits)

text \<open>The four ways a call of \<open>ReadPacket\<close> can go.\<close>

lemma ReadPacket_cases:
  assumes "ReadPacket io c = (r, c')"
  obtains (io_error) err where "r = Inl (ReadIO err)" "c' = c\<lparr>cl_in := []\<rparr>"
    | (too_large) bs rest where "length bs = 4" "cl_in c = bs @ rest" "le_word bs > maxPacketSize"
        "r = Inl (TooLarge (le_word bs))" "c' = c\<lparr>cl_in := rest\<rparr>"
    | (payload) bs data rest where "length bs = 4" "cl_in c = bs @ data @ rest"
        "length data = unat (le_word bs :: uint32)" "le_word bs \<le> maxPacketSize"
        "read_payload io data (c\<lparr>cl_in := rest\<rparr>) = (r, c')"
proof -
  obtain r1 c1 where r1: "ReadFull 4 c = (r1, c1)" by fastforce
  then show thesis
  proof (cases rule: ReadFull_cases)
    case (short err)
    have "(r, c') = (Inl (ReadIO err), c1)"
      unfolding assms [symmetric] ReadPacket_def r1 short(1) by simp
    with short(3) show thesis by (intro io_error) simp_all
  next
    case (ok bs)
    have c1: "c1 = c\<lparr>cl_in := cl_in c1\<rparr>" by (rule ok(4))
    let ?l = "le_word bs :: uint32"
    have step: "(r, c') = (if ?l > maxPacketSize then (Inl (TooLarge ?l), c1)
        else case ReadFull (unat ?l) c1 of (Inl err, c) \<Rightarrow> (Inl (ReadIO err), c)
          | (Inr data, c) \<Rightarrow> read_payload io data c)"
      unfolding assms [symmetric] ReadPacket_def r1 ok(1) by (simp add: Let_def)
    show thesis
    proof (cases "?l > maxPacketSize")
      case True
      with step have "r = Inl (TooLarge ?l)" "c' = c1" by simp_all
      with True ok(2,3) c1 show thesis by (intro too_large) simp_all
    next
      case False
      obtain r2 c2 where r2: "ReadFull (unat ?l) c1 = (r2, c2)" by fastforce
      then show thesis
      proof (cases rule: ReadFull_cases)
        case (short err)
        have "c2 = c\<lparr>cl_in := []\<rparr>" unfolding short(3) by (subst c1) simp
        moreover from step False r2 short(1) have "r = Inl (ReadIO err)" "c' = c2" by simp_all
        ultimately show thesis by (intro io_error) simp_all
      next
        case ok2: (ok data)
        have "c2 = c\<lparr>cl_in := cl_in c2\<rparr>" by (subst ok2(4), subst c1) simp
        moreover from step False r2 ok2(1) have "read_payload io data c2 = (r, c')" by simp
        ultimately have "read_payload io data (c\<lparr>cl_in := cl_in c2\<rparr>) = (r, c')" by metis
        with False ok(2,3) ok2(2,3) show thesis by (intro payload) (simp_all add: not_less)
      qed
    qed
  qed
qed

section \<open>Properties\<close>

text \<open>C10: what one side sends, the other receives: packets that are written one after the other to a
  connection are read at the other end in the same order, none lost, none split, every field
  that is sent with its value, and the bytes that follow are left for the next call. Each packet's
  strings must be acceptable to the reader, and its frame at most one mebibyte.\<close>

theorem send_receive:
  assumes "wire_laws io" "\<forall>pk \<in> set pks. sendable io pk"
  shows "\<exists>qs b. receive io (length pks)
      (NewClient (cl_out (send_all io pks (NewClient input e)) @ rest) e') = (qs, b) \<and>
    map packet_vis qs = map packet_vis pks \<and> cl_in b = rest"
proof -
  have "cl_out (send_all io pks (NewClient input e)) = concat
      (map (\<lambda>pk. framed (Header_Write \<lparr>PacketID = packet_ID pk\<rparr> @ Marshal io pk)) pks)"
    using cl_out_send_all [of "NewClient input e" io pks] by (simp add: NewClient_def)
  then show ?thesis
    using assms pool_wf_NewPool by (intro receive_framed) (simp_all add: NewClient_def)
qed

text \<open>C29: reading hostile bytes is safe: a call takes at most the length and one mebibyte from the
  connection, never reorders what is left, fails with an error value when the length is too
  large (having taken just the length), makes progress unless the connection itself failed or the
  frame has no identifier, changes neither the client's name nor whether it is authenticated, and
  leaves a pool in which every identifier still finds a packet of its kind.\<close>

theorem ReadPacket_safe:
  assumes "pool_wf (cl_pool c)" "ReadPacket io c = (r, c')"
  shows "pool_wf (cl_pool c') \<and>
    cl_name c' = cl_name c \<and> cl_authenticated c' = cl_authenticated c \<and> cl_out c' = cl_out c \<and>
    ((\<exists>e. r = Inl (ReadIO e)) \<and> cl_in c' = [] \<or>
     (\<exists>taken. cl_in c = taken @ cl_in c' \<and> 4 \<le> length taken \<and> length taken \<le> 4 + 2 ^ 20 \<and>
        (\<forall>l. r = Inl (TooLarge l) \<longrightarrow> length taken = 4 \<and> unat l > 2 ^ 20)))"
  using assms(2)
proof (cases rule: ReadPacket_cases)
  case (io_error err)
  with assms(1) show ?thesis by simp
next
  case (too_large bs rest)
  then have "unat (le_word bs :: uint32) > 2 ^ 20"
    by (simp add: word_less_nat_alt unat_maxPacketSize)
  with too_large assms(1) show ?thesis by (simp add: exI [of _ bs])
next
  case (payload bs data rest)
  then have "length (bs @ data) \<le> 4 + 2 ^ 20"
    by (simp add: word_le_nat_alt unat_maxPacketSize)
  moreover have "cl_in c = (bs @ data) @ cl_in c'"
    using payload(2) read_payload_frame [OF payload(5)] by simp
  moreover have "r \<noteq> Inl (TooLarge l)" for l
    using payload(5)
    by (auto simp: read_payload_def Let_def split: option.splits prod.splits if_splits)
  ultimately show ?thesis
    using payload(1) read_payload_frame [OF payload(5)] read_payload_pool [OF payload(5)] assms(1)
    by (intro conjI disjI2 exI [of _ "bs @ data"]) simp_all
qed

section \<open>Witnesses\<close>

definition ex_request :: packet where
  "ex_request = AuthRequestPk \<lparr>aq_Protocol = 3, aq_Secret = ''s3cret'', aq_Name = ''Lobby-1''\<rparr>"

definition ex_response :: packet where
  "ex_response = TransferResponsePk \<lparr>tr_PlayerUUID = 7, tr_Status = TransferResponseSuccess, tr_Error = ''old''\<rparr>"

lemma length_put_var: "length (put_var k n) \<le> k"
  by (induction k n rule: put_var.induct) auto

lemma sendable_ex: "\<forall>pk \<in> set [ex_request, ex_response]. sendable bedrock_wire pk"
  using length_put_var [of 5 "length ''s3cret''"] length_put_var [of 5 "length ''Lobby-1''"]
  by (simp add: sendable_def unat_maxPacketSize ex_request_def ex_response_def AuthRequest_fits_def
      TransferResponse_fits_def str_ok_def AuthRequest_Marshal_def TransferResponse_Marshal_def
      bedrock_wire_def put_string_def TransferResponseSuccess_def TransferResponseError_def)

theorem send_receive_witness:
  "\<exists>qs b. receive bedrock_wire 2
      (NewClient (cl_out (send_all bedrock_wire [ex_request, ex_response] (NewClient [] EOF)) @ [1, 2]) EOF) =
        (qs, b) \<and>
    map packet_vis qs = map packet_vis [ex_request, ex_response] \<and> cl_in b = [1, 2]"
  using send_receive [OF bedrock_wire_laws sendable_ex, of "[]" EOF "[1, 2]" EOF]
  by (simp add: numeral_2_eq_2)

theorem ReadPacket_safe_witness:
  "\<exists>r c'. ReadPacket bedrock_wire (NewClient [255, 255, 255, 255, 9] EOF) = (r, c') \<and>
     pool_wf (cl_pool c') \<and> \<not> cl_authenticated c' \<and> r = Inl (TooLarge (- 1)) \<and> cl_in c' = [9]"
proof -
  let ?c = "NewClient [255, 255, 255, 255, 9] EOF"
  obtain r c' where rc: "ReadPacket bedrock_wire ?c = (r, c')" by fastforce
  then have "r = Inl (TooLarge (- 1))" "cl_in c' = [9]"
    by (auto simp: ReadPacket_def ReadFull_def NewClient_def maxPacketSize_def)
  moreover have "pool_wf (cl_pool c') \<and> cl_authenticated c' = cl_authenticated ?c"
    using ReadPacket_safe [OF _ rc] pool_wf_NewPool by (simp add: NewClient_def)
  ultimately show ?thesis using rc by (simp add: NewClient_def)
qed

end
