(* ===== verification/NetAddr.thy ===== *)
theory NetAddr
  imports Prelude
begin

text \<open>
  Network addresses. \<open>SplitHostPort\<close> is \<^verbatim>\<open>net.SplitHostPort\<close> of the standard library (\<open>None\<close> is its
  error); \<open>hostOf\<close> (\<^verbatim>\<open>socket/auth_throttle.go\<close>), \<open>ipHostOf\<close> and \<open>netherNetHostOf\<close>
  (\<^verbatim>\<open>session/ip_guard.go\<close>) reduce an address to the host that limits are counted for.
\<close>

section \<open>Splitting host and port\<close>

text \<open>The part before and after the last occurrence of a character.\<close>

definition cut_last :: "string \<Rightarrow> char \<Rightarrow> (string \<times> string) option" where
  "cut_last s c =
     (case Cut (rev s) c of (a, b, found) \<Rightarrow> if found then Some (rev b, rev a) else None)"

definition SplitHostPort :: "string \<Rightarrow> (string \<times> string) option" where
  "SplitHostPort hostport =
     (case cut_last hostport (CHR '':'') of
        None \<Rightarrow> None
      | Some (before, port) \<Rightarrow>
          if HasPrefix hostport ''['' then
            (case Cut hostport (CHR '']'') of (inner, rest, found) \<Rightarrow>
               if \<not> found \<or> rest \<noteq> CHR '':'' # port then None
               else if CHR ''['' \<in> set (tl hostport) \<or> CHR '']'' \<in> set rest then None
               else Some (tl inner, port))
          else if CHR '':'' \<in> set before then None
          else if CHR ''['' \<in> set hostport \<or> CHR '']'' \<in> set hostport then None
          else Some (before, port))"

definition hostOf :: "string \<Rightarrow> string" where
  "hostOf addr = (case SplitHostPort addr of None \<Rightarrow> addr | Some (host, port) \<Rightarrow> host)"

text \<open>A player's address: a NetherNet address, with the address of its selected ICE candidate, the
  addresses of its signaled candidates and its string form, or any other with its string form.\<close>

datatype net_addr =
    NetherNetAddr "string option" "string list" string
  | OtherAddr string

fun netherNetHostOf :: "string option \<Rightarrow> string list \<Rightarrow> string \<Rightarrow> string" where
  "netherNetHostOf (Some selected) candidates str = selected"
| "netherNetHostOf None (c # cs) str = c"
| "netherNetHostOf None [] str = str"

fun ipHostOf :: "net_addr \<Rightarrow> string" where
  "ipHostOf (NetherNetAddr selected candidates str) = netherNetHostOf selected candidates str"
| "ipHostOf (OtherAddr str) =
     (case SplitHostPort str of None \<Rightarrow> str | Some (host, port) \<Rightarrow> host)"

section \<open>Facts\<close>

definition plain :: "string \<Rightarrow> bool" where
  "plain s \<longleftrightarrow> CHR '':'' \<notin> set s \<and> CHR ''['' \<notin> set s \<and> CHR '']'' \<notin> set s"

lemma cut_last_append: "c \<notin> set b \<Longrightarrow> cut_last (a @ c # b) c = Some (a, b)"
proof -
  assume "c \<notin> set b"
  then have "Cut (rev b @ c # rev a) c = (rev b, rev a, True)" by (intro Cut_append) simp
  then show ?thesis by (simp add: cut_last_def)
qed

lemma HasPrefix_bracket: "HasPrefix s ''['' \<longleftrightarrow> (\<exists>r. s = CHR ''['' # r)"
  by (simp add: HasPrefix_iff)

lemma SplitHostPort_plain:
  assumes "plain host" "plain port"
  shows "SplitHostPort (host @ '':'' @ port) = Some (host, port)"
proof -
  have np: "\<not> HasPrefix (host @ '':'' @ port) ''[''"
    using assms by (cases host) (auto simp: HasPrefix_bracket plain_def)
  have "cut_last (host @ CHR '':'' # port) (CHR '':'') = Some (host, port)"
    using assms by (intro cut_last_append) (simp add: plain_def)
  with np assms show ?thesis by (simp add: SplitHostPort_def plain_def)
qed

lemma SplitHostPort_bracketed:
  assumes "CHR ''['' \<notin> set host" "CHR '']'' \<notin> set host" "plain port"
  shows "SplitHostPort (''['' @ host @ '']:'' @ port) = Some (host, port)"
proof -
  let ?s = "CHR ''['' # host @ CHR '']'' # CHR '':'' # port"
  have "cut_last ((CHR ''['' # host @ [CHR '']'']) @ CHR '':'' # port) (CHR '':'') =
      Some (CHR ''['' # host @ [CHR '']''], port)"
    using assms by (intro cut_last_append) (simp add: plain_def)
  moreover have "Cut ((CHR ''['' # host) @ CHR '']'' # CHR '':'' # port) (CHR '']'') =
      (CHR ''['' # host, CHR '':'' # port, True)"
    using assms by (intro Cut_append) simp
  ultimately show ?thesis using assms by (simp add: SplitHostPort_def plain_def)
qed

section \<open>Properties\<close>

text \<open>Limits are counted per host, not per connection: every port of an IPv4 address or host
  name is mapped to that address, every port of a bracketed IPv6 address to the address, for
  the socket's throttle and for the player listener's guard alike; a NetherNet address is
  mapped to its selected candidate and, failing that, to its first candidate.\<close>

lemma hosts_ignore_ports:
  assumes "plain port" "plain host" "CHR ''['' \<notin> set v6" "CHR '']'' \<notin> set v6"
  shows "hostOf (host @ '':'' @ port) = host \<and> ipHostOf (OtherAddr (host @ '':'' @ port)) = host \<and>
    hostOf (''['' @ v6 @ '']:'' @ port) = v6 \<and>
    ipHostOf (OtherAddr (''['' @ v6 @ '']:'' @ port)) = v6 \<and>
    ipHostOf (NetherNetAddr (Some sel) cands str) = sel \<and>
    ipHostOf (NetherNetAddr None (c # cs) str) = c"
  using SplitHostPort_plain [OF assms(2,1)] SplitHostPort_bracketed [OF assms(3,4,1)]
  by (simp add: hostOf_def)

end
