(* ===== verification/ExpiringTable.thy ===== *)
theory ExpiringTable
  imports Prelude
begin

text \<open>
  The contract behind the proxy's two rate limits, the socket's authentication throttle and the
  player listener's IP guard. Both keep an entry per host in a map, treat an entry whose window
  has passed as if it were absent, and now and then evict such entries so that the map does not
  grow without bound.

  \<open>act a now e\<close> is the effect of an action on a host's entry (\<open>None\<close>: no entry) with what the
  caller observes; \<open>stale now e\<close> says an entry may be evicted. The laws make eviction invisible,
  which the locale proves once, for every sequence of actions and sweeps in the order of time.
\<close>

datatype ('k, 'a) timed_op = Act 'k 'a | Sweep

fun ordered_from :: "time \<Rightarrow> (time \<times> 'x) list \<Rightarrow> bool" where
  "ordered_from t [] = True"
| "ordered_from t ((now, x) # ops) = (t \<le> now \<and> ordered_from now ops)"

text \<open>Running a trace: with the sweeps performed, and with the sweeps left out.\<close>

fun run_swept ::
  "('a \<Rightarrow> time \<Rightarrow> 'e option \<Rightarrow> 'e option \<times> 'o) \<Rightarrow> (time \<Rightarrow> 'e \<Rightarrow> bool) \<Rightarrow>
   (time \<times> ('k, 'a) timed_op) list \<Rightarrow> ('k \<rightharpoonup> 'e) \<Rightarrow> 'o list" where
  "run_swept act stale [] t = []"
| "run_swept act stale ((now, Act k a) # ops) t =
     snd (act a now (t k)) # run_swept act stale ops (t(k := fst (act a now (t k))))"
| "run_swept act stale ((now, Sweep) # ops) t =
     run_swept act stale ops
       (\<lambda>k. case t k of None \<Rightarrow> None | Some e \<Rightarrow> if stale now e then None else Some e)"

fun run_plain ::
  "('a \<Rightarrow> time \<Rightarrow> 'e option \<Rightarrow> 'e option \<times> 'o) \<Rightarrow>
   (time \<times> ('k, 'a) timed_op) list \<Rightarrow> ('k \<rightharpoonup> 'e) \<Rightarrow> 'o list" where
  "run_plain act [] t = []"
| "run_plain act ((now, Act k a) # ops) t =
     snd (act a now (t k)) # run_plain act ops (t(k := fst (act a now (t k))))"
| "run_plain act ((now, Sweep) # ops) t = run_plain act ops t"

text \<open>The second entry is the first one or its eviction.\<close>

definition evicted :: "('e \<Rightarrow> bool) \<Rightarrow> 'e option \<Rightarrow> 'e option \<Rightarrow> bool" where
  "evicted gone x y \<longleftrightarrow> y = x \<or> y = None \<and> (\<exists>e. x = Some e \<and> gone e)"

locale expiring_table =
  fixes act :: "'a \<Rightarrow> time \<Rightarrow> 'e option \<Rightarrow> 'e option \<times> 'o"
    and stale :: "time \<Rightarrow> 'e \<Rightarrow> bool"
  assumes stale_mono: "stale now e \<Longrightarrow> now \<le> now' \<Longrightarrow> stale now' e"
    and act_stale: "stale now e \<Longrightarrow> snd (act a now (Some e)) = snd (act a now None)"
    and act_stale_entry:
      "stale now e \<Longrightarrow> evicted (stale now) (fst (act a now (Some e))) (fst (act a now None))"
begin

lemma evicted_mono:
  "evicted (stale now) x y \<Longrightarrow> now \<le> now' \<Longrightarrow> evicted (stale now') x y"
  using stale_mono by (auto simp: evicted_def)

lemma act_evicted:
  assumes "evicted (stale now) x y"
  shows "snd (act a now x) = snd (act a now y)"
    and "evicted (stale now) (fst (act a now x)) (fst (act a now y))"
proof -
  from assms consider "y = x" | e where "x = Some e" "stale now e" "y = None"
    by (auto simp: evicted_def)
  then have "snd (act a now x) = snd (act a now y) \<and>
      evicted (stale now) (fst (act a now x)) (fst (act a now y))"
  proof cases
    case 1
    then show ?thesis by (simp add: evicted_def)
  next
    case 2
    then show ?thesis using act_stale [of now e a] act_stale_entry [of now e a] by simp
  qed
  then show "snd (act a now x) = snd (act a now y)"
    and "evicted (stale now) (fst (act a now x)) (fst (act a now y))" by auto
qed

lemma sweeps_invisible:
  assumes "ordered_from now ops" "\<And>k. evicted (stale now) (t k) (t' k)"
  shows "run_swept act stale ops t' = run_plain act ops t"
  using assms
proof (induction ops arbitrary: now t t')
  case (Cons op ops)
  obtain now' o' where op: "op = (now', o')" by fastforce
  with Cons.prems have le: "now \<le> now'" and ord: "ordered_from now' ops" by auto
  have ev: "evicted (stale now') (t k) (t' k)" for k
    using Cons.prems(2) le by (rule evicted_mono)
  show ?case
  proof (cases o')
    case (Act k a)
    have "evicted (stale now') ((t(k := fst (act a now' (t k)))) j)
        ((t'(k := fst (act a now' (t' k)))) j)" for j
      using act_evicted(2) [OF ev [of k]] ev [of j] by simp
    then have "run_swept act stale ops (t'(k := fst (act a now' (t' k)))) =
        run_plain act ops (t(k := fst (act a now' (t k))))"
      by (intro Cons.IH [OF ord])
    with act_evicted(1) [OF ev [of k], of a] show ?thesis by (simp add: op Act)
  next
    case Sweep
    have "evicted (stale now') (t k)
        (case t' k of None \<Rightarrow> None | Some e \<Rightarrow> if stale now' e then None else Some e)" for k
      using ev [of k] by (auto simp: evicted_def split: option.split)
    from Cons.IH [OF ord this] show ?thesis by (simp add: op Sweep)
  qed
qed simp

corollary sweeps_invisible_same:
  "ordered_from now ops \<Longrightarrow> run_swept act stale ops t = run_plain act ops t"
  by (rule sweeps_invisible) (auto simp: evicted_def)

end

end
