(* ===== verification/AuthThrottle.thy ===== *)
theory AuthThrottle
  imports NetAddr ExpiringTable
begin

text \<open>
  The throttle on failed socket authentications (\<^verbatim>\<open>socket/auth_throttle.go\<close>). The clock is an
  argument of each operation. The entries of the map are reached only through the map and under
  its mutex, so they are values here; the cleanup loop's ticks are explicit \<open>cleanup\<close> steps that
  may come at any time between the calls.
\<close>

section \<open>The code\<close>

definition authFailureWindow :: duration where
  "authFailureWindow = Minute"

definition authFailureLimit :: int where
  "authFailureLimit = 5"

definition authBlockDuration :: duration where
  "authBlockDuration = 5 * Minute"

record ipAuthState =
  as_failures :: int
  as_windowStart :: time
  as_blockedUntil :: time

record authThrottle =
  at_state :: "string \<rightharpoonup> ipAuthState"
  at_stopped :: bool

definition newAuthThrottle :: authThrottle where
  "newAuthThrottle = \<lparr>at_state = Map.empty, at_stopped = False\<rparr>"

definition cleanup_entry :: "time \<Rightarrow> ipAuthState \<Rightarrow> bool" where
  "cleanup_entry now s \<longleftrightarrow>
     now > as_blockedUntil s \<and> time_Sub now (as_windowStart s) > authFailureWindow"

definition cleanup :: "time \<Rightarrow> authThrottle \<Rightarrow> authThrottle" where
  "cleanup now t =
     t\<lparr>at_state := (\<lambda>host. case at_state t host of
         None \<Rightarrow> None
       | Some s \<Rightarrow> if cleanup_entry now s then None else Some s)\<rparr>"

text \<open>One turn of the cleanup loop's \<^verbatim>\<open>select\<close>: a tick cleans up, a closed stop channel ends the
  loop (\<open>None\<close>). A tick and a closed channel may both be ready; \<open>tick\<close> is the choice taken.\<close>

definition cleanupLoop_turn :: "bool \<Rightarrow> time \<Rightarrow> authThrottle \<Rightarrow> authThrottle option" where
  "cleanupLoop_turn tick now t =
     (if tick then Some (cleanup now t) else if at_stopped t then None else Some t)"

text \<open>\<^verbatim>\<open>Close\<close> closes the stop channel at most once.\<close>

definition Close_throttle :: "authThrottle \<Rightarrow> authThrottle" where
  "Close_throttle t = (if at_stopped t then t else t\<lparr>at_stopped := True\<rparr>)"

definition Blocked :: "string \<Rightarrow> time \<Rightarrow> authThrottle \<Rightarrow> bool" where
  "Blocked addr now t =
     (case at_state t (hostOf addr) of
        None \<Rightarrow> False
      | Some s \<Rightarrow> now < as_blockedUntil s)"

definition fresh_entry :: "time \<Rightarrow> ipAuthState" where
  "fresh_entry now = \<lparr>as_failures = 0, as_windowStart = now, as_blockedUntil = zero_time\<rparr>"

definition record_entry :: "time \<Rightarrow> ipAuthState option \<Rightarrow> ipAuthState" where
  "record_entry now e =
     (let s = (case e of
                 None \<Rightarrow> fresh_entry now
               | Some s \<Rightarrow> if time_Sub now (as_windowStart s) > authFailureWindow
                   then fresh_entry now else s);
          s = s\<lparr>as_failures := as_failures s + 1\<rparr>
      in if as_failures s \<ge> authFailureLimit
         then s\<lparr>as_blockedUntil := now + authBlockDuration\<rparr> else s)"

definition RecordFailure :: "string \<Rightarrow> time \<Rightarrow> authThrottle \<Rightarrow> authThrottle" where
  "RecordFailure addr now t =
     t\<lparr>at_state := (at_state t)(hostOf addr \<mapsto> record_entry now (at_state t (hostOf addr)))\<rparr>"

section \<open>Sequences of calls\<close>

datatype throttle_call = CallBlocked string | CallRecordFailure string | CallCleanup

text \<open>The answers of the \<open>Blocked\<close> calls of a timed sequence of calls, with the clean-ups performed
  or skipped.\<close>

fun answers :: "bool \<Rightarrow> (time \<times> throttle_call) list \<Rightarrow> authThrottle \<Rightarrow> bool list" where
  "answers clean [] t = []"
| "answers clean ((now, CallBlocked addr) # cs) t = Blocked addr now t # answers clean cs t"
| "answers clean ((now, CallRecordFailure addr) # cs) t =
     answers clean cs (RecordFailure addr now t)"
| "answers clean ((now, CallCleanup) # cs) t =
     answers clean cs (if clean then cleanup now t else t)"

fun record_all :: "(time \<times> string) list \<Rightarrow> authThrottle \<Rightarrow> authThrottle" where
  "record_all [] t = t"
| "record_all ((now, addr) # fs) t = record_all fs (RecordFailure addr now t)"

section \<open>The throttle is an expiring table\<close>

datatype throttle_act = Ask | Fail

fun throttle_effect ::
  "throttle_act \<Rightarrow> time \<Rightarrow> ipAuthState option \<Rightarrow> ipAuthState option \<times> bool list" where
  "throttle_effect Ask now e = (e, [case e of None \<Rightarrow> False | Some s \<Rightarrow> now < as_blockedUntil s])"
| "throttle_effect Fail now e = (Some (record_entry now e), [])"

interpretation throttle: expiring_table throttle_effect cleanup_entry
proof
  fix now now' :: time and e :: ipAuthState
  assume st: "cleanup_entry now e"
  { assume "now \<le> now'"
    with st show "cleanup_entry now' e"
      using time_Sub_mono [of now now' "as_windowStart e"] by (auto simp: cleanup_entry_def) }
  have fresh: "record_entry now (Some e) = record_entry now None"
    using st by (simp add: record_entry_def cleanup_entry_def)
  fix a
  show "snd (throttle_effect a now (Some e)) = snd (throttle_effect a now None)"
    using st by (cases a) (auto simp: cleanup_entry_def)
  show "evicted (cleanup_entry now) (fst (throttle_effect a now (Some e)))
      (fst (throttle_effect a now None))"
    using st fresh by (cases a) (auto simp: evicted_def)
qed

fun table_call :: "throttle_call \<Rightarrow> (string, throttle_act) timed_op" where
  "table_call (CallBlocked addr) = Act (hostOf addr) Ask"
| "table_call (CallRecordFailure addr) = Act (hostOf addr) Fail"
| "table_call CallCleanup = Sweep"

lemma at_state_RecordFailure [simp]:
  "at_state (RecordFailure addr now t) =
     (at_state t)(hostOf addr \<mapsto> record_entry now (at_state t (hostOf addr)))"
  by (simp add: RecordFailure_def)

lemma answers_clean:
  "answers True cs t = concat (run_swept throttle_effect cleanup_entry
     (map (apsnd table_call) cs) (at_state t))"
  by (induction "True" cs t rule: answers.induct)
    (auto simp: Blocked_def cleanup_def fun_upd_idem)

lemma answers_plain:
  "answers False cs t = concat (run_plain throttle_effect (map (apsnd table_call) cs) (at_state t))"
  by (induction "False" cs t rule: answers.induct) (auto simp: Blocked_def fun_upd_idem)

lemma ordered_from_apsnd [simp]: "ordered_from now (map (apsnd f) cs) = ordered_from now cs"
  by (induction now cs rule: ordered_from.induct) auto

section \<open>One window of failures\<close>

definition fails_of :: "string \<Rightarrow> (time \<times> string) list \<Rightarrow> time list" where
  "fails_of host fs = map fst (filter (\<lambda>(now, a). hostOf a = host) fs)"

lemma at_state_record_all:
  "at_state (record_all fs t) host =
     foldl (\<lambda>e now. Some (record_entry now e)) (at_state t host) (fails_of host fs)"
  by (induction fs t rule: record_all.induct) (auto simp: fails_of_def)

lemma record_entry_in_window:
  assumes "\<not> time_Sub now (as_windowStart s) > authFailureWindow"
  shows "record_entry now (Some s) =
    s\<lparr>as_failures := as_failures s + 1,
      as_blockedUntil := if as_failures s + 1 \<ge> authFailureLimit
        then now + authBlockDuration else as_blockedUntil s\<rparr>"
  using assms by (simp add: record_entry_def Let_def)

text \<open>The entry after the failures \<open>t0 # ts\<close> of one window.\<close>

lemma fold_record_entry:
  assumes "\<forall>t \<in> set ts. \<not> time_Sub t (as_windowStart s) > authFailureWindow"
  shows "foldl (\<lambda>e now. Some (record_entry now e)) (Some s) ts =
    Some (s\<lparr>as_failures := as_failures s + int (length ts),
      as_blockedUntil :=
        if ts \<noteq> [] \<and> as_failures s + int (length ts) \<ge> authFailureLimit
        then last ts + authBlockDuration else as_blockedUntil s\<rparr>)"
  using assms
proof (induction ts arbitrary: s)
  case (Cons t ts)
  then show ?case
    by (auto simp: record_entry_in_window algebra_simps)
qed simp

section \<open>Properties\<close>

text \<open>C22: evicting entries is invisible: whatever calls arrive from whatever addresses, in the
  order of time and with clean-ups at any moments between them, every \<^verbatim>\<open>Blocked\<close> call answers what
  it would have answered had nothing ever been evicted.\<close>

theorem cleanup_invisible:
  assumes "ordered_from now calls"
  shows "answers True calls t = answers False calls t"
  using assms by (simp add: answers_clean answers_plain throttle.sweeps_invisible_same)

text \<open>C23: the limit, exactly: when the failures of a host, among those of any other hosts, all fall
  within one window of the first of them, the host is blocked at a later moment if and only if there
  were at least five, and precisely until five minutes after the last.\<close>

theorem blocked_after_five_failures:
  assumes "fails_of (hostOf addr) fs = t0 # ts"
    and "\<forall>t \<in> set ts. time_Sub t t0 \<le> authFailureWindow"
    and "zero_time \<le> now"
  shows "Blocked addr now (record_all fs newAuthThrottle) \<longleftrightarrow>
    5 \<le> length (t0 # ts) \<and> now < last (t0 # ts) + authBlockDuration"
proof -
  let ?s = "(fresh_entry t0)\<lparr>as_failures := 1\<rparr>"
  have first: "record_entry t0 None = ?s"
    by (simp add: record_entry_def fresh_entry_def authFailureLimit_def)
  have "\<forall>t \<in> set ts. \<not> time_Sub t (as_windowStart ?s) > authFailureWindow"
    using assms(2) by (auto simp: fresh_entry_def)
  from fold_record_entry [OF this] first assms(1)
  have "at_state (record_all fs newAuthThrottle) (hostOf addr) =
      Some (?s\<lparr>as_failures := 1 + int (length ts),
        as_blockedUntil := if ts \<noteq> [] \<and> 1 + int (length ts) \<ge> authFailureLimit
          then last ts + authBlockDuration else zero_time\<rparr>)"
    by (simp add: at_state_record_all newAuthThrottle_def fresh_entry_def)
  with assms(3) show ?thesis
    by (auto simp: Blocked_def authFailureLimit_def)
qed

text \<open>A block can end early. A failure recorded for a blocked host after the counting window has
  passed starts a new entry whose block is unset, so the host is no longer blocked although its
  five minutes are not over. Connections accepted before the block still deliver such failures,
  since only new connections are turned away.\<close>

lemma RecordFailure_lifts_block:
  assumes "at_state t (hostOf addr) = Some s"
    and "time_Sub now (as_windowStart s) > authFailureWindow"
    and "Blocked addr now t" and "zero_time \<le> now"
  shows "\<not> Blocked addr now (RecordFailure addr now t)"
  using assms
  by (simp add: Blocked_def record_entry_def fresh_entry_def authFailureLimit_def)

section \<open>Witnesses\<close>

definition attacker :: string where
  "attacker = ''203.0.113.5:4000''"

definition five_failures :: "(time \<times> string) list" where
  "five_failures =
     [(0, attacker), (Second, attacker), (Second, ''198.51.100.7:1''), (2 * Second, ''203.0.113.5:4001''),
      (3 * Second, attacker), (4 * Second, attacker)]"

lemma hosts [simp]:
  "hostOf attacker = ''203.0.113.5''" "hostOf ''203.0.113.5:4001'' = ''203.0.113.5''"
  "hostOf ''198.51.100.7:1'' = ''198.51.100.7''"
  by code_simp+

lemma five_failures_of:
  "fails_of (hostOf attacker) five_failures = 0 # [Second, 2 * Second, 3 * Second, 4 * Second]"
  by (simp add: fails_of_def five_failures_def)

theorem cleanup_invisible_witness:
  "answers True [(0, CallRecordFailure attacker), (2 * Minute, CallCleanup),
     (2 * Minute, CallBlocked attacker)] newAuthThrottle =
   answers False [(0, CallRecordFailure attacker), (2 * Minute, CallCleanup),
     (2 * Minute, CallBlocked attacker)] newAuthThrottle"
  by (rule cleanup_invisible [where now = 0]) (simp add: Minute_def Second_def)

theorem blocked_after_five_failures_witness:
  "Blocked attacker (4 * Minute) (record_all five_failures newAuthThrottle)"
  using blocked_after_five_failures [OF five_failures_of, of "4 * Minute"]
  by (simp add: Minute_def Second_def authFailureWindow_def authBlockDuration_def time_Sub_def
      max_duration_def zero_time_def)

definition five_entry :: ipAuthState where
  "five_entry =
     \<lparr>as_failures = 5, as_windowStart = 0, as_blockedUntil = 4 * Second + authBlockDuration\<rparr>"

lemma five_failures_state:
  "at_state (record_all five_failures newAuthThrottle) (hostOf attacker) = Some five_entry"
  by (simp add: at_state_record_all five_failures_of [simplified] newAuthThrottle_def five_entry_def
      record_entry_def fresh_entry_def authFailureLimit_def authFailureWindow_def Minute_def
      Second_def time_Sub_def max_duration_def)

end
