(* ===== verification/SocketServer.thy ===== *)
theory SocketServer
  imports ClientConn AuthThrottle PacketLoops
begin

text \<open>
  The socket server that backends connect to (\<^verbatim>\<open>socket/server.go\<close>, \<^verbatim>\<open>socket/handler*.go\<close>,
  \<^verbatim>\<open>socket/latency.go\<close>): the table of connections, the loop over the packets of a connection, the handlers,
  and what happens when a connection ends.

  A connection is a reference to a \<open>Client\<close> of \<open>ClientConn\<close>. The methods work on the record
  \<open>DefaultServer\<close>, which holds the connections, the registry and the \<open>world\<close> of the sessions. What one turn
  of a loop finds outside (the clock, the outcome of a write, the answers of the cluster backend and of
  \<^verbatim>\<open>url.Parse\<close>, the order of a range, the course of a transfer) is its argument, the record \<open>sock_env\<close>.

  The map of connections that have not authenticated is keyed by the address value that a connection
  returns, a pointer of its own; it is the set of these connections. The server and the sessions publish on one
  bus, that of the proxy.
\<close>

section \<open>State\<close>

type_synonym client_ref = nat

record DefaultServer =
  ds_secret :: string
  ds_throttle :: authThrottle
  ds_clients :: "string \<rightharpoonup> client_ref"
  ds_unconnected :: "client_ref set"
  ds_client :: "client_ref \<Rightarrow> Client"
  ds_addr :: "client_ref \<Rightarrow> string"
  ds_deadline :: "client_ref \<Rightarrow> time option"
  ds_next :: client_ref
  ds_registry :: registry
  ds_listener :: "handle option"
  ds_world :: world

type_synonym cluster_lookup = "string \<Rightarrow> go_error + string \<times> string \<times> bool"

record sock_env =
  se_io :: wire
  se_panicText :: "packet \<Rightarrow> string"
  se_now :: time
  se_readAt :: time
  se_write :: "nat \<times> io_error option"
  se_urlParse :: "string \<Rightarrow> go_error + url"
  se_cluster :: "cluster_lookup option"
  se_order :: "string list"
  se_remoteAddr :: "conn_ref \<Rightarrow> string"
  se_transfer :: transfer_env
  se_start :: time

text \<open>What a handler returns: no error, an error, or a panic, which nothing recovers.\<close>

datatype handled = HandledOk | HandleFailed go_error | HandlePanicked

definition upd_client :: "client_ref \<Rightarrow> (Client \<Rightarrow> Client) \<Rightarrow> DefaultServer \<Rightarrow> DefaultServer" where
  "upd_client c f s = s\<lparr>ds_client := (ds_client s)(c := f (ds_client s c))\<rparr>"

abbreviation authenticated :: "DefaultServer \<Rightarrow> client_ref \<Rightarrow> bool" where
  "authenticated s c \<equiv> cl_authenticated (ds_client s c)"

abbreviation client_name :: "DefaultServer \<Rightarrow> client_ref \<Rightarrow> string" where
  "client_name s c \<equiv> cl_name (ds_client s c)"

definition NewDefaultServer :: "string \<Rightarrow> registry \<Rightarrow> world \<Rightarrow> DefaultServer" where
  "NewDefaultServer secret serverRegistry w =
     \<lparr>ds_secret = secret, ds_throttle = newAuthThrottle, ds_clients = Map.empty, ds_unconnected = {},
      ds_client = (\<lambda>_. NewClient [] EOF), ds_addr = (\<lambda>_. []), ds_deadline = (\<lambda>_. None), ds_next = 0,
      ds_registry = serverRegistry, ds_listener = None, ds_world = w\<rparr>"

section \<open>Errors as text\<close>

fun io_text :: "io_error \<Rightarrow> string" where
  "io_text EOF = ''EOF''"
| "io_text ErrUnexpectedEOF = ''unexpected EOF''"
| "io_text ErrTimeout = ''i/o timeout''"
| "io_text ErrClosed = ''use of closed network connection''"
| "io_text (ErrOther msg) = msg"

fun read_error_text :: "(packet \<Rightarrow> string) \<Rightarrow> read_error \<Rightarrow> string" where
  "read_error_text p (ReadIO e) = io_text e"
| "read_error_text p (TooLarge l) =
     ''packet size '' @ show_nat (unat l) @ '' exceeds maximum of '' @ show_nat (unat maxPacketSize)"
| "read_error_text p (UnknownPacket i) = ''unknown packet '' @ show_nat (unat i)"
| "read_error_text p (UnmarshalPanic pk) = p pk"
| "read_error_text p (StillUnread n) = ''still have '' @ show_nat n @ '' bytes unread''"

definition containsAny :: "string \<Rightarrow> string list \<Rightarrow> bool" where
  "containsAny s subs = list_ex (Contains s) subs"

section \<open>Connections and names\<close>

definition Server_Client :: "DefaultServer \<Rightarrow> string \<Rightarrow> client_ref option" where
  "Server_Client s name = ds_clients s (ToLower name)"

definition Clients :: "DefaultServer \<Rightarrow> string list \<Rightarrow> client_ref list" where
  "Clients s keys = range_vals (ds_clients s) keys"

definition TryAuthenticate :: "client_ref \<Rightarrow> string \<Rightarrow> DefaultServer \<Rightarrow> bool \<times> DefaultServer" where
  "TryAuthenticate c name s =
     (if ds_clients s (ToLower name) \<noteq> None then (False, s)
      else (True, upd_client c (Authenticate name)
        (s\<lparr>ds_unconnected := ds_unconnected s - {c},
           ds_clients := (ds_clients s)(ToLower name \<mapsto> c)\<rparr>)))"

definition AuthBlocked :: "client_ref \<Rightarrow> time \<Rightarrow> DefaultServer \<Rightarrow> bool" where
  "AuthBlocked c now s = Blocked (ds_addr s c) now (ds_throttle s)"

definition RecordAuthFailure :: "client_ref \<Rightarrow> time \<Rightarrow> DefaultServer \<Rightarrow> DefaultServer" where
  "RecordAuthFailure c now s = s\<lparr>ds_throttle := RecordFailure (ds_addr s c) now (ds_throttle s)\<rparr>"

text \<open>\<^verbatim>\<open>c.WritePacket(pk)\<close> as the last thing a handler does.\<close>

definition reply :: "sock_env \<Rightarrow> packet \<Rightarrow> client_ref \<Rightarrow> DefaultServer \<Rightarrow> handled \<times> DefaultServer" where
  "reply env pk c s =
     (case WritePacket (se_io env) pk (se_write env) (ds_client s c) of
        (err, cl) \<Rightarrow>
          (case err of None \<Rightarrow> HandledOk | Some e \<Rightarrow> HandleFailed (io_text e), upd_client c (\<lambda>_. cl) s))"

section \<open>Handlers\<close>

definition auth_response :: "uint8 \<Rightarrow> packet" where
  "auth_response status = AuthResponsePk \<lparr>ar_Protocol = 0, ar_Status = status\<rparr>"

definition AuthRequest_Handle ::
  "sock_env \<Rightarrow> AuthRequest \<Rightarrow> client_ref \<Rightarrow> DefaultServer \<Rightarrow> handled \<times> DefaultServer" where
  "AuthRequest_Handle env pk c s =
     (if authenticated s c then (HandledOk, s)
      else if aq_Protocol pk \<noteq> ProtocolVersion then
        reply env (auth_response AuthResponseUnsupportedProtocol) c s
      else if ds_secret s = '''' \<or> aq_Secret pk \<noteq> ds_secret s then
        reply env (auth_response AuthResponseIncorrectSecret) c (RecordAuthFailure c (se_readAt env) s)
      else (case TryAuthenticate c (aq_Name pk) s of
              (False, s) \<Rightarrow> reply env (auth_response AuthResponseAlreadyConnected) c s
            | (True, s) \<Rightarrow> reply env (auth_response AuthResponseSuccess) c s))"

definition parseTransport :: "string \<Rightarrow> go_error + transport" where
  "parseTransport s =
     (if s = '''' then Inr TransportRakNet
      else if s = TransportRakNet \<or> s = TransportNetherNet then Inr s
      else Inl (''unknown transport '' @ Quote s))"

definition validateAddress :: "(string \<Rightarrow> go_error + url) \<Rightarrow> transport \<Rightarrow> string \<Rightarrow> go_error option" where
  "validateAddress url_Parse transport address =
     (if address = '''' then Some ''address must not be empty''
      else if transport \<noteq> TransportNetherNet then None
      else (case ParseNetherNetAddress url_Parse address of
              Inl err \<Rightarrow> Some (''nethernet address '' @ err)
            | Inr _ \<Rightarrow> None))"

text \<open>A server that registers again takes over what is known of the one it replaces.\<close>

definition take_over :: "srv_ref option \<Rightarrow> srv_ref \<Rightarrow> srv_heap \<Rightarrow> srv_heap" where
  "take_over old new h =
     (case old of
        None \<Rightarrow> h
      | Some old \<Rightarrow> SetPlayerCount new (PlayerCount h old)
                      (SetHealthy new (Healthy h old) (SetDraining new (Draining h old) h)))"

definition register_server :: "RegisterServer \<Rightarrow> transport \<Rightarrow> string \<Rightarrow> DefaultServer \<Rightarrow> DefaultServer" where
  "register_server pk transport name s =
     (let w = ds_world s; reg = ds_registry s;
          (new, h) = alloc_server
            (server_New name (rs_Address pk) transport (rs_Group pk) (rs_Weight pk) (rs_LegacyAuth pk)) (w_srv w);
          h = take_over (Registry_Server reg name) new h
      in s\<lparr>ds_registry := AddServer h new reg,
           ds_world := bus_Publish TopicServerRegistered (ServerPayload name (rs_Address pk)) (w\<lparr>w_srv := h\<rparr>)\<rparr>)"

definition RegisterServer_Handle ::
  "sock_env \<Rightarrow> RegisterServer \<Rightarrow> client_ref \<Rightarrow> DefaultServer \<Rightarrow> handled \<times> DefaultServer" where
  "RegisterServer_Handle env pk c s =
     (case parseTransport (rs_Transport pk) of
        Inl err \<Rightarrow> (HandleFailed err, s)
      | Inr transport \<Rightarrow>
          (case validateAddress (se_urlParse env) transport (rs_Address pk) of
             Some err \<Rightarrow> (HandleFailed err, s)
           | None \<Rightarrow> (HandledOk, register_server pk transport (client_name s c) s)))"

text \<open>\<^verbatim>\<open>s.Server()\<close> is nil while a session is stored and has no server yet; calling a method of
  it panics.\<close>

definition transfer_response :: "TransferRequest \<Rightarrow> uint8 \<Rightarrow> string \<Rightarrow> packet" where
  "transfer_response pk status err =
     TransferResponsePk \<lparr>tr_PlayerUUID = tq_PlayerUUID pk, tr_Status = status, tr_Error = err\<rparr>"

definition TransferRequest_Handle ::
  "sock_env \<Rightarrow> TransferRequest \<Rightarrow> client_ref \<Rightarrow> DefaultServer \<Rightarrow> handled \<times> DefaultServer" where
  "TransferRequest_Handle env pk c s =
     (let w = ds_world s in
      case Registry_Server (ds_registry s) (tq_Server pk) of
        None \<Rightarrow> reply env (transfer_response pk TransferResponseServerNotFound '''') c s
      | Some target \<Rightarrow>
          (case Store_Load (w_store w) (tq_PlayerUUID pk) of
             None \<Rightarrow> reply env (transfer_response pk TransferResponsePlayerNotFound '''') c s
           | Some i \<Rightarrow>
               (case s_server (w_sess w i) of
                  None \<Rightarrow> (HandlePanicked, s)
                | Some current \<Rightarrow>
                    if sv_address (srv_at (w_srv w) current) = sv_address (srv_at (w_srv w) target)
                    then reply env (transfer_response pk TransferResponseAlreadyOnServer '''') c s
                    else (case Transfer (se_transfer env) target (se_start env) i w of
                            (outcome.Panicked, w) \<Rightarrow> (HandlePanicked, s\<lparr>ds_world := w\<rparr>)
                          | (Returned (Some err), w) \<Rightarrow>
                              reply env (transfer_response pk TransferResponseError err) c (s\<lparr>ds_world := w\<rparr>)
                          | (Returned None, w) \<Rightarrow>
                              reply env (transfer_response pk TransferResponseSuccess '''') c (s\<lparr>ds_world := w\<rparr>)))))"

definition PlayerInfoRequest_Handle ::
  "sock_env \<Rightarrow> PlayerInfoRequest \<Rightarrow> client_ref \<Rightarrow> DefaultServer \<Rightarrow> handled \<times> DefaultServer" where
  "PlayerInfoRequest_Handle env pk c s =
     (let w = ds_world s;
          response = (\<lambda>status xuid address. reply env (PlayerInfoResponsePk
            \<lparr>ir_PlayerUUID = iq_PlayerUUID pk, ir_Status = status, ir_XUID = xuid, ir_Address = address\<rparr>) c s)
      in case Store_Load (w_store w) (iq_PlayerUUID pk) of
           None \<Rightarrow> response PlayerInfoResponsePlayerNotFound '''' ''''
         | Some i \<Rightarrow> response PlayerInfoResponseSuccess (id_XUID (s_identity (w_sess w i)))
                       (se_remoteAddr env (s_conn (w_sess w i))))"

definition server_entry :: "srv_heap \<Rightarrow> srv_ref \<Rightarrow> ServerEntry" where
  "server_entry h r = \<lparr>se_Name = Name h r, se_PlayerCount = of_int (PlayerCount h r)\<rparr>"

definition ServerListRequest_Handle ::
  "sock_env \<Rightarrow> client_ref \<Rightarrow> DefaultServer \<Rightarrow> handled \<times> DefaultServer" where
  "ServerListRequest_Handle env c s =
     reply env (ServerListResponsePk \<lparr>lr_Servers =
       map (server_entry (w_srv (ds_world s))) (Servers (ds_registry s) (se_order env))\<rparr>) c s"

definition find_session :: "FindPlayerRequest \<Rightarrow> Store \<Rightarrow> sess_ref option" where
  "find_session pk st =
     (case Store_Load st (fq_PlayerUUID pk) of
        Some i \<Rightarrow> Some i
      | None \<Rightarrow> Store_LoadFromName st (fq_PlayerName pk))"

definition find_response :: "FindPlayerRequest \<Rightarrow> bool \<Rightarrow> string \<Rightarrow> string \<Rightarrow> packet" where
  "find_response pk online server proxy =
     FindPlayerResponsePk \<lparr>fr_PlayerUUID = fq_PlayerUUID pk, fr_PlayerName = fq_PlayerName pk,
       fr_Online = online, fr_Server = server, fr_Proxy = proxy\<rparr>"

text \<open>The cluster is asked only when there is one, for a player with a name; an error is logged.\<close>

definition cluster_response :: "cluster_lookup option \<Rightarrow> FindPlayerRequest \<Rightarrow> packet" where
  "cluster_response cl pk =
     (case cl of
        None \<Rightarrow> find_response pk False '''' ''''
      | Some lookup \<Rightarrow>
          if fq_PlayerName pk = '''' then find_response pk False '''' ''''
          else (case lookup (fq_PlayerName pk) of
                  Inl err \<Rightarrow> find_response pk False '''' ''''
                | Inr (proxy, server, online) \<Rightarrow>
                    if online then find_response pk True server proxy
                    else find_response pk False '''' ''''))"

definition FindPlayerRequest_Handle ::
  "sock_env \<Rightarrow> FindPlayerRequest \<Rightarrow> client_ref \<Rightarrow> DefaultServer \<Rightarrow> handled \<times> DefaultServer" where
  "FindPlayerRequest_Handle env pk c s =
     (let w = ds_world s in
      case find_session pk (w_store w) of
        Some i \<Rightarrow>
          (case s_server (w_sess w i) of
             None \<Rightarrow> (HandlePanicked, s)
           | Some srv \<Rightarrow> reply env (FindPlayerResponsePk
               \<lparr>fr_PlayerUUID = uuid_of w i, fr_PlayerName = displayName w i, fr_Online = True,
                fr_Server = Name (w_srv w) srv, fr_Proxy = ''''\<rparr>) c s)
      | None \<Rightarrow> reply env (cluster_response (se_cluster env) pk) c s)"

definition SetServerDraining_Handle ::
  "SetServerDraining \<Rightarrow> client_ref \<Rightarrow> DefaultServer \<Rightarrow> handled \<times> DefaultServer" where
  "SetServerDraining_Handle pk c s =
     (case Registry_Server (ds_registry s) (client_name s c) of
        None \<Rightarrow> (HandledOk, s)
      | Some r \<Rightarrow> (HandledOk, s\<lparr>ds_world := (ds_world s)\<lparr>w_srv :=
          SetDraining r (sd_Draining pk) (w_srv (ds_world s))\<rparr>\<rparr>))"

section \<open>The table of handlers\<close>

datatype PacketHandler =
    AuthRequestHandler
  | RegisterServerHandler
  | TransferRequestHandler
  | PlayerInfoRequestHandler
  | ServerListRequestHandler
  | FindPlayerRequestHandler
  | SetServerDrainingHandler

definition RegisterHandler ::
  "uint16 \<Rightarrow> PacketHandler \<Rightarrow> (uint16 \<rightharpoonup> PacketHandler) \<Rightarrow> (uint16 \<rightharpoonup> PacketHandler)" where
  "RegisterHandler i h hs = hs(i \<mapsto> h)"

definition packet_handlers :: "uint16 \<rightharpoonup> PacketHandler" where
  "packet_handlers =
     fold (\<lambda>(i, h). RegisterHandler i h)
       [(IDAuthRequest, AuthRequestHandler), (IDRegisterServer, RegisterServerHandler),
        (IDTransferRequest, TransferRequestHandler), (IDPlayerInfoRequest, PlayerInfoRequestHandler),
        (IDServerListRequest, ServerListRequestHandler), (IDFindPlayerRequest, FindPlayerRequestHandler),
        (IDSetServerDraining, SetServerDrainingHandler)] Map.empty"

definition RequiresAuth :: "PacketHandler \<Rightarrow> bool" where
  "RequiresAuth h \<longleftrightarrow> h \<noteq> AuthRequestHandler"

text \<open>\<^verbatim>\<open>h.Handle(pk, s, c)\<close>. Each handler asserts the type of its packet, and panics for another.\<close>

definition Handle ::
  "PacketHandler \<Rightarrow> sock_env \<Rightarrow> packet \<Rightarrow> client_ref \<Rightarrow> DefaultServer \<Rightarrow> handled \<times> DefaultServer" where
  "Handle h env p c s =
     (case h of
        AuthRequestHandler \<Rightarrow>
          (case p of AuthRequestPk pk \<Rightarrow> AuthRequest_Handle env pk c s | _ \<Rightarrow> (HandlePanicked, s))
      | RegisterServerHandler \<Rightarrow>
          (case p of RegisterServerPk pk \<Rightarrow> RegisterServer_Handle env pk c s | _ \<Rightarrow> (HandlePanicked, s))
      | TransferRequestHandler \<Rightarrow>
          (case p of TransferRequestPk pk \<Rightarrow> TransferRequest_Handle env pk c s | _ \<Rightarrow> (HandlePanicked, s))
      | PlayerInfoRequestHandler \<Rightarrow>
          (case p of PlayerInfoRequestPk pk \<Rightarrow> PlayerInfoRequest_Handle env pk c s | _ \<Rightarrow> (HandlePanicked, s))
      | ServerListRequestHandler \<Rightarrow> ServerListRequest_Handle env c s
      | FindPlayerRequestHandler \<Rightarrow>
          (case p of FindPlayerRequestPk pk \<Rightarrow> FindPlayerRequest_Handle env pk c s | _ \<Rightarrow> (HandlePanicked, s))
      | SetServerDrainingHandler \<Rightarrow>
          (case p of SetServerDrainingPk pk \<Rightarrow> SetServerDraining_Handle pk c s | _ \<Rightarrow> (HandlePanicked, s)))"

section \<open>The loop of a connection\<close>

definition authTimeout :: duration where
  "authTimeout = 10 * Second"

definition set_deadline :: "client_ref \<Rightarrow> time option \<Rightarrow> DefaultServer \<Rightarrow> DefaultServer" where
  "set_deadline c d s = s\<lparr>ds_deadline := (ds_deadline s)(c := d)\<rparr>"

definition close_client :: "client_ref \<Rightarrow> DefaultServer \<Rightarrow> DefaultServer" where
  "close_client c s = upd_client c Client_Close s"

text \<open>The connection is accepted: \<open>None\<close> when it is refused at once.\<close>

definition accept_client :: "byte list \<Rightarrow> io_error \<Rightarrow> string \<Rightarrow> DefaultServer \<Rightarrow> client_ref \<times> DefaultServer" where
  "accept_client input err addr s =
     (let c = ds_next s in
      (c, s\<lparr>ds_next := Suc c, ds_client := (ds_client s)(c := NewClient input err),
            ds_addr := (ds_addr s)(c := addr), ds_deadline := (ds_deadline s)(c := None)\<rparr>))"

definition handleClient_begin :: "time \<Rightarrow> client_ref \<Rightarrow> DefaultServer \<Rightarrow> bool \<times> DefaultServer" where
  "handleClient_begin now c s =
     (if AuthBlocked c now s then (False, close_client c s)
      else (True, set_deadline c (Some (now + authTimeout))
                    (s\<lparr>ds_unconnected := insert c (ds_unconnected s)\<rparr>)))"

text \<open>A read that would have to wait fails when the deadline passes. An error that the connection keeps (as
  that of a failed TLS handshake or record) is returned without waiting.\<close>

definition kept_error :: "Client \<Rightarrow> bool" where
  "kept_error cl \<longleftrightarrow> cl_in cl = [] \<and> (case cl_inErr cl of ErrOther _ \<Rightarrow> True | _ \<Rightarrow> False)"

definition past :: "time \<Rightarrow> time option \<Rightarrow> bool" where
  "past now d = (case d of None \<Rightarrow> False | Some d \<Rightarrow> d < now)"

definition read_packet :: "sock_env \<Rightarrow> client_ref \<Rightarrow> DefaultServer \<Rightarrow> (read_error + packet) \<times> DefaultServer" where
  "read_packet env c s =
     (if past (se_readAt env) (ds_deadline s c) \<and> \<not> kept_error (ds_client s c)
      then (Inl (ReadIO ErrTimeout), s)
      else (case ReadPacket (se_io env) (ds_client s c) of (r, cl) \<Rightarrow> (r, upd_client c (\<lambda>_. cl) s)))"

text \<open>\<open>Again\<close>: the loop goes on; \<open>Ended\<close>: the method returns; \<open>Crashed\<close>: a panic ends the process.\<close>

datatype turn = Again | Ended | Crashed

definition handle_packet :: "sock_env \<Rightarrow> packet \<Rightarrow> client_ref \<Rightarrow> DefaultServer \<Rightarrow> turn \<times> DefaultServer" where
  "handle_packet env pk c s =
     (case packet_handlers (packet_ID pk) of
        None \<Rightarrow> (Again, s)
      | Some h \<Rightarrow>
          if \<not> authenticated s c \<and> RequiresAuth h
          then (Again, snd (reply env (auth_response AuthResponseUnauthenticated) c s))
          else (case Handle h env pk c s of
                  (HandlePanicked, s) \<Rightarrow> (Crashed, s)
                | (HandleFailed err, s) \<Rightarrow> (Again, s)
                | (HandledOk, s) \<Rightarrow> (Again, if authenticated s c then set_deadline c None s else s)))"

definition handle_read_error :: "sock_env \<Rightarrow> read_error \<Rightarrow> client_ref \<Rightarrow> DefaultServer \<Rightarrow> turn \<times> DefaultServer" where
  "handle_read_error env err c s =
     (if containsAny (read_error_text (se_panicText env) err) [''EOF'', ''closed''] then (Ended, s)
      else if err = ReadIO ErrTimeout then (Ended, close_client c s)
      else (Again, s))"

definition handleClient_turn :: "sock_env \<Rightarrow> client_ref \<Rightarrow> DefaultServer \<Rightarrow> turn \<times> DefaultServer" where
  "handleClient_turn env c s =
     (if \<not> authenticated s c \<and> AuthBlocked c (se_now env) s then (Ended, close_client c s)
      else (case read_packet env c s of
              (Inl err, s) \<Rightarrow> handle_read_error env err c s
            | (Inr pk, s) \<Rightarrow> handle_packet env pk c s))"

text \<open>The loop. \<open>others n\<close> is what the other goroutines do before turn \<open>n\<close>. The value is \<open>None\<close> when the
  loop goes on for ever.\<close>

partial_function (option) handleClient_loop ::
  "(nat \<Rightarrow> sock_env) \<Rightarrow> (nat \<Rightarrow> DefaultServer \<Rightarrow> DefaultServer) \<Rightarrow> nat \<Rightarrow> client_ref \<Rightarrow> DefaultServer \<Rightarrow>
   (turn \<times> DefaultServer) option" where
  "handleClient_loop env others n c s =
     (case handleClient_turn (env n) c (others n s) of
        (Again, s) \<Rightarrow> handleClient_loop env others (Suc n) c s
      | (Ended, s) \<Rightarrow> Some (Ended, s)
      | (Crashed, s) \<Rightarrow> Some (Crashed, s))"

section \<open>The end of a connection\<close>

text \<open>\<^verbatim>\<open>handleClientDisconnect\<close>: the part under the mutex, which finds the server to remove, and the rest.\<close>

definition disconnect_locked :: "client_ref \<Rightarrow> DefaultServer \<Rightarrow> srv_ref option \<times> DefaultServer" where
  "disconnect_locked c s =
     (let name = client_name s c;
          owned = (name \<noteq> '''' \<and> ds_clients s (ToLower name) = Some c);
          srv = (if owned then Registry_Server (ds_registry s) name else None);
          s = (if owned then s\<lparr>ds_clients := (ds_clients s)(ToLower name := None)\<rparr> else s)
      in (srv, s\<lparr>ds_unconnected := ds_unconnected s - {c}\<rparr>))"

definition disconnect_remove :: "srv_ref \<Rightarrow> DefaultServer \<Rightarrow> DefaultServer" where
  "disconnect_remove srv s =
     (let w = ds_world s; h = w_srv w in
      s\<lparr>ds_registry := RemoveServer h srv (ds_registry s),
        ds_world := bus_Publish TopicServerUnregistered
          (ServerPayload (Name h srv) (sv_address (srv_at h srv))) w\<rparr>)"

definition handleClientDisconnect :: "client_ref \<Rightarrow> DefaultServer \<Rightarrow> DefaultServer" where
  "handleClientDisconnect c s =
     (case disconnect_locked c s of
        (None, s) \<Rightarrow> s
      | (Some srv, s) \<Rightarrow> disconnect_remove srv s)"

section \<open>Reporting latencies\<close>

text \<open>One round of \<^verbatim>\<open>ReportPlayerLatency\<close>, over the sessions in the order of the range. \<open>latency\<close> is what the
  connections of the players measure, in nanoseconds.\<close>

definition report_latency :: "wire \<Rightarrow> (conn_ref \<Rightarrow> duration) \<Rightarrow> (sess_ref \<Rightarrow> nat \<times> io_error option) \<Rightarrow>
    sess_ref \<Rightarrow> DefaultServer \<Rightarrow> DefaultServer" where
  "report_latency io latency outcome i s =
     (let w = ds_world s in
      case s_server (w_sess w i) of
        None \<Rightarrow> s
      | Some srv \<Rightarrow>
          (case Server_Client s (Name (w_srv w) srv) of
             None \<Rightarrow> s
           | Some c \<Rightarrow> upd_client c (\<lambda>cl. snd (WritePacket io
               (UpdatePlayerLatencyPk \<lparr>ul_PlayerUUID = uuid_of w i,
                 ul_Latency = of_int (Milliseconds (latency (s_conn (w_sess w i))))\<rparr>) (outcome i) cl)) s))"

definition ReportPlayerLatency_round ::
  "wire \<Rightarrow> (conn_ref \<Rightarrow> duration) \<Rightarrow> (sess_ref \<Rightarrow> nat \<times> io_error option) \<Rightarrow> uuid list \<Rightarrow>
   DefaultServer \<Rightarrow> DefaultServer" where
  "ReportPlayerLatency_round io latency outcome order s =
     fold (report_latency io latency outcome) (Store_All (w_store (ds_world s)) order) s"

section \<open>Listening and closing\<close>

text \<open>\<^verbatim>\<open>Listen\<close> gets the outcome of the operating system, an error or the handle of the listening socket. TLS
  wraps the listener and closes it with itself. The open handles are a set, and \<open>lerr\<close> is what closing the
  listener returns.\<close>

definition Server_Listen ::
  "go_error + handle \<Rightarrow> DefaultServer \<Rightarrow> handle set \<Rightarrow> go_error option \<times> DefaultServer \<times> handle set" where
  "Server_Listen opened s H =
     (case opened of
        Inl err \<Rightarrow> (Some err, s, H)
      | Inr l \<Rightarrow> (None, s\<lparr>ds_listener := Some l\<rparr>, insert l H))"

definition Server_Close ::
  "go_error option \<Rightarrow> DefaultServer \<Rightarrow> handle set \<Rightarrow> go_error option \<times> DefaultServer \<times> handle set" where
  "Server_Close lerr s H =
     (let s = s\<lparr>ds_throttle := Close_throttle (ds_throttle s)\<rparr> in
      case ds_listener s of
        None \<Rightarrow> (None, s, H)
      | Some l \<Rightarrow> (lerr, s, H - {l}))"

end
