(* ===== verification/SocketSteps.thy ===== *)
theory SocketSteps
  imports SocketServer SessionSteps
begin

text \<open>
  What the socket server guarantees, over all interleavings of its goroutines. \<open>calm\<close> and \<open>reg_kept\<close> say what
  a turn of a connection leaves alone; with them every handler is characterised, and the
  step relation \<open>sock_step\<close> (a connection is accepted, takes a turn, ends, is cleaned up in the two parts of
  \<^verbatim>\<open>handleClientDisconnect\<close>, latencies are reported, sessions move) keeps the invariant \<open>sock_inv\<close>.
\<close>

section \<open>What a turn leaves alone\<close>

text \<open>Names, tables and authentication stay; a deadline changes at most for the connection itself, once it has
  authenticated.\<close>

definition calm :: "client_ref \<Rightarrow> DefaultServer \<Rightarrow> DefaultServer \<Rightarrow> bool" where
  "calm c s s' \<longleftrightarrow>
     ds_clients s' = ds_clients s \<and> ds_unconnected s' = ds_unconnected s \<and> ds_next s' = ds_next s \<and>
     ds_secret s' = ds_secret s \<and> ds_addr s' = ds_addr s \<and>
     (\<forall>d. authenticated s' d = authenticated s d \<and> client_name s' d = client_name s d) \<and>
     (\<forall>d. d \<noteq> c \<or> \<not> authenticated s d \<longrightarrow> ds_deadline s' d = ds_deadline s d)"

text \<open>The registry stays well-formed, and gains at most an entry under the name of the connection.\<close>

definition reg_kept :: "client_ref \<Rightarrow> DefaultServer \<Rightarrow> DefaultServer \<Rightarrow> bool" where
  "reg_kept c s s' \<longleftrightarrow>
     (registry_wf (w_srv (ds_world s)) (ds_registry s) \<longrightarrow> registry_wf (w_srv (ds_world s')) (ds_registry s')) \<and>
     (\<forall>k r. servers (ds_registry s') k = Some r \<longrightarrow>
        servers (ds_registry s) k = Some r \<or> authenticated s c \<and> k = ToLower (client_name s c))"

text \<open>Neither the registry nor the sessions and servers change.\<close>

definition outside_same :: "DefaultServer \<Rightarrow> DefaultServer \<Rightarrow> bool" where
  "outside_same s s' \<longleftrightarrow> ds_registry s' = ds_registry s \<and> ds_world s' = ds_world s"

lemma calm_refl [simp, intro]: "calm c s s"
  by (simp add: calm_def)

lemma calm_trans [trans]: "calm c s s' \<Longrightarrow> calm c s' s'' \<Longrightarrow> calm c s s''"
  by (auto simp: calm_def)

lemma reg_kept_same: "outside_same s s' \<Longrightarrow> reg_kept c s s'"
  by (simp add: reg_kept_def outside_same_def)

lemma outside_refl [simp, intro]: "outside_same s s"
  by (simp add: outside_same_def)

lemma outside_trans [trans]: "outside_same s s' \<Longrightarrow> outside_same s' s'' \<Longrightarrow> outside_same s s''"
  by (simp add: outside_same_def)

lemma WritePacket_frame:
  assumes "WritePacket io pk o' cl = (err, cl')"
  shows "cl_authenticated cl' = cl_authenticated cl" "cl_name cl' = cl_name cl" "cl_in cl' = cl_in cl"
    "cl_inErr cl' = cl_inErr cl" "cl_pool cl' = cl_pool cl"
  using assms by (auto simp: WritePacket_def Let_def split: prod.splits)

lemma reply_calm:
  assumes "reply env pk c s = (r, s')"
  shows "calm c s s'" "outside_same s s'" "ds_throttle s' = ds_throttle s"
    "cl_in (ds_client s' d) = cl_in (ds_client s d)" "cl_inErr (ds_client s' d) = cl_inErr (ds_client s d)"
proof -
  obtain err cl where w: "WritePacket (se_io env) pk (se_write env) (ds_client s c) = (err, cl)" by fastforce
  then have "s' = upd_client c (\<lambda>_. cl) s" using assms by (auto simp: reply_def)
  with WritePacket_frame [OF w] show "calm c s s'" "outside_same s s'" "ds_throttle s' = ds_throttle s"
    "cl_in (ds_client s' d) = cl_in (ds_client s d)" "cl_inErr (ds_client s' d) = cl_inErr (ds_client s d)"
    by (simp_all add: calm_def outside_same_def upd_client_def)
qed

lemma ReadPacket_frame:
  assumes "ReadPacket io cl = (r, cl')"
  shows "cl_authenticated cl' = cl_authenticated cl" "cl_name cl' = cl_name cl" "cl_inErr cl' = cl_inErr cl"
  using assms by (cases rule: ReadPacket_cases; auto dest: read_payload_frame)+

lemma read_packet_calm:
  assumes "read_packet env c s = (r, s')"
  shows "calm c s s'" "outside_same s s'" "ds_throttle s' = ds_throttle s" "ds_deadline s' = ds_deadline s"
proof -
  obtain r' cl where rp: "ReadPacket (se_io env) (ds_client s c) = (r', cl)" by fastforce
  then have "s' = s \<or> s' = upd_client c (\<lambda>_. cl) s"
    using assms by (auto simp: read_packet_def split: if_splits)
  with ReadPacket_frame [OF rp] show "calm c s s'" "outside_same s s'" "ds_throttle s' = ds_throttle s"
    "ds_deadline s' = ds_deadline s"
    by (auto simp: calm_def outside_same_def upd_client_def split: if_splits)
qed

lemma close_client_calm [simp]: "calm c s (close_client d s)" "outside_same s (close_client d s)"
  by (auto simp: calm_def outside_same_def close_client_def upd_client_def Client_Close_def)

lemma set_deadline_calm: "authenticated s c \<Longrightarrow> calm c s (set_deadline c d s)"
  by (simp add: calm_def set_deadline_def)

lemma set_deadline_outside [simp]: "outside_same s (set_deadline c d s)"
  by (simp add: outside_same_def set_deadline_def)

lemma world_calm [simp]: "calm c s (s\<lparr>ds_world := w\<rparr>)" "calm c s (s\<lparr>ds_registry := reg, ds_world := w\<rparr>)"
  by (simp_all add: calm_def)

lemma throttle_calm [simp]: "calm c s (RecordAuthFailure d now s)" "outside_same s (RecordAuthFailure d now s)"
  by (simp_all add: calm_def outside_same_def RecordAuthFailure_def)

section \<open>The handlers\<close>

text \<open>A transfer only moves sessions; which servers there are, and their counts, stay until it is confirmed.\<close>

lemma w_srv_transfer_parts [simp]:
  "w_srv (snd (fail_transfer err now i w)) = w_srv w"
  "w_srv (snd (Transfer_begin srv start i w)) = w_srv w"
  "w_srv (snd (Transfer_connected env srv conn i w)) = w_srv w"
  by (simp_all add: fail_transfer_def setTransferring_def Transfer_begin_def Transfer_connected_def Let_def
      split: option.split)

lemma w_srv_Transfer_continue [simp]: "w_srv (snd (Transfer_continue env srv i w)) = w_srv w"
  by (simp add: Transfer_continue_def PreTransfer_def Let_def split: sum.split option.split)

lemma w_srv_Transfer [simp]: "w_srv (snd (Transfer env srv start i w)) = w_srv w"
proof -
  obtain r v where "Transfer_begin srv start i w = (r, v)" by fastforce
  with w_srv_transfer_parts(2) [of srv start i w] show ?thesis
    by (cases r) (simp_all add: Transfer_def)
qed

lemma take_over_simps [simp]:
  "srv_next (take_over old new h) = srv_next h" "Name (take_over old new h) r = Name h r"
  by (simp_all add: take_over_def split: option.split)

lemma register_server_simps:
  fixes s :: DefaultServer and pk :: RegisterServer and tr name :: string
  defines "h \<equiv> take_over (Registry_Server (ds_registry s) name) (srv_next (w_srv (ds_world s)))
    (snd (alloc_server (server_New name (rs_Address pk) tr (rs_Group pk) (rs_Weight pk) (rs_LegacyAuth pk))
      (w_srv (ds_world s))))"
  shows "w_srv (ds_world (register_server pk tr name s)) = h"
    and "servers (ds_registry (register_server pk tr name s)) =
      (servers (ds_registry s))(ToLower name \<mapsto> srv_next (w_srv (ds_world s)))"
    and "ds_registry (register_server pk tr name s) = AddServer h (srv_next (w_srv (ds_world s))) (ds_registry s)"
  by (simp_all add: register_server_def h_def alloc_server_def AddServer_def Let_def server_New_def)

lemma reg_kept_register:
  assumes "authenticated s c"
  shows "reg_kept c s (register_server pk tr (client_name s c) s)"
proof -
  let ?h = "w_srv (ds_world (register_server pk tr (client_name s c) s))"
  have "registry_wf ?h (AddServer ?h (srv_next (w_srv (ds_world s))) (ds_registry s))"
    if "registry_wf (w_srv (ds_world s)) (ds_registry s)"
    by (rule registry_wf_Add, rule registry_wf_heap [OF that]) (simp_all add: register_server_simps(1))
  then show ?thesis
    using assms unfolding reg_kept_def register_server_simps(2)
    by (auto simp: register_server_simps(1,3) split: if_splits)
qed

lemma register_server_calm [simp]: "calm c s (register_server pk tr name s)"
  by (simp add: register_server_def Let_def split: prod.split)

text \<open>A change of the world that keeps the names of the servers keeps the registry.\<close>

lemma reg_kept_world:
  assumes "srv_next (w_srv w) = srv_next (w_srv (ds_world s))" "\<And>r. Name (w_srv w) r = Name (w_srv (ds_world s)) r"
  shows "reg_kept c s (s\<lparr>ds_world := w\<rparr>)"
  using registry_wf_heap [of "w_srv (ds_world s)" "ds_registry s" "w_srv w"] assms by (simp add: reg_kept_def)

lemma reg_kept_then: "reg_kept c s s' \<Longrightarrow> outside_same s' s'' \<Longrightarrow> reg_kept c s s''"
  by (simp add: reg_kept_def outside_same_def)

lemma reg_kept_before: "outside_same s s' \<Longrightarrow> calm c s s' \<Longrightarrow> reg_kept c s' s'' \<Longrightarrow> reg_kept c s s''"
  by (simp add: reg_kept_def outside_same_def calm_def)

definition steady :: "client_ref \<Rightarrow> DefaultServer \<Rightarrow> DefaultServer \<Rightarrow> bool" where
  "steady c s s' \<longleftrightarrow> calm c s s' \<and> reg_kept c s s'"

lemma steady_same: "calm c s s' \<Longrightarrow> outside_same s s' \<Longrightarrow> steady c s s'"
  by (simp add: steady_def reg_kept_same)

lemma steady_refl [simp, intro]: "steady c s s"
  by (simp add: steady_same)

lemma steady_before: "calm c s s' \<Longrightarrow> outside_same s s' \<Longrightarrow> steady c s' s'' \<Longrightarrow> steady c s s''"
  unfolding steady_def using calm_trans reg_kept_before by blast

lemma steady_then: "steady c s s' \<Longrightarrow> calm c s' s'' \<Longrightarrow> outside_same s' s'' \<Longrightarrow> steady c s s''"
  unfolding steady_def using calm_trans reg_kept_then by blast

text \<open>Answering is the end of most handlers.\<close>

lemma reply_end: "reply env pk c s1 = (r, s') \<Longrightarrow> steady c s s1 \<Longrightarrow> steady c s s'"
  using steady_then reply_calm(1,2) by blast

lemma Transfer_steady:
  assumes "Transfer env srv start i (ds_world s) = (out, w)"
  shows "steady c s (s\<lparr>ds_world := w\<rparr>)"
proof -
  have "w_srv w = w_srv (ds_world s)" using w_srv_Transfer [of env srv start i "ds_world s"] assms by simp
  then show ?thesis unfolding steady_def by (auto intro: reg_kept_world)
qed

lemma TransferRequest_steady:
  "TransferRequest_Handle env pk c s = (r, s') \<Longrightarrow> steady c s s'"
  by (auto simp: TransferRequest_Handle_def Let_def
      elim!: reply_end intro: Transfer_steady split: option.splits if_splits prod.splits outcome.splits)

lemma RegisterServer_steady:
  "RegisterServer_Handle env pk c s = (r, s') \<Longrightarrow> authenticated s c \<Longrightarrow> steady c s s'"
  by (auto simp: RegisterServer_Handle_def steady_def reg_kept_register reg_kept_same
      split: sum.splits option.splits)

lemma PlayerInfoRequest_steady: "PlayerInfoRequest_Handle env pk c s = (r, s') \<Longrightarrow> steady c s s'"
  by (auto simp: PlayerInfoRequest_Handle_def Let_def elim!: reply_end split: option.splits)

lemma ServerListRequest_steady: "ServerListRequest_Handle env c s = (r, s') \<Longrightarrow> steady c s s'"
  by (auto simp: ServerListRequest_Handle_def elim!: reply_end)

lemma FindPlayerRequest_steady: "FindPlayerRequest_Handle env pk c s = (r, s') \<Longrightarrow> steady c s s'"
  by (auto simp: FindPlayerRequest_Handle_def Let_def elim!: reply_end split: option.splits)

lemma SetServerDraining_steady: "SetServerDraining_Handle pk c s = (r, s') \<Longrightarrow> steady c s s'"
  by (auto simp: SetServerDraining_Handle_def steady_def reg_kept_same intro: reg_kept_world split: option.splits)

lemma Handle_steady:
  assumes "Handle h env p c s = (r, s')" "authenticated s c"
  shows "steady c s s'"
  using assms
  by (auto simp: Handle_def AuthRequest_Handle_def
      dest: TransferRequest_steady RegisterServer_steady PlayerInfoRequest_steady ServerListRequest_steady
        FindPlayerRequest_steady SetServerDraining_steady
      split: PacketHandler.splits packet.splits)

section \<open>Authentication\<close>

text \<open>What a request to authenticate must bring.\<close>

definition good_request :: "AuthRequest \<Rightarrow> DefaultServer \<Rightarrow> bool" where
  "good_request pk s \<longleftrightarrow>
     aq_Protocol pk = ProtocolVersion \<and> ds_secret s \<noteq> '''' \<and> aq_Secret pk = ds_secret s \<and>
     Server_Client s (aq_Name pk) = None"

lemma AuthRequest_cases:
  assumes "AuthRequest_Handle env pk c s = (r, s')" "\<not> authenticated s c"
  obtains (refused) "calm c s s'" "outside_same s s'" "\<not> good_request pk s"
    | (accepted) "good_request pk s" "calm c (snd (TryAuthenticate c (aq_Name pk) s)) s'"
        "outside_same s s'"
proof (cases "good_request pk s")
  case True
  then obtain s1 where s1: "TryAuthenticate c (aq_Name pk) s = (True, s1)"
    by (simp add: good_request_def Server_Client_def TryAuthenticate_def)
  with True assms have "reply env (auth_response AuthResponseSuccess) c s1 = (r, s')"
    by (simp add: AuthRequest_Handle_def good_request_def)
  note rep = reply_calm(1,2) [OF this]
  have "outside_same s s1" using s1
    by (auto simp: TryAuthenticate_def outside_same_def upd_client_def split: if_splits)
  with True s1 rep show thesis by (intro accepted) (auto intro: outside_trans)
next
  case False
  with assms show thesis
    by (intro refused)
      (auto simp: AuthRequest_Handle_def good_request_def Server_Client_def TryAuthenticate_def
        dest: reply_calm(1,2) intro: calm_trans outside_trans throttle_calm split: if_splits)
qed

text \<open>The connection \<open>c\<close> has been authenticated under a name that nobody had, and nothing else has happened.\<close>

definition admitted_as :: "client_ref \<Rightarrow> string \<Rightarrow> DefaultServer \<Rightarrow> DefaultServer \<Rightarrow> bool" where
  "admitted_as c name s s' \<longleftrightarrow>
     ds_clients s (ToLower name) = None \<and> ds_clients s' = (ds_clients s)(ToLower name \<mapsto> c) \<and>
     ds_unconnected s' = ds_unconnected s - {c} \<and> ds_next s' = ds_next s \<and> ds_secret s' = ds_secret s \<and>
     ds_addr s' = ds_addr s \<and>
     (\<forall>d. authenticated s' d = (d = c \<or> authenticated s d) \<and>
          client_name s' d = (if d = c then name else client_name s d)) \<and>
     (\<forall>d. d \<noteq> c \<longrightarrow> ds_deadline s' d = ds_deadline s d) \<and> outside_same s s'"

lemma admitted_calm: "admitted_as c name s s' \<Longrightarrow> calm c s' s'' \<Longrightarrow> outside_same s' s'' \<Longrightarrow> admitted_as c name s s''"
  by (auto simp: admitted_as_def calm_def outside_same_def)

lemma calm_admitted_as:
  "calm c s s' \<Longrightarrow> outside_same s s' \<Longrightarrow> admitted_as c name s' s'' \<Longrightarrow> admitted_as c name s s''"
  by (auto simp: admitted_as_def calm_def outside_same_def)

lemma admitted_TryAuthenticate:
  "ds_clients s (ToLower name) = None \<Longrightarrow> \<not> authenticated s c \<Longrightarrow>
   admitted_as c name s (snd (TryAuthenticate c name s))"
  by (simp add: admitted_as_def TryAuthenticate_def outside_same_def upd_client_def Authenticate_def)

lemma good_request_calm: "calm c s s' \<Longrightarrow> good_request pk s' = good_request pk s"
  by (simp add: good_request_def Server_Client_def calm_def)

lemma auth_handler: "packet_handlers (packet_ID p) = Some AuthRequestHandler \<Longrightarrow> \<exists>pk. p = AuthRequestPk pk"
  by (cases p) (simp_all add: packet_handlers_def RegisterHandler_def ID_defs)

lemma handle_packet_cases:
  assumes "handle_packet env p c s = (t, s')"
  obtains (kept) "steady c s s'" "\<not> authenticated s c \<Longrightarrow> outside_same s s'"
    | (accepted) pk where "\<not> authenticated s c" "p = AuthRequestPk pk" "good_request pk s"
        "admitted_as c (aq_Name pk) s s'"
proof (cases "packet_handlers (packet_ID p)")
  case None
  with assms show thesis by (intro kept) (simp_all add: handle_packet_def)
next
  case (Some h)
  show thesis
  proof (cases "\<not> authenticated s c \<and> RequiresAuth h")
    case True
    then have "s' = snd (reply env (auth_response AuthResponseUnauthenticated) c s)"
      using assms Some by (simp add: handle_packet_def)
    with reply_calm(1,2) [of env "auth_response AuthResponseUnauthenticated" c s] show thesis
      by (intro kept) (metis prod.collapse steady_same)+
  next
    case False
    obtain r s1 where h: "Handle h env p c s = (r, s1)" by fastforce
    have s': "s' = s1 \<or> authenticated s1 c \<and> s' = set_deadline c None s1"
      using assms Some False h by (auto simp: handle_packet_def split: handled.splits if_splits)
    have last: "calm c s1 s'" "outside_same s1 s'" using s' set_deadline_calm by auto
    show thesis
    proof (cases "authenticated s c")
      case True
      with steady_then [OF Handle_steady [OF h True] last] show thesis by (intro kept) simp_all
    next
      case unauth: False
      with False Some have "packet_handlers (packet_ID p) = Some AuthRequestHandler"
        by (simp add: RequiresAuth_def)
      then obtain pk where p: "p = AuthRequestPk pk" using auth_handler by blast
      have "AuthRequest_Handle env pk c s = (r, s1)"
        using h False Some unauth by (simp add: Handle_def p RequiresAuth_def)
      then show thesis using unauth
      proof (cases rule: AuthRequest_cases)
        case refused
        then show thesis using last calm_trans outside_trans steady_same by (intro kept) blast+
      next
        case ok: accepted
        have "admitted_as c (aq_Name pk) s (snd (TryAuthenticate c (aq_Name pk) s))"
          using ok(1) unauth
          by (intro admitted_TryAuthenticate) (simp_all add: good_request_def Server_Client_def)
        moreover have "outside_same (snd (TryAuthenticate c (aq_Name pk) s)) s1"
          using ok(3) calculation by (simp add: admitted_as_def outside_same_def)
        ultimately have "admitted_as c (aq_Name pk) s s1" using ok(2) admitted_calm by blast
        then show thesis using unauth p ok(1) admitted_calm [OF _ last] by (intro accepted)
      qed
    qed
  qed
qed

lemma turn_cases:
  assumes "handleClient_turn env c s = (t, s')"
  obtains (kept) "steady c s s'" "\<not> authenticated s c \<Longrightarrow> outside_same s s'"
    | (accepted) pk s1 where "\<not> authenticated s c" "read_packet env c s = (Inr (AuthRequestPk pk), s1)"
        "good_request pk s" "admitted_as c (aq_Name pk) s s'" "\<not> AuthBlocked c (se_now env) s"
proof (cases "\<not> authenticated s c \<and> AuthBlocked c (se_now env) s")
  case True
  with assms show thesis by (intro kept) (auto simp: handleClient_turn_def intro: steady_same)
next
  case False
  obtain r s1 where rp: "read_packet env c s = (r, s1)" by fastforce
  note read = read_packet_calm(1,2) [OF rp]
  show thesis
  proof (cases r)
    case (Inl err)
    then have "s' = s1 \<or> s' = close_client c s1"
      using assms False rp by (auto simp: handleClient_turn_def handle_read_error_def split: if_splits)
    with read show thesis
      by (intro kept) (auto intro!: steady_same intro: calm_trans outside_trans)
  next
    case (Inr p)
    have "handle_packet env p c s1 = (t, s')"
      using assms False rp Inr by (auto simp: handleClient_turn_def)
    then show thesis
    proof (cases rule: handle_packet_cases)
      case h: kept
      have "authenticated s1 c = authenticated s c" using read(1) by (simp add: calm_def)
      with h read show thesis
        by (intro kept) (auto intro: steady_before outside_trans)
    next
      case h: (accepted pk)
      have "authenticated s1 c = authenticated s c" using read(1) by (simp add: calm_def)
      with h read rp Inr False show thesis
        by (intro accepted [of pk s1]) (auto simp: good_request_calm intro: calm_admitted_as)
    qed
  qed
qed

section \<open>All interleavings\<close>

text \<open>
  The connections whose loop runs, those whose loop has ended and whose cleaning up has not begun, and the
  servers that a cleaning up is about to remove.
\<close>

type_synonym sock_state = "DefaultServer \<times> client_ref set \<times> client_ref set \<times> srv_ref list"

inductive sock_step :: "sock_state \<Rightarrow> sock_state \<Rightarrow> bool" where
  step_accept:
    "sock_step (s, A, D, P) (s2, if ok then insert c A else A, D, P)"
    if "accept_client input err addr s = (c, s1)" "handleClient_begin now c s1 = (ok, s2)"
| step_turn:
    "sock_step (s, A, D, P) (s', A, D, P)"
    if "c \<in> A" "handleClient_turn env c s = (Again, s')"
| step_end:
    "sock_step (s, A, D, P) (s', A - {c}, insert c D, P)"
    if "c \<in> A" "handleClient_turn env c s = (Ended, s')"
| step_disconnect:
    "sock_step (s, A, D, P) (s', A, D - {c}, (case srv of None \<Rightarrow> P | Some r \<Rightarrow> r # P))"
    if "c \<in> D" "disconnect_locked c s = (srv, s')"
| step_remove:
    "sock_step (s, A, D, P) (disconnect_remove r s, A, D, remove1 r P)"
    if "r \<in> set P"
| step_latency:
    "sock_step (s, A, D, P) (report_latency io latency outcome i s, A, D, P)"
| step_sessions:
    "sock_step (s, A, D, P) (s\<lparr>ds_world := w\<rparr>, A, D, P)"
    if "srv_next (w_srv w) = srv_next (w_srv (ds_world s))" "\<And>r. Name (w_srv w) r = Name (w_srv (ds_world s)) r"
| step_cleanup:
    "sock_step (s, A, D, P) (s\<lparr>ds_throttle := cleanup now (ds_throttle s)\<rparr>, A, D, P)"

inductive sock_reachable :: "string \<Rightarrow> world \<Rightarrow> sock_state \<Rightarrow> bool" for secret w where
  sock_start: "sock_reachable secret w (NewDefaultServer secret NewDefaultRegistry w, {}, {}, [])"
| sock_next: "sock_reachable secret w x \<Longrightarrow> sock_step x y \<Longrightarrow> sock_reachable secret w y"

text \<open>The connections that are live, and what holds of the tables about them.\<close>

definition conns_ok :: "DefaultServer \<Rightarrow> client_ref set \<Rightarrow> bool" where
  "conns_ok s L \<longleftrightarrow>
     (\<forall>c \<in> L. c < ds_next s \<and>
        (authenticated s c \<longrightarrow> ds_clients s (ToLower (client_name s c)) = Some c) \<and>
        (\<not> authenticated s c \<longrightarrow> c \<in> ds_unconnected s \<and> ds_deadline s c \<noteq> None)) \<and>
     (\<forall>k c. ds_clients s k = Some c \<longrightarrow>
        c < ds_next s \<and> authenticated s c \<and> ToLower (client_name s c) = k \<and> (k \<noteq> [] \<longrightarrow> c \<in> L)) \<and>
     (\<forall>c \<in> ds_unconnected s. c \<in> L \<and> \<not> authenticated s c)"

definition servers_owned :: "DefaultServer \<Rightarrow> srv_ref list \<Rightarrow> bool" where
  "servers_owned s P \<longleftrightarrow>
     registry_wf (w_srv (ds_world s)) (ds_registry s) \<and>
     (\<forall>k r. servers (ds_registry s) k = Some r \<longrightarrow> ds_clients s k \<noteq> None \<or> r \<in> set P)"

fun sock_inv :: "sock_state \<Rightarrow> bool" where
  "sock_inv (s, A, D, P) \<longleftrightarrow> A \<inter> D = {} \<and> conns_ok s (A \<union> D) \<and> servers_owned s P"

lemma conns_okD:
  assumes "conns_ok s L"
  shows "c \<in> L \<Longrightarrow> authenticated s c \<Longrightarrow> ds_clients s (ToLower (client_name s c)) = Some c"
    and "ds_clients s k = Some c \<Longrightarrow> authenticated s c \<and> ToLower (client_name s c) = k"
    and "ds_clients s k = Some c \<Longrightarrow> k \<noteq> [] \<Longrightarrow> c \<in> L"
    and "c \<in> L \<Longrightarrow> \<not> authenticated s c \<Longrightarrow> c \<in> ds_unconnected s \<and> ds_deadline s c \<noteq> None"
    and "c \<in> ds_unconnected s \<Longrightarrow> c \<in> L \<and> \<not> authenticated s c"
    and "c \<in> L \<Longrightarrow> c < ds_next s"
  using assms unfolding conns_ok_def by blast+

lemma conns_ok_calm:
  assumes "calm c s s'" "conns_ok s L"
  shows "conns_ok s' L"
proof -
  have "authenticated s' d = authenticated s d" "client_name s' d = client_name s d"
    "\<not> authenticated s d \<Longrightarrow> ds_deadline s' d = ds_deadline s d" for d
    using assms(1) unfolding calm_def by blast+
  moreover have "ds_clients s' = ds_clients s" "ds_unconnected s' = ds_unconnected s" "ds_next s' = ds_next s"
    using assms(1) unfolding calm_def by blast+
  ultimately show ?thesis using assms(2) unfolding conns_ok_def by presburger
qed

lemma conns_ok_admitted:
  assumes adm: "admitted_as c name s s'" and ok: "conns_ok s L" and c: "c \<in> L" "\<not> authenticated s c"
  shows "conns_ok s' L"
proof -
  have s': "authenticated s' d = (d = c \<or> authenticated s d)"
    "client_name s' d = (if d = c then name else client_name s d)"
    "d \<noteq> c \<Longrightarrow> ds_deadline s' d = ds_deadline s d" for d
    using adm unfolding admitted_as_def by blast+
  have tables: "ds_clients s (ToLower name) = None" "ds_clients s' = (ds_clients s)(ToLower name \<mapsto> c)"
    "ds_unconnected s' = ds_unconnected s - {c}" "ds_next s' = ds_next s"
    using adm unfolding admitted_as_def by blast+
  note ok' = conns_okD [OF ok]
  have "d < ds_next s' \<and> (authenticated s' d \<longrightarrow> ds_clients s' (ToLower (client_name s' d)) = Some d) \<and>
      (\<not> authenticated s' d \<longrightarrow> d \<in> ds_unconnected s' \<and> ds_deadline s' d \<noteq> None)" if "d \<in> L" for d
  proof (cases "d = c")
    case True
    then show ?thesis using ok'(6) [OF c(1)] by (simp add: s' tables)
  next
    case False
    have "authenticated s d \<Longrightarrow> ToLower (client_name s d) \<noteq> ToLower name"
      using ok'(1) [OF that] tables(1) by force
    with False show ?thesis using ok'(1,4,6) [OF that] by (simp add: s' tables)
  qed
  moreover have "d < ds_next s' \<and> authenticated s' d \<and> ToLower (client_name s' d) = k \<and> (k \<noteq> [] \<longrightarrow> d \<in> L)"
    if "ds_clients s' k = Some d" for k d
  proof (cases "k = ToLower name")
    case True
    then have "d = c" using that tables(2) by simp
    then show ?thesis using True c ok'(6) [OF c(1)] by (simp add: s' tables)
  next
    case False
    then have k: "ds_clients s k = Some d" using that tables by simp
    then have "d \<noteq> c" using ok'(2) c(2) by blast
    moreover have "d < ds_next s" using ok k unfolding conns_ok_def by blast
    ultimately show ?thesis using ok'(2,3) [OF k] by (simp add: s' tables)
  qed
  moreover have "d \<in> L \<and> \<not> authenticated s' d" if "d \<in> ds_unconnected s'" for d
    using that ok'(5) [of d] by (simp add: s' tables)
  ultimately show ?thesis unfolding conns_ok_def by blast
qed

lemma servers_owned_kept:
  assumes "reg_kept c s s'" "ds_clients s' = ds_clients s" "servers_owned s P" "conns_ok s L" "c \<in> L"
  shows "servers_owned s' P"
proof -
  have "ds_clients s' k \<noteq> None \<or> r \<in> set P" if "servers (ds_registry s') k = Some r" for k r
  proof -
    from that assms(1) have "servers (ds_registry s) k = Some r \<or>
        authenticated s c \<and> k = ToLower (client_name s c)"
      unfolding reg_kept_def by blast
    then show ?thesis
      using assms(2,3) conns_okD(1) [OF assms(4,5)] unfolding servers_owned_def by auto
  qed
  moreover have "registry_wf (w_srv (ds_world s')) (ds_registry s')"
    using assms(1,3) unfolding reg_kept_def servers_owned_def by blast
  ultimately show ?thesis unfolding servers_owned_def by blast
qed

lemma servers_owned_more:
  assumes "outside_same s s'" "servers_owned s P" "\<And>k. ds_clients s k \<noteq> None \<Longrightarrow> ds_clients s' k \<noteq> None"
  shows "servers_owned s' P"
  using assms unfolding servers_owned_def outside_same_def by metis

lemma turn_keeps:
  assumes "handleClient_turn env c s = (t, s')" "c \<in> L" "conns_ok s L" "servers_owned s P"
  shows "conns_ok s' L \<and> servers_owned s' P"
  using assms(1)
proof (cases rule: turn_cases)
  case kept
  then have "calm c s s'" "reg_kept c s s'" by (simp_all add: steady_def)
  then show ?thesis
    using conns_ok_calm [OF _ assms(3)] servers_owned_kept [OF _ _ assms(4,3,2)] by (simp add: calm_def)
next
  case (accepted pk s1)
  then show ?thesis
    using conns_ok_admitted [OF accepted(4) assms(3,2) accepted(1)] servers_owned_more [OF _ assms(4), of s']
    by (auto simp: admitted_as_def)
qed

lemma accept_keeps:
  assumes "accept_client input err addr s = (c, s1)" "handleClient_begin now c s1 = (ok, s2)" "conns_ok s L"
  shows "conns_ok s2 (if ok then insert c L else L) \<and> outside_same s s2 \<and> ds_clients s2 = ds_clients s \<and> c \<notin> L"
proof -
  have c: "c = ds_next s" and s1: "s1 = s\<lparr>ds_next := Suc c, ds_client := (ds_client s)(c := NewClient input err),
      ds_addr := (ds_addr s)(c := addr), ds_deadline := (ds_deadline s)(c := None)\<rparr>"
    using assms(1) by (auto simp: accept_client_def Let_def)
  note ok' = conns_okD [OF assms(3)]
  have below: "d \<noteq> c" if "d \<in> L \<or> d \<in> ds_unconnected s \<or> ds_clients s k = Some d" for d k
    using that ok'(5,6) assms(3) unfolding conns_ok_def c by fastforce
  have out: "outside_same s s2" "ds_clients s2 = ds_clients s" "ds_next s2 = Suc c"
    "ds_unconnected s2 = (if ok then insert c (ds_unconnected s) else ds_unconnected s)"
    "\<not> authenticated s2 c" "ok \<Longrightarrow> ds_deadline s2 c \<noteq> None"
    using assms(2)
    by (auto simp: s1 handleClient_begin_def close_client_def upd_client_def set_deadline_def outside_same_def
        NewClient_def Client_Close_def split: if_splits)
  have old: "authenticated s2 d = authenticated s d" "client_name s2 d = client_name s d"
    "ds_deadline s2 d = ds_deadline s d" if "d \<noteq> c" for d
    using assms(2) that
    by (auto simp: s1 handleClient_begin_def close_client_def upd_client_def set_deadline_def split: if_splits)
  have "c \<notin> L" using below by blast
  moreover have "conns_ok s2 (if ok then insert c L else L)"
    unfolding conns_ok_def
  proof (intro conjI ballI allI impI)
    fix d assume d: "d \<in> (if ok then insert c L else L)"
    show "d < ds_next s2" using d ok'(6) [of d] out(3) c by (auto split: if_splits)
    show "ds_clients s2 (ToLower (client_name s2 d)) = Some d" if "authenticated s2 d"
      using that d out(2,5) old(1,2) [of d] ok'(1) [of d] by (cases "d = c") (auto split: if_splits)
    show "d \<in> ds_unconnected s2" "ds_deadline s2 d \<noteq> None" if "\<not> authenticated s2 d"
      using that d out(4,6) old(1,3) [of d] ok'(4) [of d] below [of d] by (cases "d = c"; auto split: if_splits)+
  next
    fix k d assume k: "ds_clients s2 k = Some d"
    then have k': "ds_clients s k = Some d" and d: "d \<noteq> c" using out(2) below [of d k] by simp_all
    show "d < ds_next s2" using assms(3) k' out(3) c unfolding conns_ok_def by fastforce
    show "authenticated s2 d" "ToLower (client_name s2 d) = k" using ok'(2) [OF k'] old [OF d] by simp_all
    show "k \<noteq> [] \<Longrightarrow> d \<in> (if ok then insert c L else L)" using ok'(3) [OF k'] by simp
  next
    fix d assume "d \<in> ds_unconnected s2"
    then show "d \<in> (if ok then insert c L else L)" "\<not> authenticated s2 d"
      using out(4,5) ok'(5) [of d] old(1) [of d] below [of d] by (cases "d = c"; auto split: if_splits)+
  qed
  ultimately show ?thesis using out by blast
qed

lemma disconnect_keeps:
  assumes "disconnect_locked c s = (srv, s')" "c \<in> L" "conns_ok s L" "servers_owned s P"
  shows "conns_ok s' (L - {c}) \<and> servers_owned s' (case srv of None \<Rightarrow> P | Some r \<Rightarrow> r # P)"
proof -
  let ?name = "client_name s c"
  let ?owned = "?name \<noteq> [] \<and> ds_clients s (ToLower ?name) = Some c"
  note ok' = conns_okD [OF assms(3)]
  have s': "ds_clients s' = (if ?owned then (ds_clients s)(ToLower ?name := None) else ds_clients s)"
    "ds_unconnected s' = ds_unconnected s - {c}" "ds_client s' = ds_client s" "ds_next s' = ds_next s"
    "ds_deadline s' = ds_deadline s" "ds_registry s' = ds_registry s" "ds_world s' = ds_world s"
    "srv = (if ?owned then Registry_Server (ds_registry s) ?name else None)"
    using assms(1) unfolding disconnect_locked_def Let_def by (cases ?owned; clarsimp)+
  have "conns_ok s' (L - {c})"
    unfolding conns_ok_def s'(2-5)
  proof (intro conjI ballI allI impI)
    fix d assume d: "d \<in> L - {c}"
    show "d < ds_next s" using d ok'(6) by blast
    show "ds_clients s' (ToLower (client_name s d)) = Some d" if "authenticated s d"
      using ok'(1) [of d] that d by (auto simp: s'(1))
    show "d \<in> ds_unconnected s - {c}" "ds_deadline s d \<noteq> None" if "\<not> authenticated s d"
      using ok'(4) [of d] that d by simp_all
  next
    fix k d assume k: "ds_clients s' k = Some d"
    then have k': "ds_clients s k = Some d" by (auto simp: s'(1) split: if_splits)
    show "d < ds_next s" using assms(3) k' unfolding conns_ok_def by blast
    show "authenticated s d" "ToLower (client_name s d) = k" using ok'(2) [OF k'] by simp_all
    show "d \<in> L - {c}" if "k \<noteq> []"
      using ok'(2,3) [OF k'] that k by (auto simp: s'(1) split: if_splits)
  next
    fix d assume "d \<in> ds_unconnected s - {c}"
    then show "d \<in> L - {c}" "\<not> authenticated s d" using ok'(5) [of d] by simp_all
  qed
  moreover have "servers_owned s' (case srv of None \<Rightarrow> P | Some r \<Rightarrow> r # P)"
    unfolding servers_owned_def s'(6,7)
  proof (intro conjI allI impI)
    show "registry_wf (w_srv (ds_world s)) (ds_registry s)" using assms(4) by (simp add: servers_owned_def)
    fix k r assume k: "servers (ds_registry s) k = Some r"
    with assms(4) have "ds_clients s k \<noteq> None \<or> r \<in> set P" unfolding servers_owned_def by blast
    with k show "ds_clients s' k \<noteq> None \<or> r \<in> set (case srv of None \<Rightarrow> P | Some r \<Rightarrow> r # P)"
      by (auto simp: s'(1,8) Registry_Server_def split: option.split)
  qed
  ultimately show ?thesis by blast
qed

lemma remove_keeps:
  assumes "servers_owned s P"
  shows "servers_owned (disconnect_remove r s) (remove1 r P)"
proof -
  let ?h = "w_srv (ds_world s)"
  have wf: "registry_wf ?h (ds_registry s)" using assms by (simp add: servers_owned_def)
  have "servers (RemoveServer ?h r (ds_registry s)) k = Some r' \<Longrightarrow>
      servers (ds_registry s) k = Some r' \<and> r' \<noteq> r" for k r'
    using registry_wfD [OF wf, of k r'] by (auto simp: RemoveServer_def Let_def split: if_splits)
  moreover have "servers (ds_registry s) k = Some r' \<Longrightarrow> ds_clients s k \<noteq> None \<or> r' \<in> set P" for k r'
    using assms unfolding servers_owned_def by blast
  ultimately show ?thesis
    using registry_wf_Remove [OF wf, of r]
    unfolding servers_owned_def disconnect_remove_def Let_def
    by (auto simp del: not_None_eq)
qed

lemma write_calm:
  "calm c s (upd_client d (\<lambda>cl. snd (WritePacket io pk o' cl)) s)"
  "outside_same s (upd_client d (\<lambda>cl. snd (WritePacket io pk o' cl)) s)"
  by (auto simp: calm_def outside_same_def upd_client_def WritePacket_def Let_def split: prod.split)

lemma report_latency_calm:
  "calm c s (report_latency io latency outcome i s)"
  "outside_same s (report_latency io latency outcome i s)"
  by (simp_all add: report_latency_def Let_def write_calm split: option.split)

lemma sock_inv_step:
  assumes "sock_step x y" "sock_inv x"
  shows "sock_inv y"
  using assms(1)
proof cases
  case (step_accept input err addr s c s1 now ok s2 A D P)
  have inv: "conns_ok s (A \<union> D)" "servers_owned s P" "A \<inter> D = {}" using assms(2) step_accept(1) by simp_all
  note acc = accept_keeps [OF step_accept(3,4) inv(1)]
  have "servers_owned s2 P" using acc by (intro servers_owned_more [OF _ inv(2)]) simp_all
  moreover have "(if ok then insert c A else A) \<union> D = (if ok then insert c (A \<union> D) else A \<union> D)" by simp
  moreover have "(if ok then insert c A else A) \<inter> D = {}" using acc inv(3) by simp
  ultimately show ?thesis using acc unfolding step_accept(2) sock_inv.simps by simp
next
  case (step_turn c A env s s' D P)
  have inv: "conns_ok s (A \<union> D)" "servers_owned s P" "A \<inter> D = {}" using assms(2) step_turn(1) by simp_all
  show ?thesis
    using turn_keeps [OF step_turn(4) _ inv(1,2)] step_turn(3) inv(3) unfolding step_turn(2) sock_inv.simps by blast
next
  case (step_end c A env s s' D P)
  have inv: "conns_ok s (A \<union> D)" "servers_owned s P" "A \<inter> D = {}" using assms(2) step_end(1) by simp_all
  have "A - {c} \<union> insert c D = A \<union> D" "(A - {c}) \<inter> insert c D = {}" using step_end(3) inv(3) by blast+
  then show ?thesis
    using turn_keeps [OF step_end(4) _ inv(1,2)] step_end(3) unfolding step_end(2) sock_inv.simps by simp
next
  case (step_disconnect c D s srv s' A P)
  have inv: "conns_ok s (A \<union> D)" "servers_owned s P" "A \<inter> D = {}" using assms(2) step_disconnect(1) by simp_all
  have "A \<union> (D - {c}) = (A \<union> D) - {c}" "A \<inter> (D - {c}) = {}" using step_disconnect(3) inv(3) by blast+
  then show ?thesis
    using disconnect_keeps [OF step_disconnect(4) _ inv(1,2)] step_disconnect(3)
    unfolding step_disconnect(2) sock_inv.simps by simp
next
  case (step_remove r P s A D)
  have inv: "conns_ok s (A \<union> D)" "servers_owned s P" "A \<inter> D = {}" using assms(2) step_remove(1) by simp_all
  have "calm 0 s (disconnect_remove r s)" by (simp add: disconnect_remove_def Let_def)
  from conns_ok_calm [OF this inv(1)] remove_keeps [OF inv(2)] inv(3) show ?thesis
    unfolding step_remove(2) sock_inv.simps by blast
next
  case (step_latency s A D P io latency outcome i)
  let ?s = "report_latency io latency outcome i s"
  have inv: "conns_ok s (A \<union> D)" "servers_owned s P" "A \<inter> D = {}" using assms(2) step_latency(1) by simp_all
  note calm = report_latency_calm(1) [of 0 s io latency outcome i]
  have "ds_clients ?s = ds_clients s" using calm unfolding calm_def by blast
  then have "servers_owned ?s P" by (intro servers_owned_more [OF report_latency_calm(2) inv(2)]) simp
  with conns_ok_calm [OF calm inv(1)] inv(3) show ?thesis unfolding step_latency(2) sock_inv.simps by blast
next
  case (step_sessions w s A D P)
  have inv: "conns_ok s (A \<union> D)" "servers_owned s P" "A \<inter> D = {}" using assms(2) step_sessions(1) by simp_all
  have "registry_wf (w_srv w) (ds_registry s)"
    using inv(2) registry_wf_heap [of "w_srv (ds_world s)" "ds_registry s" "w_srv w"] step_sessions(3,4)
    by (simp add: servers_owned_def)
  then have "servers_owned (s\<lparr>ds_world := w\<rparr>) P" using inv(2) by (simp add: servers_owned_def)
  with conns_ok_calm [OF world_calm(1) inv(1)] inv(3) show ?thesis unfolding step_sessions(2) sock_inv.simps by blast
next
  case (step_cleanup s A D P now)
  let ?s = "s\<lparr>ds_throttle := cleanup now (ds_throttle s)\<rparr>"
  have inv: "conns_ok s (A \<union> D)" "servers_owned s P" "A \<inter> D = {}" using assms(2) step_cleanup(1) by simp_all
  have "calm 0 s ?s" by (simp add: calm_def)
  moreover have "servers_owned ?s P" using inv(2) by (simp add: servers_owned_def)
  ultimately show ?thesis
    using conns_ok_calm [of 0 s ?s "A \<union> D"] inv unfolding step_cleanup(2) sock_inv.simps by blast
qed

lemma sock_inv_reachable:
  assumes "sock_reachable secret w x"
  shows "sock_inv x"
  using assms
proof induction
  case sock_start
  show ?case
    by (simp add: conns_ok_def servers_owned_def NewDefaultServer_def NewDefaultRegistry_def registry_wf_def)
next
  case (sock_next x y)
  then show ?case using sock_inv_step by blast
qed

section \<open>The loop ends or it does not\<close>

definition input_kept :: "DefaultServer \<Rightarrow> DefaultServer \<Rightarrow> bool" where
  "input_kept s s' \<longleftrightarrow>
     (\<forall>d. cl_in (ds_client s' d) = cl_in (ds_client s d) \<and> cl_inErr (ds_client s' d) = cl_inErr (ds_client s d))"

lemma input_kept_refl [simp, intro]: "input_kept s s"
  by (simp add: input_kept_def)

lemma input_kept_same: "ds_client s' = ds_client s \<Longrightarrow> input_kept s s'"
  by (simp add: input_kept_def)

lemma reply_input: "reply env pk c s1 = (r, s') \<Longrightarrow> input_kept s s1 \<Longrightarrow> input_kept s s'"
  using reply_calm(4,5) by (simp add: input_kept_def)

lemma Handle_input:
  assumes "Handle h env p c s = (r, s')"
  shows "input_kept s s'"
proof -
  have auth: "input_kept s (snd (TryAuthenticate c name s))" "input_kept s (RecordAuthFailure c now s)" for name now
    by (simp_all add: input_kept_def TryAuthenticate_def upd_client_def Authenticate_def RecordAuthFailure_def)
  have "input_kept s s'" if "AuthRequest_Handle env pk c s = (r, s')" for pk
    using that auth
    by (auto simp: AuthRequest_Handle_def elim!: reply_input split: if_splits prod.splits bool.splits) (metis snd_conv)+
  moreover have "input_kept s s'" if "RegisterServer_Handle env pk c s = (r, s')" for pk
    using that by (auto simp: RegisterServer_Handle_def register_server_def Let_def intro: input_kept_same
        split: sum.splits option.splits prod.splits)
  moreover have "input_kept s s'" if "TransferRequest_Handle env pk c s = (r, s')" for pk
    using that by (auto simp: TransferRequest_Handle_def Let_def elim!: reply_input intro: input_kept_same
        split: option.splits if_splits prod.splits outcome.splits)
  moreover have "input_kept s s'" if "PlayerInfoRequest_Handle env pk c s = (r, s')" for pk
    using that by (auto simp: PlayerInfoRequest_Handle_def Let_def elim!: reply_input split: option.splits)
  moreover have "input_kept s s'" if "FindPlayerRequest_Handle env pk c s = (r, s')" for pk
    using that by (auto simp: FindPlayerRequest_Handle_def Let_def elim!: reply_input split: option.splits)
  moreover have "input_kept s s'" if "SetServerDraining_Handle pk c s = (r, s')" for pk
    using that by (auto simp: SetServerDraining_Handle_def intro: input_kept_same split: option.splits)
  moreover have "input_kept s s'" if "ServerListRequest_Handle env c s = (r, s')"
    using that by (auto simp: ServerListRequest_Handle_def elim!: reply_input)
  ultimately show ?thesis
    using assms by (auto simp: Handle_def split: PacketHandler.splits packet.splits)
qed

lemma reply_snd_input: "input_kept s (snd (reply env pk c s))"
  using reply_input [of env pk c s] by (metis input_kept_refl prod.collapse)

lemma handle_packet_input: "handle_packet env p c s = (t, s') \<Longrightarrow> input_kept s s'"
  using reply_snd_input [of s env "auth_response AuthResponseUnauthenticated" c]
  by (auto simp: handle_packet_def set_deadline_def input_kept_def dest!: Handle_input
      split: option.splits if_splits prod.splits handled.splits)

text \<open>What a failing read reports: the end of the frame or of the stream, or the error of the connection.\<close>

lemma ReadPacket_io_error:
  assumes "ReadPacket io cl = (Inl (ReadIO e), cl')"
  shows "e = cl_inErr cl \<or> e = ErrUnexpectedEOF \<or> e = EOF"
  using assms
  by (auto simp: ReadPacket_def ReadFull_def read_payload_def Let_def split: if_splits option.splits prod.splits)

lemma ReadPacket_progress:
  assumes "ReadPacket io cl = (r, cl')" "\<And>e. r \<noteq> Inl (ReadIO e)"
  shows "length (cl_in cl') + 4 \<le> length (cl_in cl)"
  using assms(1)
proof (cases rule: ReadPacket_cases)
  case (io_error err)
  with assms(2) show ?thesis by blast
next
  case (too_large bs rest)
  then show ?thesis by simp
next
  case (payload bs data rest)
  then show ?thesis using read_payload_frame [OF payload(5)] by simp
qed

text \<open>Errors that end the loop.\<close>

definition final_error :: "io_error \<Rightarrow> bool" where
  "final_error e \<longleftrightarrow> (case e of ErrOther msg \<Rightarrow> containsAny msg [''EOF'', ''closed''] | _ \<Rightarrow> True)"

lemma Contains_EOF: "Contains ''EOF'' ''EOF''" "Contains ''unexpected EOF'' ''EOF''"
  "Contains ''use of closed network connection'' ''closed''"
  by code_simp+

lemma final_error_ends:
  assumes "final_error e"
  shows "fst (handle_read_error env (ReadIO e) c s) = Ended"
  using assms Contains_EOF
  by (cases e) (simp_all add: final_error_def handle_read_error_def containsAny_def)

lemma turn_again_progress:
  assumes turn: "handleClient_turn env c s = (Again, s')" and final: "final_error (cl_inErr (ds_client s c))"
  shows "length (cl_in (ds_client s' c)) + 4 \<le> length (cl_in (ds_client s c)) \<and>
    cl_inErr (ds_client s' c) = cl_inErr (ds_client s c)"
proof -
  obtain r s1 where rp: "read_packet env c s = (r, s1)" by fastforce
  have go: "\<not> (\<not> authenticated s c \<and> AuthBlocked c (se_now env) s)"
    using turn by (auto simp: handleClient_turn_def)
  have kept: "input_kept s1 s'" and r: "r \<noteq> Inl (ReadIO e)" if "final_error e" for e
  proof -
    have "(case r of Inl err \<Rightarrow> handle_read_error env err c s1 | Inr p \<Rightarrow> handle_packet env p c s1) = (Again, s')"
      using turn go rp by (auto simp: handleClient_turn_def)
    then show "input_kept s1 s'" "r \<noteq> Inl (ReadIO e)"
      using final_error_ends [OF that, of env c s1]
      by (auto simp: handle_read_error_def dest: handle_packet_input split: sum.splits if_splits)
  qed
  have timeout: "final_error ErrTimeout" "final_error EOF" "final_error ErrUnexpectedEOF" by (simp_all add: final_error_def)
  then have "\<not> (past (se_readAt env) (ds_deadline s c) \<and> \<not> kept_error (ds_client s c))"
    using r [OF timeout(1)] rp by (auto simp: read_packet_def split: if_splits)
  then obtain cl where cl: "ReadPacket (se_io env) (ds_client s c) = (r, cl)" "s1 = upd_client c (\<lambda>_. cl) s"
    using rp by (auto simp: read_packet_def split: prod.splits)
  have "r \<noteq> Inl (ReadIO e)" for e
    using ReadPacket_io_error [of "se_io env" "ds_client s c" e cl] cl(1) r [OF final] r [OF timeout(2)] r [OF timeout(3)]
    by metis
  then have "length (cl_in cl) + 4 \<le> length (cl_in (ds_client s c))" using ReadPacket_progress [OF cl(1)] by blast
  moreover have "cl_inErr cl = cl_inErr (ds_client s c)" by (rule ReadPacket_frame(3) [OF cl(1)])
  moreover have "cl_in (ds_client s' c) = cl_in cl" "cl_inErr (ds_client s' c) = cl_inErr cl"
    using kept [OF timeout(1)] cl(2) by (simp_all add: input_kept_def upd_client_def)
  ultimately show ?thesis by simp
qed

section \<open>Properties\<close>

text \<open>C5: in every reachable state, whatever the goroutines of the connections do in whatever order, no two
  live connections are authenticated under the same name (in any case of letters), and asking for the
  connection of a name, other than the empty one, returns exactly the live connection that authenticated with it.\<close>

theorem one_connection_per_name:
  assumes "sock_reachable secret w (s, A, D, P)"
  shows "(\<forall>c \<in> A \<union> D. \<forall>d \<in> A \<union> D. authenticated s c \<and> authenticated s d \<and>
      EqualFold (client_name s c) (client_name s d) \<longrightarrow> c = d) \<and>
    (\<forall>name c. name \<noteq> '''' \<longrightarrow> (Server_Client s name = Some c \<longleftrightarrow>
      c \<in> A \<union> D \<and> authenticated s c \<and> EqualFold (client_name s c) name))"
proof -
  have "conns_ok s (A \<union> D)" using sock_inv_reachable [OF assms] by simp
  note ok = conns_okD [OF this]
  show ?thesis
  proof (intro conjI ballI allI impI iffI)
    fix c d assume L: "c \<in> A \<union> D" "d \<in> A \<union> D"
      and a: "authenticated s c \<and> authenticated s d \<and> EqualFold (client_name s c) (client_name s d)"
    have "ds_clients s (ToLower (client_name s c)) = Some c" "ds_clients s (ToLower (client_name s d)) = Some d"
      using ok(1) [OF L(1)] ok(1) [OF L(2)] a by blast+
    moreover have "ToLower (client_name s c) = ToLower (client_name s d)" using a unfolding EqualFold_def by blast
    ultimately have "Some c = Some d" by metis
    then show "c = d" by blast
  next
    fix name c assume name: "name \<noteq> ''''" and "Server_Client s name = Some c"
    then have k: "ds_clients s (ToLower name) = Some c" by (simp add: Server_Client_def)
    show "c \<in> A \<union> D" by (rule ok(3) [OF k]) (simp add: name)
    show "authenticated s c" "EqualFold (client_name s c) name" using ok(2) [OF k] by (simp_all add: EqualFold_def)
  next
    fix name c assume c: "c \<in> A \<union> D \<and> authenticated s c \<and> EqualFold (client_name s c) name"
    then have "ds_clients s (ToLower (client_name s c)) = Some c" using ok(1) by blast
    with c show "Server_Client s name = Some c" by (simp add: Server_Client_def EqualFold_def)
  qed
qed

text \<open>C6: in every reachable state a registered server (under any name but the empty one) has a live connection
  that is authenticated under its name, or the end of its connection is already being handled and the
  server is about to be removed: no server outlives the connection that registered it.\<close>

theorem registered_servers_have_a_connection:
  assumes "sock_reachable secret w (s, A, D, P)" "Registry_Server (ds_registry s) name = Some r" "name \<noteq> ''''"
  shows "r \<in> set P \<or> (\<exists>c \<in> A \<union> D. authenticated s c \<and> EqualFold (client_name s c) name)"
proof -
  have inv: "conns_ok s (A \<union> D)" "servers_owned s P" using sock_inv_reachable [OF assms(1)] by simp_all
  then have "ds_clients s (ToLower name) \<noteq> None \<or> r \<in> set P"
    using assms(2) by (simp add: servers_owned_def Registry_Server_def)
  then show ?thesis
  proof
    assume "ds_clients s (ToLower name) \<noteq> None"
    then obtain c where "ds_clients s (ToLower name) = Some c" by blast
    from conns_okD(2,3) [OF inv(1) this] assms(3) show ?thesis by (auto simp: EqualFold_def)
  qed simp
qed

text \<open>C7: what a connection can do before it is authenticated: a turn changes no session, no server and no
  registration, whatever it reads; and it authenticates nobody but itself, and only by an
  \<^verbatim>\<open>AuthRequest\<close> with the right version, with the configured secret (never when that is empty), under a
  name that is not taken, from an address that is not blocked.\<close>

theorem authentication_needs_the_secret:
  assumes "\<not> authenticated s c" "handleClient_turn env c s = (t, s')"
  shows "ds_world s' = ds_world s \<and> ds_registry s' = ds_registry s \<and>
    (\<forall>d. authenticated s' d \<and> \<not> authenticated s d \<longrightarrow> d = c \<and> \<not> AuthBlocked c (se_now env) s \<and>
      (\<exists>pk s1. read_packet env c s = (Inr (AuthRequestPk pk), s1) \<and> aq_Protocol pk = ProtocolVersion \<and>
        ds_secret s \<noteq> '''' \<and> aq_Secret pk = ds_secret s \<and> Server_Client s (aq_Name pk) = None \<and>
        client_name s' c = aq_Name pk \<and> Server_Client s' (aq_Name pk) = Some c))"
  using assms(2)
proof (cases rule: turn_cases)
  case kept
  then show ?thesis using assms(1) by (simp add: steady_def calm_def outside_same_def)
next
  case (accepted pk s1)
  then show ?thesis by (auto simp: admitted_as_def outside_same_def good_request_def Server_Client_def)
qed

text \<open>C20: nobody stays without authenticating. In every reachable state a connection that has not authenticated
  has a deadline, and its first turn after the deadline closes it and ends its loop, unless the
  connection keeps an error of its own.\<close>

theorem unauthenticated_dropped:
  assumes "sock_reachable secret w (s, A, D, P)" "c \<in> A" "\<not> authenticated s c" "\<not> kept_error (ds_client s c)"
  shows "\<exists>d. ds_deadline s c = Some d \<and>
    (\<forall>env. d < se_readAt env \<longrightarrow> fst (handleClient_turn env c s) = Ended \<and>
      cl_closed (ds_client (snd (handleClient_turn env c s)) c))"
proof -
  have "conns_ok s (A \<union> D)" using sock_inv_reachable [OF assms(1)] by simp
  from conns_okD(4) [OF this, of c] assms(2,3) obtain d where d: "ds_deadline s c = Some d" by auto
  have "\<not> containsAny ''i/o timeout'' [''EOF'', ''closed'']" by code_simp
  then have "fst (handleClient_turn env c s) = Ended \<and> cl_closed (ds_client (snd (handleClient_turn env c s)) c)"
    if "d < se_readAt env" for env
    using assms(3,4) that
    by (auto simp: handleClient_turn_def read_packet_def past_def d handle_read_error_def close_client_def
        upd_client_def Client_Close_def)
  with d show ?thesis by blast
qed

text \<open>C19: the loop of a connection ends. When the connection fails in the end with the end of the stream, a
  timeout or because it is closed, the loop returns, whatever bytes arrive before, whatever the
  handlers do with them, and whatever other goroutines do in between.\<close>

theorem handleClient_returns:
  assumes "\<And>n s. input_kept s (others n s)" "final_error (cl_inErr (ds_client s c))"
  shows "\<exists>t s'. handleClient_loop env others n c s = Some (t, s') \<and> t \<noteq> Again"
  using assms(2)
proof (induction "length (cl_in (ds_client s c))" arbitrary: s n rule: less_induct)
  case less
  let ?s = "others n s"
  have kept: "cl_in (ds_client ?s c) = cl_in (ds_client s c)" "cl_inErr (ds_client ?s c) = cl_inErr (ds_client s c)"
    using assms(1) [of s n] by (simp_all add: input_kept_def)
  obtain t s' where turn: "handleClient_turn (env n) c ?s = (t, s')" by fastforce
  show ?case
  proof (cases t)
    case Again
    have "length (cl_in (ds_client s' c)) < length (cl_in (ds_client s c))" "final_error (cl_inErr (ds_client s' c))"
      using turn_again_progress [OF turn [unfolded Again]] less.prems kept by simp_all
    from less.hyps [OF this] show ?thesis
      by (subst handleClient_loop.simps) (simp add: turn Again)
  qed (use turn in \<open>subst handleClient_loop.simps; simp\<close>)+
qed

section \<open>Witnesses\<close>

text \<open>A backend connects, authenticates and registers itself.\<close>

definition ex_register :: packet where
  "ex_register = RegisterServerPk
     \<lparr>rs_Address = ''10.0.0.7:19132'', rs_Transport = '''', rs_LegacyAuth = False, rs_Group = ''lobby'', rs_Weight = 1\<rparr>"

definition ex_frame :: "packet \<Rightarrow> byte list" where
  "ex_frame pk = framed (Header_Write \<lparr>PacketID = packet_ID pk\<rparr> @ Marshal bedrock_wire pk)"

definition ex_sock_env :: sock_env where
  "ex_sock_env = \<lparr>se_io = bedrock_wire, se_panicText = (\<lambda>_. ''EOF''), se_now = 1, se_readAt = 2, se_write = (0, None),
     se_urlParse = (\<lambda>_. Inl ''missing protocol scheme''), se_cluster = None, se_order = [], se_remoteAddr = (\<lambda>_. ''''),
     se_transfer = ex_env, se_start = 0\<rparr>"

definition ex_accepted :: DefaultServer where
  "ex_accepted = snd (handleClient_begin 0 0 (snd (accept_client (ex_frame ex_request @ ex_frame ex_register) EOF
     ''10.0.0.7:5000'' (NewDefaultServer ''s3cret'' NewDefaultRegistry ex_world))))"

definition ex_admitted :: DefaultServer where
  "ex_admitted = snd (handleClient_turn ex_sock_env 0 ex_accepted)"

definition ex_registered :: DefaultServer where
  "ex_registered = snd (handleClient_turn ex_sock_env 0 ex_admitted)"

lemma sendable_ex_register: "sendable bedrock_wire ex_register"
  using length_put_var [of 5 "length ''10.0.0.7:19132''"] length_put_var [of 5 "length ''lobby''"] length_put_var [of 5 0] length_put_var [of 5 1]
  by (simp add: sendable_def unat_maxPacketSize ex_register_def RegisterServer_fits_def str_ok_def
      RegisterServer_Marshal_def bedrock_wire_def put_string_def)

lemma ex_read:
  assumes "cl_in (ds_client s c) = ex_frame pk @ rest" "sendable bedrock_wire pk" "packet_vis pk = pk"
    and "pool_wf (cl_pool (ds_client s c))" "ds_deadline s c = None \<or> ds_deadline s c = Some authTimeout"
    and vis: "\<And>pk'. packet_vis pk' = pk \<Longrightarrow> pk' = pk"
  obtains cl where "read_packet ex_sock_env c s = (Inr pk, upd_client c (\<lambda>_. cl) s)" "cl_in cl = rest"
    "pool_wf (cl_pool cl)" "cl_authenticated cl = authenticated s c" "cl_name cl = client_name s c"
    "cl_inErr cl = cl_inErr (ds_client s c)"
proof -
  obtain pk' cl where r: "ReadPacket bedrock_wire (ds_client s c) = (Inr pk', cl)" "packet_vis pk' = packet_vis pk"
    "cl_in cl = rest" "pool_wf (cl_pool cl)"
    using ReadPacket_framed [OF bedrock_wire_laws assms(2,4)] assms(1) by (auto simp: ex_frame_def)
  moreover have "pk' = pk" using vis r(2) assms(3) by simp
  moreover have "\<not> past (se_readAt ex_sock_env) (ds_deadline s c)"
    using assms(5) by (auto simp: past_def ex_sock_env_def authTimeout_def Second_def)
  moreover have "se_io ex_sock_env = bedrock_wire" by (simp add: ex_sock_env_def)
  ultimately show thesis
    using that [of cl] ReadPacket_frame [OF r(1)] by (simp add: read_packet_def)
qed

lemma sendable_ex_request: "sendable bedrock_wire ex_request"
  using sendable_ex by simp

lemma ex_vis: "packet_vis pk' = ex_request \<Longrightarrow> pk' = ex_request" "packet_vis pk' = ex_register \<Longrightarrow> pk' = ex_register"
  "packet_vis ex_request = ex_request" "packet_vis ex_register = ex_register"
  by (cases pk'; simp add: ex_request_def ex_register_def)+

lemma ex_handlers:
  "packet_handlers (packet_ID ex_request) = Some AuthRequestHandler"
  "packet_handlers (packet_ID ex_register) = Some RegisterServerHandler"
  by (simp_all add: packet_handlers_def RegisterHandler_def ID_defs ex_request_def ex_register_def)

lemma ex_accepted_simps:
  "cl_in (ds_client ex_accepted 0) = ex_frame ex_request @ ex_frame ex_register" "\<not> authenticated ex_accepted 0"
  "cl_inErr (ds_client ex_accepted 0) = EOF" "pool_wf (cl_pool (ds_client ex_accepted 0))"
  "ds_deadline ex_accepted 0 = Some authTimeout" "ds_clients ex_accepted = Map.empty" "ds_secret ex_accepted = ''s3cret''"
  "ds_registry ex_accepted = NewDefaultRegistry" "ds_world ex_accepted = ex_world" "ds_throttle ex_accepted = newAuthThrottle"
  by (simp_all add: ex_accepted_def accept_client_def handleClient_begin_def NewDefaultServer_def NewClient_def
      AuthBlocked_def Blocked_def newAuthThrottle_def set_deadline_def pool_wf_NewPool Let_def)

lemma ex_not_blocked: "\<not> AuthBlocked c now ex_accepted"
  by (simp add: AuthBlocked_def Blocked_def ex_accepted_simps newAuthThrottle_def)

lemma ex_reply:
  "\<exists>cl. reply ex_sock_env pk c s = (HandledOk, upd_client c (\<lambda>_. cl) s) \<and>
     cl_authenticated cl = authenticated s c \<and> cl_name cl = client_name s c \<and> cl_in cl = cl_in (ds_client s c) \<and>
     cl_pool cl = cl_pool (ds_client s c)"
  by (rule exI [of _ "(ds_client s c)\<lparr>cl_hdr := (cl_hdr (ds_client s c))\<lparr>PacketID := packet_ID pk\<rparr>, cl_buf := []\<rparr>"])
    (simp add: reply_def WritePacket_def ex_sock_env_def Let_def)

lemma ex_admitted_turn:
  "handleClient_turn ex_sock_env 0 ex_accepted = (Again, ex_admitted)"
  "authenticated ex_admitted 0" "client_name ex_admitted 0 = ''Lobby-1''" "ds_deadline ex_admitted 0 = None"
  "cl_in (ds_client ex_admitted 0) = ex_frame ex_register" "pool_wf (cl_pool (ds_client ex_admitted 0))"
  "ds_registry ex_admitted = NewDefaultRegistry" "ds_world ex_admitted = ex_world"
proof -
  obtain cl where rd: "read_packet ex_sock_env 0 ex_accepted = (Inr ex_request, upd_client 0 (\<lambda>_. cl) ex_accepted)"
    and cl: "cl_in cl = ex_frame ex_register" "pool_wf (cl_pool cl)" "\<not> cl_authenticated cl"
    by (rule ex_read [OF ex_accepted_simps(1) sendable_ex_request ex_vis(3) ex_accepted_simps(4) disjI2 [OF ex_accepted_simps(5)]])
      (use ex_vis(1) ex_accepted_simps(2) in auto)
  let ?s = "upd_client 0 (\<lambda>_. cl) ex_accepted"
  have s: "\<not> authenticated ?s 0" "ds_secret ?s = ''s3cret''"
    using cl(3) by (simp_all add: upd_client_def ex_accepted_simps)
  obtain t where att: "TryAuthenticate 0 ''Lobby-1'' ?s = (True, t)"
    by (simp add: TryAuthenticate_def upd_client_def ex_accepted_simps)
  have t: "authenticated t 0" "client_name t 0 = ''Lobby-1''" "cl_in (ds_client t 0) = ex_frame ex_register"
    "pool_wf (cl_pool (ds_client t 0))" "ds_registry t = NewDefaultRegistry" "ds_world t = ex_world"
    using att cl by (auto simp: TryAuthenticate_def upd_client_def ex_accepted_simps Authenticate_def)
  obtain cl' where rep: "reply ex_sock_env (auth_response AuthResponseSuccess) 0 t = (HandledOk, upd_client 0 (\<lambda>_. cl') t)"
    and cl': "cl_authenticated cl' = authenticated t 0" "cl_name cl' = client_name t 0" "cl_in cl' = cl_in (ds_client t 0)"
      "cl_pool cl' = cl_pool (ds_client t 0)"
    using ex_reply by blast
  have "AuthRequest_Handle ex_sock_env \<lparr>aq_Protocol = 3, aq_Secret = ''s3cret'', aq_Name = ''Lobby-1''\<rparr> 0 ?s =
      (HandledOk, upd_client 0 (\<lambda>_. cl') t)"
    using s by (simp add: AuthRequest_Handle_def ProtocolVersion_def att rep)
  then have "handleClient_turn ex_sock_env 0 ex_accepted = (Again, set_deadline 0 None (upd_client 0 (\<lambda>_. cl') t))"
    using s t(1) cl'(1) ex_handlers(1)
    by (simp add: handleClient_turn_def ex_not_blocked rd handle_packet_def Handle_def RequiresAuth_def
        ex_request_def upd_client_def [of _ _ t])
  then show "handleClient_turn ex_sock_env 0 ex_accepted = (Again, ex_admitted)"
    "authenticated ex_admitted 0" "client_name ex_admitted 0 = ''Lobby-1''" "ds_deadline ex_admitted 0 = None"
    "cl_in (ds_client ex_admitted 0) = ex_frame ex_register" "pool_wf (cl_pool (ds_client ex_admitted 0))"
    "ds_registry ex_admitted = NewDefaultRegistry" "ds_world ex_admitted = ex_world"
    using t cl' by (simp_all add: ex_admitted_def set_deadline_def upd_client_def)
qed

lemma ex_registered_turn:
  "handleClient_turn ex_sock_env 0 ex_admitted = (Again, ex_registered)"
  "Registry_Server (ds_registry ex_registered) ''Lobby-1'' = Some 3"
proof -
  obtain cl where rd: "read_packet ex_sock_env 0 ex_admitted = (Inr ex_register, upd_client 0 (\<lambda>_. cl) ex_admitted)"
    and cl: "cl_authenticated cl = authenticated ex_admitted 0" "cl_name cl = client_name ex_admitted 0"
    by (rule ex_read [where rest = "[]", OF _ sendable_ex_register ex_vis(4) ex_admitted_turn(6) disjI1 [OF ex_admitted_turn(4)]])
      (use ex_vis(2) ex_admitted_turn(5) in auto)
  let ?s = "upd_client 0 (\<lambda>_. cl) ex_admitted"
  have s: "authenticated ?s 0" "client_name ?s 0 = ''Lobby-1''" "ds_registry ?s = NewDefaultRegistry" "ds_world ?s = ex_world"
    using cl ex_admitted_turn(2,3,7,8) by (simp_all add: upd_client_def)
  obtain pk where pk: "ex_register = RegisterServerPk pk" "rs_Transport pk = ''''" "rs_Address pk = ''10.0.0.7:19132''"
    by (simp add: ex_register_def)
  let ?r = "register_server pk TransportRakNet ''Lobby-1'' ?s"
  have "RegisterServer_Handle ex_sock_env pk 0 ?s = (HandledOk, ?r)"
    using s(2) by (simp add: RegisterServer_Handle_def pk parseTransport_def validateAddress_def TransportRakNet_def TransportNetherNet_def)
  moreover have "authenticated ?r 0" using s(1) by (simp add: register_server_def Let_def split: prod.split)
  ultimately have t: "handleClient_turn ex_sock_env 0 ex_admitted = (Again, set_deadline 0 None ?r)"
    using s(1) ex_handlers(2) ex_admitted_turn(2)
    by (simp add: handleClient_turn_def rd handle_packet_def Handle_def pk(1))
  then show "handleClient_turn ex_sock_env 0 ex_admitted = (Again, ex_registered)"
    by (simp add: ex_registered_def)
  show "Registry_Server (ds_registry ex_registered) ''Lobby-1'' = Some 3"
    using register_server_simps(2) [of pk TransportRakNet "''Lobby-1''" ?s]
    by (simp add: ex_registered_def t set_deadline_def Registry_Server_def s ex_world_def)
qed

lemma ex_sock_reachable:
  "sock_reachable ''s3cret'' ex_world (ex_accepted, {0}, {}, [])"
  "sock_reachable ''s3cret'' ex_world (ex_admitted, {0}, {}, [])"
  "sock_reachable ''s3cret'' ex_world (ex_registered, {0}, {}, [])"
proof -
  let ?s = "NewDefaultServer ''s3cret'' NewDefaultRegistry ex_world"
  obtain s1 where acc: "accept_client (ex_frame ex_request @ ex_frame ex_register) EOF ''10.0.0.7:5000'' ?s = (0, s1)"
    by (simp add: accept_client_def NewDefaultServer_def Let_def)
  have "handleClient_begin 0 0 s1 = (True, ex_accepted)"
    using acc by (auto simp: ex_accepted_def handleClient_begin_def AuthBlocked_def Blocked_def accept_client_def
        NewDefaultServer_def newAuthThrottle_def Let_def)
  from step_accept [OF acc this, of "{}" "{}" "[]"]
  have "sock_step (?s, {}, {}, []) (ex_accepted, {0}, {}, [])" by simp
  then show acc: "sock_reachable ''s3cret'' ex_world (ex_accepted, {0}, {}, [])" by (rule sock_next [OF sock_start])
  show adm: "sock_reachable ''s3cret'' ex_world (ex_admitted, {0}, {}, [])"
    by (rule sock_next [OF acc step_turn [OF _ ex_admitted_turn(1)]]) simp
  show "sock_reachable ''s3cret'' ex_world (ex_registered, {0}, {}, [])"
    by (rule sock_next [OF adm step_turn [OF _ ex_registered_turn(1)]]) simp
qed

theorem one_connection_per_name_witness:
  "Server_Client ex_admitted ''LOBBY-1'' = Some 0"
proof -
  have "EqualFold ''Lobby-1'' ''LOBBY-1''" by code_simp
  then show ?thesis
    using one_connection_per_name [OF ex_sock_reachable(2)] ex_admitted_turn(2,3) by simp
qed

theorem registered_servers_have_a_connection_witness:
  "Registry_Server (ds_registry ex_registered) ''Lobby-1'' = Some 3 \<and> authenticated ex_registered 0"
  using registered_servers_have_a_connection [OF ex_sock_reachable(3) ex_registered_turn(2)] ex_registered_turn(2) by simp

theorem authentication_needs_the_secret_witness:
  "ds_world ex_admitted = ex_world \<and> (\<exists>pk s1. read_packet ex_sock_env 0 ex_accepted = (Inr (AuthRequestPk pk), s1) \<and>
     aq_Secret pk = ''s3cret'')"
  using authentication_needs_the_secret [OF ex_accepted_simps(2) ex_admitted_turn(1)] ex_accepted_simps(2,7,9) ex_admitted_turn(2)
  by fastforce

theorem unauthenticated_dropped_witness:
  "fst (handleClient_turn (ex_sock_env\<lparr>se_readAt := authTimeout + 1\<rparr>) 0 ex_accepted) = Ended"
proof -
  have "\<not> kept_error (ds_client ex_accepted 0)" by (simp add: kept_error_def ex_accepted_simps)
  from unauthenticated_dropped [OF ex_sock_reachable(1) _ ex_accepted_simps(2) this] show ?thesis
    by (auto simp: ex_accepted_simps)
qed

theorem handleClient_returns_witness:
  "\<exists>t s'. handleClient_loop (\<lambda>_. ex_sock_env) (\<lambda>_ s. s) 0 0 ex_accepted = Some (t, s') \<and> t \<noteq> Again"
  by (rule handleClient_returns) (simp_all add: ex_accepted_simps final_error_def)

end
