(* ===== verification/SocketEdges.thy ===== *)
theory SocketEdges
  imports SocketSteps
begin

text \<open>
  The socket server at its edges: what it does with errors that a connection keeps, with an empty name, with a
  server that registers again while it has players, and with sessions that are not complete yet.
\<close>

section \<open>A connection that keeps failing\<close>

text \<open>The connection returns the same error on every read, neither an end nor a timeout, and its address has not
  been caught guessing secrets.\<close>

definition failing_for_ever :: "client_ref \<Rightarrow> DefaultServer \<Rightarrow> bool" where
  "failing_for_ever c s \<longleftrightarrow>
     cl_in (ds_client s c) = [] \<and> \<not> final_error (cl_inErr (ds_client s c)) \<and>
     (authenticated s c \<or> at_state (ds_throttle s) (hostOf (ds_addr s c)) = None)"

lemma failing_turn:
  assumes "failing_for_ever c s"
  shows "\<exists>s'. handleClient_turn env c s = (Again, s') \<and> failing_for_ever c s'"
proof -
  obtain msg where msg: "cl_inErr (ds_client s c) = ErrOther msg" "\<not> containsAny msg [''EOF'', ''closed'']"
    and empty: "cl_in (ds_client s c) = []"
    using assms by (auto simp: failing_for_ever_def final_error_def split: io_error.splits)
  have "\<not> (\<not> authenticated s c \<and> AuthBlocked c (se_now env) s)"
    using assms by (auto simp: failing_for_ever_def AuthBlocked_def Blocked_def)
  moreover have "kept_error (ds_client s c)" by (simp add: kept_error_def empty msg)
  moreover have "ReadPacket (se_io env) (ds_client s c) = (Inl (ReadIO (ErrOther msg)), (ds_client s c)\<lparr>cl_in := []\<rparr>)"
    by (simp add: ReadPacket_def ReadFull_def empty msg)
  ultimately have "handleClient_turn env c s = (Again, upd_client c (\<lambda>_. (ds_client s c)\<lparr>cl_in := []\<rparr>) s)"
    using msg(2) by (auto simp: handleClient_turn_def read_packet_def handle_read_error_def)
  then show ?thesis using assms by (auto simp: failing_for_ever_def upd_client_def)
qed

lemma failing_not_Some:
  "handleClient_loop env others n c s = Some r \<Longrightarrow>
   (\<forall>n s. failing_for_ever c s \<longrightarrow> failing_for_ever c (others n s)) \<longrightarrow> \<not> failing_for_ever c s"
proof (rule handleClient_loop.raw_induct [where P = "\<lambda>env others n c s r.
    (\<forall>n s. failing_for_ever c s \<longrightarrow> failing_for_ever c (others n s)) \<longrightarrow> \<not> failing_for_ever c s"])
  fix loop :: "(nat \<Rightarrow> sock_env) \<Rightarrow> (nat \<Rightarrow> DefaultServer \<Rightarrow> DefaultServer) \<Rightarrow> nat \<Rightarrow> client_ref \<Rightarrow> DefaultServer \<Rightarrow>
      (turn \<times> DefaultServer) option"
    and env others n c s r
  assume IH: "\<And>env others n c s r. loop env others n c s = Some r \<Longrightarrow>
      (\<forall>n s. failing_for_ever c s \<longrightarrow> failing_for_ever c (others n s)) \<longrightarrow> \<not> failing_for_ever c s"
    and eq: "(case handleClient_turn (env n) c (others n s) of
        (Again, s) \<Rightarrow> loop env others (Suc n) c s
      | (Ended, s) \<Rightarrow> Some (Ended, s)
      | (Crashed, s) \<Rightarrow> Some (Crashed, s)) = Some r"
  show "(\<forall>n s. failing_for_ever c s \<longrightarrow> failing_for_ever c (others n s)) \<longrightarrow> \<not> failing_for_ever c s"
  proof (intro impI notI)
    assume others: "\<forall>n s. failing_for_ever c s \<longrightarrow> failing_for_ever c (others n s)" and "failing_for_ever c s"
    then obtain s' where s': "handleClient_turn (env n) c (others n s) = (Again, s')" "failing_for_ever c s'"
      using failing_turn by blast
    then have "loop env others (Suc n) c s' = Some r" using eq by simp
    from IH [OF this] others s'(2) show False by blast
  qed
qed

section \<open>The empty name\<close>

lemma empty_name_step:
  assumes "sock_step x y" "ds_clients (fst x) [] = Some c"
  shows "ds_clients (fst y) [] = Some c"
  using assms(1)
proof cases
  case (step_accept input err addr s c s1 now ok s2 A D P)
  then have "ds_clients s2 = ds_clients s"
    by (auto simp: accept_client_def handleClient_begin_def set_deadline_def close_client_def upd_client_def Let_def
        split: if_splits)
  with step_accept(1,2) assms(2) show ?thesis by simp
next
  case (step_turn d A env s s' D P)
  from step_turn(4) have "ds_clients s' [] = ds_clients s []" if "ds_clients s [] \<noteq> None"
    by (cases rule: turn_cases) (use that in \<open>auto simp: steady_def calm_def admitted_as_def\<close>)
  with step_turn(1,2) assms(2) show ?thesis by simp
next
  case (step_end d A env s s' D P)
  from step_end(4) have "ds_clients s' [] = ds_clients s []" if "ds_clients s [] \<noteq> None"
    by (cases rule: turn_cases) (use that in \<open>auto simp: steady_def calm_def admitted_as_def\<close>)
  with step_end(1,2) assms(2) show ?thesis by simp
next
  case (step_disconnect d D s srv s' A P)
  have "client_name s d \<noteq> [] \<Longrightarrow> [] \<noteq> ToLower (client_name s d)" by (metis ToLower_Nil_iff)
  with step_disconnect(4) have "ds_clients s' [] = ds_clients s []"
    by (auto simp: disconnect_locked_def Let_def split: if_splits)
  with step_disconnect(1,2) assms(2) show ?thesis by simp
next
  case (step_remove r P s A D)
  with assms(2) show ?thesis by (simp add: disconnect_remove_def Let_def)
next
  case (step_latency s A D P io latency outcome i)
  with assms(2) report_latency_calm(1) [of 0 s io latency outcome i] show ?thesis by (simp add: calm_def)
qed (use assms(2) in simp_all)

section \<open>Properties\<close>

text \<open>A connection that keeps an error which is neither an end of stream nor a timeout is never let go. The
  loop reads, fails, logs and reads again for ever: it does not return, so the connection is neither closed nor
  taken from the tables, and its name stays taken. (A client that speaks no TLS to a TLS socket is such a
  connection, before it authenticates and beyond its deadline.)\<close>

lemma handleClient_spins:
  assumes "\<And>n s. failing_for_ever c s \<Longrightarrow> failing_for_ever c (others n s)" "failing_for_ever c s"
  shows "handleClient_loop env others n c s = None"
  using failing_not_Some assms by (metis option.exhaust)

text \<open>The empty name is given away once. A connection may authenticate with an empty name, but its end does
  not free it: from then on, whatever happens, the table leads to that connection, and every later request
  for the empty name is turned down.\<close>

lemma empty_name_is_lost:
  assumes "Server_Client s '''' = Some c" "rtranclp sock_step (s, A, D, P) (s', A', D', P')"
  shows "Server_Client s' '''' = Some c \<and> fst (TryAuthenticate d '''' s') = False"
proof -
  have "ds_clients (fst y) [] = Some c" if "rtranclp sock_step (s, A, D, P) y" for y
    using that
  proof induction
    case base
    then show ?case using assms(1) by (simp add: Server_Client_def ToLower_def)
  next
    case (step y z)
    then show ?case using empty_name_step by blast
  qed
  from this [OF assms(2)] show ?thesis by (simp add: Server_Client_def TryAuthenticate_def ToLower_def)
qed

text \<open>C39: a server that registers again keeps its players for ever. The new registration takes over the player
  count, but the sessions stay with the replaced server: when one of them closes, the count goes down
  there, and the registered server still counts a player that is gone.\<close>

theorem reregistration_counts_ghosts:
  assumes "Registry_Server (ds_registry s) (client_name s c) = Some old" "old < srv_next (w_srv (ds_world s))"
    and "s_server (w_sess (ds_world s) i) = Some old" "\<not> s_once (w_sess (ds_world s) i)"
    and "RegisterServer_Handle env pk c s = (HandledOk, s')" "w' = Close now i (ds_world s')"
  shows "\<exists>new. Registry_Server (ds_registry s') (client_name s c) = Some new \<and> new \<noteq> old \<and>
    PlayerCount (w_srv w') new = PlayerCount (w_srv (ds_world s)) old \<and>
    PlayerCount (w_srv w') old = PlayerCount (w_srv (ds_world s)) old - 1"
proof -
  let ?new = "srv_next (w_srv (ds_world s))"
  obtain tr where s': "s' = register_server pk tr (client_name s c) s"
    using assms(5) by (auto simp: RegisterServer_Handle_def split: sum.splits option.splits)
  have reg: "Registry_Server (ds_registry s') (client_name s c) = Some ?new"
    by (simp add: s' Registry_Server_def register_server_simps(2))
  have sess: "w_sess (ds_world s') i = w_sess (ds_world s) i"
    by (simp add: s' register_server_def Let_def split: prod.split)
  have count: "PlayerCount (w_srv (ds_world s')) ?new = PlayerCount (w_srv (ds_world s)) old"
    "PlayerCount (w_srv (ds_world s')) old = PlayerCount (w_srv (ds_world s)) old"
    using assms(1,2) by (simp_all add: s' register_server_simps(1) take_over_def PlayerCount_def
        SetPlayerCount_def SetHealthy_def SetDraining_def upd_server_def)
  from reg assms(2) show ?thesis
    using assms(3,4) by (intro exI [of _ ?new]) (simp add: assms(6) Close_count occ_def sess count)
qed

text \<open>C37: asking for a player who is just joining can crash the proxy. Between storing a new session and
  giving it a server, a request to find or to transfer the player dereferences a nil server in a
  goroutine that recovers no panics.\<close>

theorem joining_player_crashes_proxy:
  assumes "ds_world s = New_stored u ident cd conn w" "authenticated s c"
  shows "fst (handle_packet env (FindPlayerRequestPk \<lparr>fq_PlayerUUID = u, fq_PlayerName = name\<rparr>) c s) = Crashed \<and>
    (Registry_Server (ds_registry s) target \<noteq> None \<longrightarrow>
     fst (handle_packet env (TransferRequestPk \<lparr>tq_PlayerUUID = u, tq_Server = target\<rparr>) c s) = Crashed)"
proof -
  let ?i = "w_next w"
  have load: "Store_Load (w_store (ds_world s)) u = Some ?i" "s_server (w_sess (ds_world s) ?i) = None"
    by (simp_all add: assms(1) New_stored_def Store_Load_def Store_Store_def fresh_session_def Let_def)
  have "packet_handlers (packet_ID (FindPlayerRequestPk q)) = Some FindPlayerRequestHandler"
    "packet_handlers (packet_ID (TransferRequestPk t)) = Some TransferRequestHandler" for q t
    by (simp_all add: packet_handlers_def RegisterHandler_def ID_defs)
  then show ?thesis using assms(2) load
    by (auto simp: handle_packet_def Handle_def FindPlayerRequest_Handle_def find_session_def
        TransferRequest_Handle_def Let_def split: prod.splits)
qed

section \<open>Witnesses\<close>

definition ex_plain :: DefaultServer where
  "ex_plain = snd (handleClient_begin 0 0 (snd (accept_client []
     (ErrOther ''tls: first record does not look like a TLS handshake'') ''10.0.0.9:4000''
     (NewDefaultServer ''s3cret'' NewDefaultRegistry ex_world))))"

definition ex_nameless :: DefaultServer where
  "ex_nameless = snd (TryAuthenticate 0 '''' ex_accepted)"

definition ex_busy :: DefaultServer where
  "ex_busy = (snd (TryAuthenticate 0 ''lobby'' ex_accepted))\<lparr>ds_world := ex_joined,
     ds_registry := AddServer (w_srv ex_joined) 0 NewDefaultRegistry\<rparr>"

lemma ex_busy_simps:
  "client_name ex_busy 0 = ''lobby''" "authenticated ex_busy 0" "ds_world ex_busy = ex_joined"
  "ds_registry ex_busy = AddServer (w_srv ex_joined) 0 NewDefaultRegistry"
  by (simp_all add: ex_busy_def TryAuthenticate_def upd_client_def Authenticate_def ex_accepted_simps)

lemma ex_joined_lobby: "Name (w_srv ex_joined) 0 = ''lobby''" "srv_next (w_srv ex_joined) = 3"
  by (simp_all add: ex_defs New_stored_def IncrementPlayerCount_def upd_server_def server_New_def)

theorem reregistration_counts_ghosts_witness:
  "\<exists>s' new. RegisterServer_Handle ex_sock_env
     \<lparr>rs_Address = ''10.0.0.7:19132'', rs_Transport = '''', rs_LegacyAuth = False, rs_Group = '''', rs_Weight = 1\<rparr> 0 ex_busy = (HandledOk, s') \<and>
     Registry_Server (ds_registry s') ''lobby'' = Some new \<and> PlayerCount (w_srv (Close 8 0 (ds_world s'))) new = 1"
proof -
  let ?pk = "\<lparr>rs_Address = ''10.0.0.7:19132'', rs_Transport = '''', rs_LegacyAuth = False, rs_Group = '''', rs_Weight = 1\<rparr>"
  obtain s' where s': "RegisterServer_Handle ex_sock_env ?pk 0 ex_busy = (HandledOk, s')"
    by (simp add: RegisterServer_Handle_def parseTransport_def validateAddress_def TransportRakNet_def TransportNetherNet_def)
  have reg: "Registry_Server (ds_registry ex_busy) (client_name ex_busy 0) = Some 0"
    by (simp add: ex_busy_simps Registry_Server_def AddServer_def ex_joined_lobby)
  from reregistration_counts_ghosts [OF reg _ _ _ s' refl, of 0 8] s' show ?thesis
    by (auto simp: ex_busy_simps ex_joined_lobby ex_joined_sess)
qed

definition ex_joining :: DefaultServer where
  "ex_joining = ex_busy\<lparr>ds_world := New_stored 7 \<lparr>id_XUID = ''253'', id_DisplayName = ''Steve''\<rparr>
     \<lparr>cd_PlatformOnlineID = [], cd_PlatformOfflineID = [], cd_PlayFabID = [], cd_ThirdPartyName = []\<rparr> 100 ex_world\<rparr>"

theorem joining_player_crashes_proxy_witness:
  "fst (handle_packet ex_sock_env (FindPlayerRequestPk \<lparr>fq_PlayerUUID = 7, fq_PlayerName = ''Steve''\<rparr>) 0 ex_joining) = Crashed"
proof -
  have "authenticated ex_joining 0" by (simp add: ex_joining_def ex_busy_simps)
  from joining_player_crashes_proxy [OF _ this] show ?thesis by (simp add: ex_joining_def)
qed

end
