(* ===== verification/Decimals.thy ===== *)
theory Decimals
  imports Prelude
begin

text \<open>
  Facts on the decimal text of integers that parsing, the console and the fingerprints of directories share: its
  characters are digits, and it determines the number.
\<close>

lemma show_nat_not_Nil [simp]: "show_nat n \<noteq> []"
  by (subst show_nat.simps) simp

lemma show_nat_digits: "c \<in> set (show_nat n) \<Longrightarrow> 48 \<le> (of_char c :: nat) \<and> (of_char c :: nat) \<le> 57"
proof (induction n rule: show_nat.induct)
  case (1 n)
  then show ?case by (subst (asm) (2) show_nat.simps) (auto split: if_splits)
qed

lemma show_nat_inj: "show_nat m = show_nat n \<Longrightarrow> m = n"
proof (induction m arbitrary: n rule: show_nat.induct)
  case (1 m)
  have last: "last (show_nat k) = char_of (48 + k mod 10)" for k by (subst show_nat.simps) simp
  have butlast: "butlast (show_nat k) = (if k < 10 then [] else show_nat (k div 10))" for k
    by (subst show_nat.simps) simp
  from "1.prems" have "char_of (48 + m mod 10) = (char_of (48 + n mod 10) :: char)" by (metis last)
  then have "(of_char (char_of (48 + m mod 10) :: char) :: nat) = of_char (char_of (48 + n mod 10) :: char)" by simp
  then have mod: "m mod 10 = n mod 10" by simp
  from "1.prems" have b: "(if m < 10 then [] else show_nat (m div 10)) = (if n < 10 then [] else show_nat (n div 10))"
    by (metis butlast)
  show ?case
  proof (cases "m < 10")
    case True
    with b have "n < 10" by (metis show_nat_not_Nil)
    with True mod show ?thesis by simp
  next
    case False
    with b have "\<not> n < 10" by (metis show_nat_not_Nil)
    with b False have "show_nat (m div 10) = show_nat (n div 10)" by simp
    with "1.IH" [OF False] mod show ?thesis by (metis mult_div_mod_eq)
  qed
qed

lemma show_nat_no_minus: "CHR ''-'' \<notin> set (show_nat n)"
  using show_nat_digits [of "CHR ''-''" n] by auto

lemma show_int_inj: "show_int i = show_int j \<Longrightarrow> i = j"
  using show_nat_no_minus [of "nat i"] show_nat_no_minus [of "nat j"]
  by (auto simp: show_int_def split: if_splits dest: show_nat_inj)
     (metis list.set_intros(1))+

lemma show_int_no_nul: "CHR 0x00 \<notin> set (show_int i)"
  using show_nat_digits [of "CHR 0x00"] by (auto simp: show_int_def)

end
