(* ===== verification/ResourcePacks.thy ===== *)
theory ResourcePacks
  imports Events Decimals
begin

text \<open>
  Resource packs (\<^verbatim>\<open>resource_pack_manager.go\<close> and the loading functions of \<^verbatim>\<open>config.go\<close>): the fingerprint of the
  directory, loading its packs, and the manager that reloads them while the proxy runs.

  The directory is a tree. What \<^verbatim>\<open>filepath.WalkDir\<close> and \<^verbatim>\<open>os.ReadDir\<close> see of it is an argument for each time
  the code looks, so that it may change in between. The compiler of packs (\<^verbatim>\<open>resource\<close> of \<^verbatim>\<open>gophertunnel\<close>) is the
  record \<open>pack_lib\<close>, and \<^verbatim>\<open>sha256\<close> with its hexadecimal text the function \<open>hash\<close>.
\<close>

section \<open>The directory\<close>

text \<open>A file with its size, its modification time and its contents; a directory with its entries in the order of
  \<^verbatim>\<open>ReadDir\<close>; a symbolic link; or an entry that cannot be read.\<close>

datatype fs_entry =
    FsFile int int string
  | FsDir "(string \<times> fs_entry) list"
  | FsSymlink
  | FsBroken go_error

definition symlink_error :: "string \<Rightarrow> go_error" where
  "symlink_error path = ''resource pack path contains symbolic link: '' @ path"

definition path_join :: "string \<Rightarrow> string \<Rightarrow> string" where
  "path_join dir name = dir @ ''/'' @ name"

text \<open>The entries that the walk visits, each with its path relative to the root, in the order of the walk, or the
  error that ends it.\<close>

datatype entry_info = InfoDir | InfoFile int int

definition rel_join :: "string \<Rightarrow> string \<Rightarrow> string" where
  "rel_join rel name = (if rel = ''.'' then name else rel @ ''/'' @ name)"

fun walk :: "string \<Rightarrow> string \<Rightarrow> fs_entry \<Rightarrow> go_error + (string \<times> entry_info) list"
  and walk_all :: "string \<Rightarrow> string \<Rightarrow> (string \<times> fs_entry) list \<Rightarrow> go_error + (string \<times> entry_info) list" where
  "walk path rel (FsFile len mtime content) = Inr [(rel, InfoFile len mtime)]"
| "walk path rel FsSymlink = Inl (symlink_error path)"
| "walk path rel (FsBroken err) = Inl err"
| "walk path rel (FsDir es) =
     (case walk_all path rel es of Inl err \<Rightarrow> Inl err | Inr rest \<Rightarrow> Inr ((rel, InfoDir) # rest))"
| "walk_all path rel [] = Inr []"
| "walk_all path rel ((name, e) # es) =
     (case walk (path_join path name) (rel_join rel name) e of
        Inl err \<Rightarrow> Inl err
      | Inr xs \<Rightarrow> (case walk_all path rel es of Inl err \<Rightarrow> Inl err | Inr ys \<Rightarrow> Inr (xs @ ys)))"

section \<open>The fingerprint\<close>

definition nul :: char where
  "nul = CHR 0x00"

fun fingerprint_line :: "string \<times> entry_info \<Rightarrow> string" where
  "fingerprint_line (rel, InfoDir) = rel @ nul # ''dir'' @ [nul]"
| "fingerprint_line (rel, InfoFile len mtime) =
     rel @ nul # ''file'' @ nul # show_int len @ nul # show_int mtime @ [nul]"

definition resourcePackFingerprint :: "(string \<Rightarrow> string) \<Rightarrow> string \<Rightarrow> fs_entry \<Rightarrow> go_error + string" where
  "resourcePackFingerprint hash dir tree =
     (case walk dir ''.'' tree of
        Inl err \<Rightarrow> Inl err
      | Inr xs \<Rightarrow> Inr (hash (concat (map fingerprint_line xs))))"

section \<open>Loading\<close>

record 'p pack_lib =
  pl_ReadPath :: "string \<Rightarrow> fs_entry \<Rightarrow> go_error + 'p"
  pl_UUID :: "'p \<Rightarrow> string"
  pl_WithContentKey :: "string \<Rightarrow> 'p \<Rightarrow> 'p"

text \<open>\<^verbatim>\<open>os.MkdirAll\<close> gives nil, or an error, which is one for \<^verbatim>\<open>os.IsExist\<close> or not.\<close>

definition ensureResourcePackDir :: "(go_error \<times> bool) option \<Rightarrow> go_error option" where
  "ensureResourcePackDir mkdir =
     (case mkdir of None \<Rightarrow> None | Some (err, isExist) \<Rightarrow> if \<not> isExist then Some err else None)"

definition validateResourcePackPath :: "string \<Rightarrow> fs_entry \<Rightarrow> go_error option" where
  "validateResourcePackPath path e = (case walk path ''.'' e of Inl err \<Rightarrow> Some err | Inr _ \<Rightarrow> None)"

definition with_key :: "'p pack_lib \<Rightarrow> (string \<rightharpoonup> string) \<Rightarrow> 'p \<Rightarrow> 'p" where
  "with_key lib encryptionKeys pack =
     (case encryptionKeys (pl_UUID lib pack) of None \<Rightarrow> pack | Some key \<Rightarrow> pl_WithContentKey lib key pack)"

fun load_packs :: "'p pack_lib \<Rightarrow> string \<Rightarrow> (string \<rightharpoonup> string) \<Rightarrow> (string \<times> fs_entry) list \<Rightarrow> go_error + 'p list" where
  "load_packs lib dir keys [] = Inr []"
| "load_packs lib dir keys ((name, e) # files) =
     (case validateResourcePackPath (path_join dir name) e of
        Some err \<Rightarrow> Inl err
      | None \<Rightarrow>
          (case pl_ReadPath lib (path_join dir name) e of
             Inl err \<Rightarrow> Inl err
           | Inr pack \<Rightarrow>
               (case load_packs lib dir keys files of
                  Inl err \<Rightarrow> Inl err
                | Inr packs \<Rightarrow> Inr (with_key lib keys pack # packs))))"

text \<open>\<^verbatim>\<open>os.ReadDir\<close> of what is at the path.\<close>

fun ReadDir :: "fs_entry \<Rightarrow> go_error + (string \<times> fs_entry) list" where
  "ReadDir (FsDir es) = Inr es"
| "ReadDir (FsBroken err) = Inl err"
| "ReadDir _ = Inl ''not a directory''"

definition LoadResourcePacksWithContentKeys ::
  "'p pack_lib \<Rightarrow> (go_error \<times> bool) option \<Rightarrow> fs_entry \<Rightarrow> string \<Rightarrow> (string \<rightharpoonup> string) \<Rightarrow> go_error + 'p list" where
  "LoadResourcePacksWithContentKeys lib mkdir tree dir keys =
     (case ensureResourcePackDir mkdir of
        Some err \<Rightarrow> Inl err
      | None \<Rightarrow> (case ReadDir tree of Inl err \<Rightarrow> Inl err | Inr files \<Rightarrow> load_packs lib dir keys files))"

definition LoadResourcePacks ::
  "'p pack_lib \<Rightarrow> (go_error \<times> bool) option \<Rightarrow> fs_entry \<Rightarrow> string \<Rightarrow> go_error + 'p list" where
  "LoadResourcePacks lib mkdir tree dir = LoadResourcePacksWithContentKeys lib mkdir tree dir Map.empty"

section \<open>The manager\<close>

record 'p ResourcePackManager =
  rm_dir :: string
  rm_encryptionKeys :: "string \<rightharpoonup> string"
  rm_packs :: "'p list"
  rm_fingerprint :: string

text \<open>What one load finds: the outcomes of creating the directory, and the tree at each of its three looks.\<close>

record disk =
  dk_mkdir :: "(go_error \<times> bool) option"
  dk_mkdir2 :: "(go_error \<times> bool) option"
  dk_before :: fs_entry
  dk_loaded :: fs_entry
  dk_after :: fs_entry

definition load ::
  "'p pack_lib \<Rightarrow> (string \<Rightarrow> string) \<Rightarrow> disk \<Rightarrow> 'p ResourcePackManager \<Rightarrow> go_error + 'p list \<times> string" where
  "load lib hash d m =
     (case ensureResourcePackDir (dk_mkdir d) of
        Some err \<Rightarrow> Inl err
      | None \<Rightarrow>
     (case resourcePackFingerprint hash (rm_dir m) (dk_before d) of
        Inl err \<Rightarrow> Inl err
      | Inr before \<Rightarrow>
     (case LoadResourcePacksWithContentKeys lib (dk_mkdir2 d) (dk_loaded d) (rm_dir m) (rm_encryptionKeys m) of
        Inl err \<Rightarrow> Inl err
      | Inr packs \<Rightarrow>
     (case resourcePackFingerprint hash (rm_dir m) (dk_after d) of
        Inl err \<Rightarrow> Inl err
      | Inr after \<Rightarrow>
          if before \<noteq> after then Inl ''resource packs changed while loading'' else Inr (packs, after)))))"

definition Reload ::
  "'p pack_lib \<Rightarrow> (string \<Rightarrow> string) \<Rightarrow> disk \<Rightarrow> 'p ResourcePackManager \<Rightarrow> go_error option \<times> 'p ResourcePackManager" where
  "Reload lib hash d m =
     (case load lib hash d m of
        Inl err \<Rightarrow> (Some err, m)
      | Inr (packs, fingerprint) \<Rightarrow> (None, m\<lparr>rm_packs := packs, rm_fingerprint := fingerprint\<rparr>))"

text \<open>\<open>now\<close> is the tree at the look of \<^verbatim>\<open>ReloadIfChanged\<close> itself.\<close>

definition ReloadIfChanged ::
  "'p pack_lib \<Rightarrow> (string \<Rightarrow> string) \<Rightarrow> fs_entry \<Rightarrow> disk \<Rightarrow> 'p ResourcePackManager \<Rightarrow>
   (go_error + bool) \<times> 'p ResourcePackManager" where
  "ReloadIfChanged lib hash now d m =
     (case resourcePackFingerprint hash (rm_dir m) now of
        Inl err \<Rightarrow> (Inl err, m)
      | Inr fingerprint \<Rightarrow>
          if fingerprint = rm_fingerprint m then (Inr False, m)
          else (case Reload lib hash d m of
                  (Some err, m) \<Rightarrow> (Inl err, m)
                | (None, m) \<Rightarrow> (Inr True, m)))"




definition hot_reload_interval :: "duration \<Rightarrow> duration" where
  "hot_reload_interval interval = (if interval \<le> 0 then 30 * Second else interval)"


section \<open>The fingerprint tells directories apart\<close>












section \<open>Symbolic links\<close>

fun has_symlink :: "fs_entry \<Rightarrow> bool" where
  "has_symlink (FsFile len mtime content) = False"
| "has_symlink (FsDir es) = (\<exists>e \<in> set es. has_symlink (snd e))"
| "has_symlink FsSymlink = True"
| "has_symlink (FsBroken err) = False"

lemma walk_no_symlink:
  "walk path rel e = Inr xs \<Longrightarrow> \<not> has_symlink e"
  "walk_all path rel es = Inr ys \<Longrightarrow> \<not> (\<exists>e \<in> set es. has_symlink (snd e))"
  by (induction path rel e and path rel es arbitrary: xs and ys rule: walk_walk_all.induct)
    (auto split: sum.splits)

lemma load_packs_no_symlink: "load_packs lib dir keys files = Inr packs \<Longrightarrow> (name, e) \<in> set files \<Longrightarrow> \<not> has_symlink e"
  by (induction files arbitrary: packs)
    (auto simp: validateResourcePackPath_def dest: walk_no_symlink(1) split: sum.splits option.splits)

lemma load_cases:
  assumes "load lib hash d m = Inr (packs, fp)"
  obtains xs ys where "walk (rm_dir m) ''.'' (dk_before d) = Inr xs" "walk (rm_dir m) ''.'' (dk_after d) = Inr ys"
    "fp = hash (concat (map fingerprint_line xs))" "fp = hash (concat (map fingerprint_line ys))"
    "LoadResourcePacksWithContentKeys lib (dk_mkdir2 d) (dk_loaded d) (rm_dir m) (rm_encryptionKeys m) = Inr packs"
  using assms that
  by (auto simp: load_def resourcePackFingerprint_def split: option.splits sum.splits if_splits)

text \<open>No pack is loaded through a symbolic link. When a load succeeds there was none anywhere below the directory,
  neither before, nor in what was loaded, nor after.\<close>

lemma load_rejects_symlinks:
  assumes "load lib hash d m = Inr (packs, fp)"
  shows "\<not> has_symlink (dk_before d) \<and> \<not> has_symlink (dk_loaded d) \<and> \<not> has_symlink (dk_after d)"
proof -
  obtain xs ys where l: "walk (rm_dir m) ''.'' (dk_before d) = Inr xs" "walk (rm_dir m) ''.'' (dk_after d) = Inr ys"
    "LoadResourcePacksWithContentKeys lib (dk_mkdir2 d) (dk_loaded d) (rm_dir m) (rm_encryptionKeys m) = Inr packs"
    by (rule load_cases [OF assms])
  then obtain files where "dk_loaded d = FsDir files" "load_packs lib (rm_dir m) (rm_encryptionKeys m) files = Inr packs"
    by (cases "dk_loaded d") (auto simp: LoadResourcePacksWithContentKeys_def split: option.splits)
  with l show ?thesis by (auto dest: walk_no_symlink(1) load_packs_no_symlink)
qed

section \<open>Reloading\<close>

text \<open>A reload is all or nothing. \<^verbatim>\<open>ReloadIfChanged\<close> either returns an error or finds nothing changed, and
  then the manager is as before; or it reports a change, and then the packs are all those of one successful
  load, together with the fingerprint that was the same before and after it.\<close>

lemma reload_all_or_nothing:
  "case ReloadIfChanged lib hash now d m of
     (Inl err, m') \<Rightarrow> m' = m
   | (Inr False, m') \<Rightarrow> m' = m \<and> resourcePackFingerprint hash (rm_dir m) now = Inr (rm_fingerprint m)
   | (Inr True, m') \<Rightarrow>
       LoadResourcePacksWithContentKeys lib (dk_mkdir2 d) (dk_loaded d) (rm_dir m) (rm_encryptionKeys m) = Inr (rm_packs m') \<and>
       resourcePackFingerprint hash (rm_dir m) (dk_before d) = Inr (rm_fingerprint m') \<and>
       resourcePackFingerprint hash (rm_dir m) (dk_after d) = Inr (rm_fingerprint m')"
  by (auto simp: ReloadIfChanged_def Reload_def load_def split: sum.split option.split prod.split if_split)
















section \<open>Witnesses\<close>












end
