(* ===== verification/LogWriter.thy ===== *)
theory LogWriter
  imports Events
begin

text \<open>
  The log file (\<^verbatim>\<open>log/log.go\<close>): a writer that shows every line on the console and appends it to a file, without the
  colours. \<open>clean\<close> is the replacement by the regular expression of the code, an escape character, an opening
  bracket, digits and semicolons, and the letter m. The date and the outcomes of the two writes are arguments.
\<close>

definition ESC :: char where
  "ESC = CHR 0x1B"

definition param_char :: "char \<Rightarrow> bool" where
  "param_char c \<longleftrightarrow> c = CHR '';'' \<or> (48 \<le> (of_char c :: nat) \<and> (of_char c :: nat) \<le> 57)"

text \<open>The rest of the text after a sequence whose escape character has been read, if there is one.\<close>

definition after_sequence :: "string \<Rightarrow> string option" where
  "after_sequence s =
     (case s of
        [] \<Rightarrow> None
      | c # s \<Rightarrow>
          if c \<noteq> CHR ''['' then None
          else (case dropWhile param_char s of
                  [] \<Rightarrow> None
                | d # rest \<Rightarrow> if d = CHR ''m'' then Some rest else None))"

lemma after_sequence_shorter [termination_simp]: "after_sequence s = Some rest \<Longrightarrow> length rest < length s"
proof -
  assume "after_sequence s = Some rest"
  then obtain s' where s: "s = CHR ''['' # s'" "dropWhile param_char s' = CHR ''m'' # rest"
    by (auto simp: after_sequence_def split: list.splits if_splits)
  have "length (dropWhile param_char s') \<le> length s'" by (rule length_dropWhile_le)
  with s show ?thesis by simp
qed

fun clean :: "string \<Rightarrow> string" where
  "clean [] = []"
| "clean (c # s) =
     (if c = ESC then (case after_sequence s of Some rest \<Rightarrow> clean rest | None \<Rightarrow> c # clean s)
      else c # clean s)"

record Logger =
  lg_file :: string
  lg_stdout :: string

definition log_New :: "go_error option \<Rightarrow> string \<Rightarrow> go_error + Logger" where
  "log_New openErr existing =
     (case openErr of Some err \<Rightarrow> Inl err | None \<Rightarrow> Inr \<lparr>lg_file = existing, lg_stdout = ''''\<rparr>)"

definition Logger_Write ::
  "string \<Rightarrow> go_error option \<Rightarrow> go_error option \<Rightarrow> string \<Rightarrow> Logger \<Rightarrow> (nat \<times> go_error option) \<times> Logger" where
  "Logger_Write date stdoutErr fileErr p l =
     (case stdoutErr of
        Some err \<Rightarrow> ((0, Some err), l)
      | None \<Rightarrow>
          let l = l\<lparr>lg_stdout := lg_stdout l @ p\<rparr> in
          (case fileErr of
             Some err \<Rightarrow> ((0, Some err), l)
           | None \<Rightarrow> ((length p, None), l\<lparr>lg_file := lg_file l @ date @ '' '' @ clean p\<rparr>)))"

section \<open>Facts\<close>

text \<open>A line that a formatter colours: pieces of text without escape characters, each before a sequence.\<close>

definition sequence :: "string \<Rightarrow> string" where
  "sequence params = ESC # CHR ''['' # params @ ''m''"

fun coloured :: "(string \<times> string) list \<Rightarrow> string \<Rightarrow> string" where
  "coloured [] t = t"
| "coloured ((text, params) # ps) t = text @ sequence params @ coloured ps t"

lemma clean_text: "ESC \<notin> set a \<Longrightarrow> clean (a @ s) = a @ clean s"
  by (induction a) auto

lemma clean_plain: "ESC \<notin> set a \<Longrightarrow> clean a = a"
  using clean_text [of a "[]"] by simp

lemma param_not_m: "\<not> param_char CHR ''m''"
  by (simp add: param_char_def)

lemma after_sequence_sequence:
  "list_all param_char params \<Longrightarrow> after_sequence (CHR ''['' # params @ CHR ''m'' # s) = Some s"
  using param_not_m by (induction params) (auto simp: after_sequence_def)

lemma clean_sequence: "list_all param_char params \<Longrightarrow> clean (sequence params @ s) = clean s"
  by (simp add: sequence_def after_sequence_sequence)

lemma clean_coloured:
  assumes "list_all (\<lambda>(text, params). ESC \<notin> set text \<and> list_all param_char params) ps" "ESC \<notin> set t"
  shows "clean (coloured ps t) = concat (map fst ps) @ t"
  using assms(1)
  by (induction ps) (auto simp: clean_plain [OF assms(2)] clean_text clean_sequence)

text \<open>The log file gets the text without the colours. For a line made of text and colour sequences the console gets
  the line as it is and the file the date and exactly the text, and the writer reports the length of the line; the
  file only grows, and a failed write reports no byte.\<close>

lemma log_file_gets_plain_text:
  assumes "list_all (\<lambda>(text, params). ESC \<notin> set text \<and> list_all param_char params) ps" "ESC \<notin> set t"
    and "Logger_Write date e1 e2 (coloured ps t) l = ((n, err), l')"
  shows "(err = None \<longrightarrow> n = length (coloured ps t) \<and> lg_stdout l' = lg_stdout l @ coloured ps t \<and>
      lg_file l' = lg_file l @ date @ '' '' @ concat (map fst ps) @ t) \<and>
    (err \<noteq> None \<longrightarrow> n = 0 \<and> lg_file l' = lg_file l)"
  using assms(3) by (auto simp: Logger_Write_def clean_coloured [OF assms(1,2)] Let_def split: option.splits)

end
