(* ===== verification/Float64.thy ===== *)
theory Float64
  imports Complex_Main "HOL-Library.Log_Nat"
begin

text \<open>
  IEEE 754 binary64 rounding, as Go's \<^verbatim>\<open>float64\<close> conversions and divisions perform it: to the
  nearest number with a 53-bit significand, ties to even. Values are exact rationals; \<open>float64\<close>
  is the rounding. The load balancer only rounds numbers between \<open>2 powi -32\<close> and \<open>2 ^ 63\<close> in
  magnitude (and zero), where neither overflow nor the subnormal range can occur, so the
  exponent is not bounded here.

  Besides the definition the theory provides what comparisons of rounded values need: rounding
  is monotone, its relative error is at most \<open>2 powi -53\<close>, and integers of magnitude up to
  \<open>2 ^ 53\<close> are exact.
\<close>

section \<open>Definitions\<close>

definition round_even :: "rat \<Rightarrow> int" where
  "round_even y =
     (let f = \<lfloor>y\<rfloor>; d = y - of_int f in
      if d < 1 / 2 then f else if 1 / 2 < d then f + 1 else if even f then f else f + 1)"

text \<open>The exponent \<open>e\<close> with \<open>2 powi e \<le> x < 2 powi (e + 1)\<close>, for positive \<open>x\<close>.\<close>

definition binade :: "rat \<Rightarrow> int" where
  "binade x =
     (let (a, b) = quotient_of x; e = bitlen a - bitlen b in
      if 2 powi e \<le> x then e else e - 1)"

definition float64 :: "rat \<Rightarrow> rat" where
  "float64 x =
     (if x = 0 then 0
      else let u = 2 powi (binade \<bar>x\<bar> - 52) in of_int (round_even (x / u)) * u)"

section \<open>Rounding to an integer\<close>

lemma round_even_of_int [simp]: "round_even (of_int n) = n"
  by (simp add: round_even_def)

lemma round_even_error: "\<bar>of_int (round_even y) - y\<bar> \<le> 1 / 2"
proof -
  have "of_int \<lfloor>y\<rfloor> \<le> y" "y < of_int \<lfloor>y\<rfloor> + 1" by linarith+
  then show ?thesis by (auto simp: round_even_def Let_def)
qed

lemma round_even_cases: "round_even y = \<lfloor>y\<rfloor> \<or> round_even y = \<lfloor>y\<rfloor> + 1"
  by (auto simp: round_even_def Let_def)

lemma round_even_mono: "y \<le> z \<Longrightarrow> round_even y \<le> round_even z"
proof -
  assume le: "y \<le> z"
  then have fl: "\<lfloor>y\<rfloor> \<le> \<lfloor>z\<rfloor>" by (rule floor_mono)
  show ?thesis
  proof (cases "\<lfloor>y\<rfloor> = \<lfloor>z\<rfloor>")
    case True
    with le show ?thesis by (auto simp: round_even_def Let_def)
  next
    case False
    with fl have "\<lfloor>y\<rfloor> + 1 \<le> \<lfloor>z\<rfloor>" by simp
    then show ?thesis using round_even_cases [of y] round_even_cases [of z] by linarith
  qed
qed

lemma round_even_minus: "round_even (- y) = - round_even y"
proof (cases "y = of_int \<lfloor>y\<rfloor>")
  case True
  then have "round_even y = \<lfloor>y\<rfloor>" by (metis round_even_of_int)
  moreover have "round_even (- y) = - \<lfloor>y\<rfloor>"
    by (metis True of_int_minus round_even_of_int)
  ultimately show ?thesis by simp
next
  case False
  have b: "of_int \<lfloor>y\<rfloor> < y" "y < of_int \<lfloor>y\<rfloor> + 1"
    using False by linarith+
  then have m: "\<lfloor>- y\<rfloor> = - \<lfloor>y\<rfloor> - 1" by linarith
  show ?thesis unfolding round_even_def Let_def m by (auto simp: field_simps)
qed

section \<open>The binade\<close>

lemma powi_split: "(2 :: rat) powi (m + n) = 2 powi m * 2 powi n"
  by (simp add: power_int_add)

lemma powi_mono: "m \<le> n \<Longrightarrow> (2 :: rat) powi m \<le> 2 powi n"
  by (simp add: power_int_increasing)

lemma powi_pos [simp]: "0 < (2 :: rat) powi e"
  by simp

lemma bitlen_powi:
  assumes "0 < a"
  shows "2 powi (bitlen a - 1) \<le> (of_int a :: rat)" "(of_int a :: rat) < 2 powi bitlen a"
proof -
  have b: "0 < bitlen a" using assms bitlen_eq_zero_iff [of a] bitlen_nonneg [of a] by linarith
  have "2 ^ nat (bitlen a - 1) \<le> a \<and> a < 2 ^ nat (bitlen a)"
    using assms by (rule bitlen_bounds)
  then have "(of_int (2 ^ nat (bitlen a - 1)) :: rat) \<le> of_int a"
      "(of_int a :: rat) < of_int (2 ^ nat (bitlen a))"
    by linarith+
  with b show "2 powi (bitlen a - 1) \<le> (of_int a :: rat)" "(of_int a :: rat) < 2 powi bitlen a"
    by (simp_all add: power_int_def)
qed

lemma binade_bounds:
  assumes "0 < x"
  shows "2 powi binade x \<le> x" "x < 2 powi (binade x + 1)"
proof -
  obtain a b where q: "quotient_of x = (a, b)" by fastforce
  then have b: "0 < b" and x: "x = of_int a / of_int b"
    by (auto simp: quotient_of_denom_pos quotient_of_div)
  with assms have a: "0 < a" by (simp add: zero_less_divide_iff)
  let ?e = "bitlen a - bitlen b"
  note A = bitlen_powi [OF a] and B = bitlen_powi [OF b]
  have pb: "(0 :: rat) < of_int b" using b by simp
  have "2 powi (?e - 1) * of_int b \<le> 2 powi (?e - 1) * (2 powi bitlen b :: rat)"
    using B by (intro mult_left_mono) auto
  also have "\<dots> = 2 powi (bitlen a - 1)" by (simp flip: powi_split)
  also have "\<dots> \<le> of_int a" by (rule A(1))
  finally have lo: "2 powi (?e - 1) \<le> x" using pb by (simp add: x pos_le_divide_eq)
  have "of_int a < (2 powi bitlen a :: rat)" by (rule A(2))
  also have "\<dots> = 2 powi (?e + 1) * 2 powi (bitlen b - 1)" by (simp flip: powi_split)
  also have "\<dots> \<le> 2 powi (?e + 1) * of_int b"
    using B by (intro mult_left_mono) auto
  finally have hi: "x < 2 powi (?e + 1)" using pb by (simp add: x pos_divide_less_eq)
  show "2 powi binade x \<le> x" "x < 2 powi (binade x + 1)"
    using lo hi by (auto simp: binade_def q Let_def)
qed

lemma binade_unique:
  assumes "2 powi e \<le> x" "x < 2 powi (e + 1)"
  shows "binade x = e"
proof -
  have "0 < x" using assms(1) powi_pos order_less_le_trans by blast
  from binade_bounds [OF this] assms
  have "2 powi binade x < (2 powi (e + 1) :: rat)" "2 powi e < (2 powi (binade x + 1) :: rat)"
    by linarith+
  then have "binade x < e + 1" "e < binade x + 1"
    using powi_mono by (meson leD leI)+
  then show ?thesis by simp
qed

section \<open>Rounding to 53 bits\<close>

lemma float64_0 [simp]: "float64 0 = 0"
  by (simp add: float64_def)

lemma float64_minus [simp]: "float64 (- x) = - float64 x"
  by (simp add: float64_def Let_def round_even_minus)

lemma float64_pos_bounds:
  assumes "0 < x"
  shows "2 powi binade x \<le> float64 x" "float64 x \<le> 2 powi (binade x + 1)"
proof -
  let ?e = "binade x" and ?u = "2 powi (binade x - 52) :: rat"
  have e0: "2 powi ?e = (of_int (2 ^ 52) :: rat) * ?u"
    and e1: "2 powi (?e + 1) = (of_int (2 ^ 53) :: rat) * ?u"
    using powi_split [of 52 "?e - 52"] powi_split [of 53 "?e - 52"]
    by (simp_all add: add.commute)
  have u: "0 < ?u" by simp
  have "of_int (2 ^ 52) \<le> x / ?u" "x / ?u \<le> of_int (2 ^ 53)"
    using binade_bounds [OF assms] u unfolding e0 e1
    by (simp_all add: pos_le_divide_eq pos_divide_le_eq)
  then have "2 ^ 52 \<le> round_even (x / ?u)" "round_even (x / ?u) \<le> 2 ^ 53"
    using round_even_mono round_even_of_int by metis+
  then have "(of_int (2 ^ 52) :: rat) \<le> of_int (round_even (x / ?u))"
      "of_int (round_even (x / ?u)) \<le> (of_int (2 ^ 53) :: rat)"
    by linarith+
  then show "2 powi ?e \<le> float64 x" "float64 x \<le> 2 powi (?e + 1)"
    using assms u unfolding e0 e1
    by (auto simp: float64_def Let_def intro: mult_right_mono)
qed

lemma float64_pos: "0 < x \<Longrightarrow> 0 < float64 x"
  using float64_pos_bounds(1) powi_pos order_less_le_trans by blast

lemma float64_mono_pos:
  assumes "0 < x" "x \<le> y"
  shows "float64 x \<le> float64 y"
proof -
  have y: "0 < y" using assms by simp
  show ?thesis
  proof (cases "binade x = binade y")
    case True
    have "round_even (x / 2 powi (binade y - 52)) \<le> round_even (y / 2 powi (binade y - 52))"
      using assms by (intro round_even_mono divide_right_mono) auto
    with True assms y show ?thesis by (simp add: float64_def Let_def mult_right_mono)
  next
    case False
    have "2 powi binade x \<le> x" "x \<le> y" "y < 2 powi (binade y + 1)"
      using binade_bounds assms y by auto
    then have "2 powi binade x < (2 powi (binade y + 1) :: rat)" by linarith
    then have "binade x < binade y + 1" using powi_mono by (meson leD leI)
    with False have "binade x + 1 \<le> binade y" by simp
    then have "(2 powi (binade x + 1) :: rat) \<le> 2 powi binade y" by (rule powi_mono)
    then show ?thesis
      using float64_pos_bounds(2) [OF assms(1)] float64_pos_bounds(1) [OF y] by linarith
  qed
qed

lemma float64_mono:
  assumes "x \<le> y"
  shows "float64 x \<le> float64 y"
proof -
  consider "0 < x" | "x = 0" | "x < 0" by linarith
  then show ?thesis
  proof cases
    case 1
    then show ?thesis using assms by (rule float64_mono_pos)
  next
    case 2
    then show ?thesis using assms float64_pos [of y] by (cases "y = 0") auto
  next
    case 3
    consider "0 \<le> y" | "y < 0" by linarith
    then show ?thesis
    proof cases
      case 1
      have "float64 x < 0" using float64_pos [of "- x"] 3 by simp
      moreover have "0 \<le> float64 y" using 1 float64_pos [of y] by (cases "y = 0") auto
      ultimately show ?thesis by simp
    next
      case 2
      have "float64 (- y) \<le> float64 (- x)" using 2 assms by (intro float64_mono_pos) auto
      then show ?thesis by simp
    qed
  qed
qed

lemma float64_error_pos:
  assumes "0 < x"
  shows "\<bar>float64 x - x\<bar> \<le> x / 2 ^ 53"
proof -
  let ?u = "2 powi (binade x - 52) :: rat"
  have u: "0 < ?u" by simp
  have "float64 x - x = (of_int (round_even (x / ?u)) - x / ?u) * ?u"
    using assms u by (simp add: float64_def Let_def left_diff_distrib)
  then have "\<bar>float64 x - x\<bar> = \<bar>of_int (round_even (x / ?u)) - x / ?u\<bar> * ?u"
    using u by (simp add: abs_mult)
  also have "\<dots> \<le> 1 / 2 * ?u"
    using round_even_error u by (intro mult_right_mono) auto
  also have "1 / 2 * ?u = 2 powi binade x / 2 ^ 53"
    using powi_split [of "binade x" "- 52"] by (simp add: power_int_minus field_simps)
  also have "\<dots> \<le> x / 2 ^ 53"
    using binade_bounds(1) [OF assms] by (intro divide_right_mono) auto
  finally show ?thesis .
qed

lemma float64_of_int_pos:
  assumes "0 < n" "n \<le> 2 ^ 53"
  shows "float64 (of_int n) = of_int n"
proof (cases "n = 2 ^ 53")
  case True
  have x: "(of_int n :: rat) = 2 powi 53" by (simp add: True)
  have b: "binade (2 powi 53) = 53" by (rule binade_unique) auto
  have "(of_int n :: rat) / 2 powi (53 - 52) = of_int (2 ^ 52)" by (simp add: True)
  then have "round_even ((of_int n :: rat) / 2 powi (53 - 52)) = 2 ^ 52"
    using round_even_of_int by metis
  then show ?thesis using assms b by (simp add: float64_def Let_def x)
next
  case False
  have p: "(0 :: rat) < of_int n" using assms by simp
  let ?e = "binade (of_int n)"
  have "2 powi ?e \<le> (of_int n :: rat)" by (rule binade_bounds(1) [OF p])
  also have "\<dots> < of_int (2 ^ 53)" using False assms by linarith
  finally have "2 powi ?e < (2 powi 53 :: rat)" by simp
  then have "?e < 53" using powi_mono by (meson leD leI)
  define k where "k = nat (52 - ?e)"
  with \<open>?e < 53\<close> have k: "52 - ?e = int k" by simp
  have u: "(2 :: rat) powi (?e - 52) = 1 / 2 ^ k"
  proof -
    have "?e - 52 = - int k" using k by simp
    then show ?thesis by (simp add: power_int_minus divide_inverse)
  qed
  have "(of_int n :: rat) / (2 powi (?e - 52)) = of_int (n * 2 ^ k)" by (simp add: u)
  then have "round_even ((of_int n :: rat) / (2 powi (?e - 52))) = n * 2 ^ k"
    using round_even_of_int by metis
  then show ?thesis using p u by (simp add: float64_def Let_def)
qed

lemma float64_of_int [simp]:
  assumes "\<bar>n\<bar> \<le> 2 ^ 53"
  shows "float64 (of_int n) = of_int n"
proof -
  consider "0 < n" | "n = 0" | "0 < - n" by linarith
  then show ?thesis
  proof cases
    case 3
    with assms float64_of_int_pos [of "- n"] show ?thesis by simp
  qed (use assms float64_of_int_pos [of n] in auto)
qed

end
