(* ===== verification/LoadBalancer.thy ===== *)
theory LoadBalancer
  imports Servers Float64
begin

text \<open>
  \<^verbatim>\<open>session/load_balancer.go\<close>: the choice of the server a player joins. The comparison of loads
  is done in \<^verbatim>\<open>float64\<close> by the code and so it is here; a reference definition that compares the
  exact quotients by cross multiplication is proved to make the same choices for all player
  counts and weights of practical size.

  The interface \<^verbatim>\<open>LoadBalancer\<close> is the locale \<open>load_balancer\<close>; both balancers of the package are
  interpretations of it. The order in which a registry is ranged over is an argument.
\<close>

section \<open>Choosing the least loaded server\<close>

definition available :: "srv_heap \<Rightarrow> srv_ref \<Rightarrow> bool" where
  "available h s \<longleftrightarrow> \<not> Draining h s \<and> Healthy h s"

definition ratio :: "srv_heap \<Rightarrow> srv_ref \<Rightarrow> rat" where
  "ratio h s =
     float64 (float64 (of_int (PlayerCount h s)) / float64 (of_int (uint (Weight h s))))"

fun leastLoaded_loop ::
  "srv_heap \<Rightarrow> srv_ref list \<Rightarrow> srv_ref option \<Rightarrow> rat \<Rightarrow> srv_ref option" where
  "leastLoaded_loop h [] srv lowest = srv"
| "leastLoaded_loop h (s # ss) srv lowest =
     (if Draining h s \<or> \<not> Healthy h s then leastLoaded_loop h ss srv lowest
      else if srv = None \<or> ratio h s < lowest then leastLoaded_loop h ss (Some s) (ratio h s)
      else leastLoaded_loop h ss srv lowest)"

definition leastLoaded :: "srv_heap \<Rightarrow> srv_ref list \<Rightarrow> srv_ref option" where
  "leastLoaded h ss = leastLoaded_loop h ss None 0"

definition SplitLoadBalancer_FindServer ::
  "srv_heap \<Rightarrow> registry \<Rightarrow> string list \<Rightarrow> srv_ref option" where
  "SplitLoadBalancer_FindServer h reg keys = leastLoaded h (Servers reg keys)"

text \<open>\<open>order i\<close> is the order of the range in the \<open>i\<close>th turn of the loop over the groups.\<close>

fun GroupedLoadBalancer_loop ::
  "string list \<Rightarrow> srv_heap \<Rightarrow> registry \<Rightarrow> nat \<Rightarrow> (nat \<Rightarrow> string list) \<Rightarrow> srv_ref option" where
  "GroupedLoadBalancer_loop [] h reg i order = None"
| "GroupedLoadBalancer_loop (g # gs) h reg i order =
     (case leastLoaded h (ServersInGroup h reg (order i) g) of
        Some srv \<Rightarrow> Some srv
      | None \<Rightarrow> GroupedLoadBalancer_loop gs h reg (Suc i) order)"

definition NewGroupedLoadBalancer_groups :: "string \<Rightarrow> string list \<Rightarrow> string list" where
  "NewGroupedLoadBalancer_groups primaryGroup fallbackGroups = [primaryGroup] @ fallbackGroups"

definition GroupedLoadBalancer_FindServer ::
  "string list \<Rightarrow> srv_heap \<Rightarrow> registry \<Rightarrow> (nat \<Rightarrow> string list) \<Rightarrow> srv_ref option" where
  "GroupedLoadBalancer_FindServer groups h reg order =
     GroupedLoadBalancer_loop groups h reg 0 order"

section \<open>The reference: exact comparison of quotients\<close>

definition lighter :: "srv_heap \<Rightarrow> srv_ref \<Rightarrow> srv_ref \<Rightarrow> bool" where
  "lighter h a b \<longleftrightarrow>
     PlayerCount h a * uint (Weight h b) < PlayerCount h b * uint (Weight h a)"

fun lightest :: "srv_heap \<Rightarrow> srv_ref list \<Rightarrow> srv_ref option \<Rightarrow> srv_ref option" where
  "lightest h [] best = best"
| "lightest h (s # ss) best =
     (if \<not> available h s then lightest h ss best
      else case best of
        None \<Rightarrow> lightest h ss (Some s)
      | Some b \<Rightarrow> lightest h ss (Some (if lighter h s b then s else b)))"

text \<open>Counts and weights for which the rounding cannot confuse two different quotients.\<close>

definition moderate :: "srv_heap \<Rightarrow> srv_ref list \<Rightarrow> bool" where
  "moderate h ss \<longleftrightarrow>
     (\<forall>a \<in> set ss. 0 \<le> PlayerCount h a \<and> 0 < uint (Weight h a) \<and>
        (\<forall>b \<in> set ss. PlayerCount h a * uint (Weight h b) \<le> 2 ^ 52))"

section \<open>Facts about the loop\<close>

lemma leastLoaded_loop_Some:
  "leastLoaded_loop h ss (Some s0) (ratio h s0) = Some s \<Longrightarrow> available h s0 \<Longrightarrow>
     (s = s0 \<or> s \<in> set ss) \<and> available h s \<and> ratio h s \<le> ratio h s0 \<and>
     (\<forall>t \<in> set ss. available h t \<longrightarrow> ratio h s \<le> ratio h t)"
proof (induction ss arbitrary: s0)
  case (Cons x xs)
  show ?case
  proof (cases "available h x \<and> ratio h x < ratio h s0")
    case True
    with Cons.prems have "leastLoaded_loop h xs (Some x) (ratio h x) = Some s"
      by (simp add: available_def)
    from Cons.IH [OF this] True show ?thesis by auto
  next
    case False
    with Cons.prems have "leastLoaded_loop h xs (Some s0) (ratio h s0) = Some s"
      by (auto simp: available_def split: if_splits)
    from Cons.IH [OF this] Cons.prems(2) False show ?thesis by force
  qed
qed simp

lemma leastLoaded_loop_not_None: "leastLoaded_loop h ss (Some s0) l \<noteq> None"
  by (induction ss arbitrary: s0 l) auto

lemma leastLoaded_Some:
  "leastLoaded h ss = Some s \<Longrightarrow>
     s \<in> set ss \<and> available h s \<and> (\<forall>t \<in> set ss. available h t \<longrightarrow> ratio h s \<le> ratio h t)"
proof (induction ss)
  case (Cons x xs)
  show ?case
  proof (cases "available h x")
    case True
    with Cons.prems have "leastLoaded_loop h xs (Some x) (ratio h x) = Some s"
      by (simp add: leastLoaded_def available_def)
    from leastLoaded_loop_Some [OF this True] show ?thesis by auto
  next
    case False
    with Cons show ?thesis by (auto simp: leastLoaded_def available_def)
  qed
qed (simp add: leastLoaded_def)

lemma leastLoaded_None_iff: "leastLoaded h ss = None \<longleftrightarrow> (\<forall>t \<in> set ss. \<not> available h t)"
  by (induction ss) (auto simp: leastLoaded_def available_def leastLoaded_loop_not_None)

section \<open>Rounded and exact comparison agree\<close>

lemma quotient_gap:
  fixes p q v w :: int
  assumes "0 < w" "0 < v" "p * w < q * v"
  shows "(of_int p / of_int v :: rat) \<le> of_int q / of_int w - 1 / (of_int v * of_int w)"
proof -
  have "p * w + 1 \<le> q * v" using assms by simp
  then have le: "(of_int (p * w) :: rat) \<le> of_int (q * v) - 1" by linarith
  have "(of_int p / of_int v :: rat) = of_int (p * w) / (of_int v * of_int w)"
    using assms by simp
  also have "\<dots> \<le> (of_int (q * v) - 1) / (of_int v * of_int w)"
    using le assms by (intro divide_right_mono) auto
  also have "\<dots> = of_int q / of_int w - 1 / (of_int v * of_int w)"
    using assms by (simp add: diff_divide_distrib)
  finally show ?thesis .
qed

lemma rounding_separates:
  fixes p q v w :: int
  assumes "0 \<le> p" "0 < w" "0 < v" "p * w < q * v" "q * v \<le> 2 ^ 52"
  shows "float64 (of_int p / of_int v) < float64 (of_int q / of_int w)"
proof -
  let ?x = "of_int p / of_int v :: rat" and ?y = "of_int q / of_int w :: rat"
  have "0 \<le> p * w" using assms by simp
  then have "0 < q * v" using assms(4) by linarith
  then have q: "0 < q" using assms(3) zero_less_mult_pos2 by blast
  have y: "0 < ?y" using q assms by simp
  have "float64 ?y \<ge> ?y - ?y / 2 ^ 53" using float64_error_pos [OF y] by linarith
  moreover have "float64 ?x \<le> ?x + ?x / 2 ^ 53"
  proof (cases "p = 0")
    case False
    with assms have "0 < ?x" by simp
    from float64_error_pos [OF this] show ?thesis by linarith
  qed simp
  moreover have "?x + ?x / 2 ^ 53 < ?y - ?y / 2 ^ 53"
  proof -
    have "(of_int (q * v) :: rat) \<le> of_int (2 ^ 52)" using assms(5) by linarith
    then have "?y / 2 ^ 52 \<le> 1 / (of_int v * of_int w)"
      using assms q by (simp add: field_simps)
    moreover have "?x \<le> ?y - 1 / (of_int v * of_int w)"
      using assms by (intro quotient_gap) auto
    ultimately have le: "?x \<le> ?y - ?y / 2 ^ 52" by linarith
    then have "?x / 2 ^ 53 \<le> (?y - ?y / 2 ^ 52) / 2 ^ 53" by (intro divide_right_mono) auto
    with le have "?x + ?x / 2 ^ 53 \<le> ?y - ?y / 2 ^ 53 - ?y / 2 ^ 105"
      by (simp add: field_simps)
    moreover have "0 < ?y / 2 ^ 105" using y by simp
    ultimately show ?thesis by linarith
  qed
  ultimately show ?thesis by linarith
qed

lemma uint_weight_bound: "uint (w :: uint32) \<le> 2 ^ 53"
proof -
  have "uint w < 2 ^ 32" using uint_bounded [of w] by simp
  then show ?thesis by simp
qed

lemma ratio_exact_operands:
  assumes "0 \<le> PlayerCount h a" "PlayerCount h a \<le> 2 ^ 53"
  shows "ratio h a = float64 (of_int (PlayerCount h a) / of_int (uint (Weight h a)))"
  using assms uint_weight_bound [of "Weight h a"] by (simp add: ratio_def del: of_int_uint)

lemma moderate_count:
  assumes "moderate h ss" "a \<in> set ss"
  shows "0 \<le> PlayerCount h a" "PlayerCount h a \<le> 2 ^ 53" "0 < uint (Weight h a)"
proof -
  have w: "0 < uint (Weight h a)" and c: "0 \<le> PlayerCount h a"
    and b: "PlayerCount h a * uint (Weight h a) \<le> 2 ^ 52"
    using assms by (auto simp: moderate_def)
  have "PlayerCount h a * 1 \<le> PlayerCount h a * uint (Weight h a)"
    using w c by (intro mult_left_mono) auto
  also note b
  also have "(2 :: int) ^ 52 \<le> 2 ^ 53" by simp
  finally have "PlayerCount h a \<le> 2 ^ 53" by simp
  with c w show "0 \<le> PlayerCount h a" "PlayerCount h a \<le> 2 ^ 53" "0 < uint (Weight h a)"
    by auto
qed

lemma ratio_less_iff_lighter:
  assumes "moderate h ss" "a \<in> set ss" "b \<in> set ss"
  shows "ratio h a < ratio h b \<longleftrightarrow> lighter h a b"
proof -
  let ?p = "PlayerCount h a" and ?q = "PlayerCount h b"
  let ?v = "uint (Weight h a)" and ?w = "uint (Weight h b)"
  note A = moderate_count [OF assms(1,2)] and B = moderate_count [OF assms(1,3)]
  have ra: "ratio h a = float64 (of_int ?p / of_int ?v)"
    and rb: "ratio h b = float64 (of_int ?q / of_int ?w)"
    using A B by (simp_all add: ratio_exact_operands)
  show ?thesis
  proof (cases "lighter h a b")
    case True
    then have "?p * ?w < ?q * ?v" by (simp add: lighter_def)
    moreover have "?q * ?v \<le> 2 ^ 52" using assms by (auto simp: moderate_def)
    ultimately show ?thesis using True A B rounding_separates [of ?p ?w ?v ?q]
      by (simp add: ra rb)
  next
    case False
    then have "?q * ?v \<le> ?p * ?w" by (simp add: lighter_def)
    then have "(of_int (?q * ?v) :: rat) \<le> of_int (?p * ?w)" by linarith
    then have "of_int ?q / of_int ?w \<le> (of_int ?p / of_int ?v :: rat)"
      using A B by (simp add: field_simps del: of_int_uint)
    then have "ratio h b \<le> ratio h a" unfolding ra rb by (rule float64_mono)
    with False show ?thesis by simp
  qed
qed

lemma loop_lightest:
  "moderate h S \<Longrightarrow> set ss \<subseteq> set S \<Longrightarrow> b \<in> set S \<Longrightarrow>
     leastLoaded_loop h ss (Some b) (ratio h b) = lightest h ss (Some b)"
proof (induction ss arbitrary: b)
  case (Cons x xs)
  then show ?case
    using ratio_less_iff_lighter [of h S x b] by (auto simp: available_def)
qed simp

lemma leastLoaded_lightest_aux:
  "moderate h S \<Longrightarrow> set ss \<subseteq> set S \<Longrightarrow> leastLoaded h ss = lightest h ss None"
proof (induction ss)
  case (Cons x xs)
  then show ?case using loop_lightest [of h S xs x]
    by (auto simp: leastLoaded_def available_def)
qed (simp add: leastLoaded_def)

section \<open>The interface and its two implementations\<close>

text \<open>
  \<open>find h reg ord\<close> is a call of \<open>FindServer\<close> in a heap and a registry, with the orders of the
  ranges it performs; \<open>ord_ok\<close> says those orders are ones Go can produce; \<open>eligible\<close> is what
  the balancer may choose from.
\<close>

locale load_balancer =
  fixes find :: "srv_heap \<Rightarrow> registry \<Rightarrow> 'o \<Rightarrow> srv_ref option"
    and ord_ok :: "registry \<Rightarrow> 'o \<Rightarrow> bool"
    and eligible :: "srv_heap \<Rightarrow> srv_ref \<Rightarrow> bool"
  assumes find_Some: "ord_ok reg ord \<Longrightarrow> find h reg ord = Some s \<Longrightarrow>
      s \<in> ran (servers reg) \<and> available h s \<and> eligible h s"
    and find_None: "ord_ok reg ord \<Longrightarrow> find h reg ord = None \<Longrightarrow>
      s \<in> ran (servers reg) \<Longrightarrow> eligible h s \<Longrightarrow> \<not> available h s"
begin

lemma find_total:
  assumes "ord_ok reg ord" "s \<in> ran (servers reg)" "available h s" "eligible h s"
  obtains t where "find h reg ord = Some t"
  using assms find_None by (cases "find h reg ord") auto

lemma find_allocated:
  assumes "ord_ok reg ord" "find h reg ord = Some s" "registry_wf h reg"
  shows "s < srv_next h"
proof -
  from find_Some [OF assms(1,2)] obtain k where "servers reg k = Some s" by (auto simp: ran_def)
  with assms(3) show ?thesis by (auto dest: registry_wfD)
qed

text \<open>Draining and unhealthy servers receive no new players.\<close>

lemma find_skips: "ord_ok reg ord \<Longrightarrow> Draining h s \<or> \<not> Healthy h s \<Longrightarrow> find h reg ord \<noteq> Some s"
  using find_Some by (auto simp: available_def)

end

lemma set_Servers: "range_order (servers reg) keys \<Longrightarrow> set (Servers reg keys) = ran (servers reg)"
  by (simp add: Servers_def set_range_vals)

lemma set_ServersInGroup:
  "range_order (servers reg) keys \<Longrightarrow>
     set (ServersInGroup h reg keys g) = {s \<in> ran (servers reg). sv_group (srv_at h s) = g}"
  by (simp add: ServersInGroup_def set_range_vals)

interpretation split_lb: load_balancer SplitLoadBalancer_FindServer
  "\<lambda>reg keys. range_order (servers reg) keys" "\<lambda>h s. True"
  by unfold_locales
    (auto simp: SplitLoadBalancer_FindServer_def leastLoaded_None_iff set_Servers
      dest: leastLoaded_Some)

lemma Grouped_loop_Some:
  "GroupedLoadBalancer_loop gs h reg i order = Some s \<Longrightarrow>
     \<exists>j < length gs. leastLoaded h (ServersInGroup h reg (order (i + j)) (gs ! j)) = Some s \<and>
       (\<forall>k < j. leastLoaded h (ServersInGroup h reg (order (i + k)) (gs ! k)) = None)"
proof (induction gs arbitrary: i)
  case (Cons g gs)
  show ?case
  proof (cases "leastLoaded h (ServersInGroup h reg (order i) g)")
    case None
    with Cons.prems have "GroupedLoadBalancer_loop gs h reg (Suc i) order = Some s" by simp
    from Cons.IH [OF this] obtain j where j: "j < length gs"
        "leastLoaded h (ServersInGroup h reg (order (Suc i + j)) (gs ! j)) = Some s"
        "\<forall>k < j. leastLoaded h (ServersInGroup h reg (order (Suc i + k)) (gs ! k)) = None"
      by blast
    have "\<forall>k < Suc j.
        leastLoaded h (ServersInGroup h reg (order (i + k)) ((g # gs) ! k)) = None"
      using j(3) None by (auto simp: less_Suc_eq_0_disj)
    with j(1,2) show ?thesis by (intro exI [of _ "Suc j"]) simp
  next
    case (Some t)
    with Cons.prems show ?thesis by (intro exI [of _ 0]) simp
  qed
qed simp

lemma Grouped_loop_None_iff:
  "GroupedLoadBalancer_loop gs h reg i order = None \<longleftrightarrow>
     (\<forall>j < length gs. leastLoaded h (ServersInGroup h reg (order (i + j)) (gs ! j)) = None)"
  by (induction gs arbitrary: i) (auto simp: less_Suc_eq_0_disj split: option.splits)

interpretation grouped_lb: load_balancer "GroupedLoadBalancer_FindServer groups"
  "\<lambda>reg order. \<forall>i. range_order (servers reg) (order i)"
  "\<lambda>h s. sv_group (srv_at h s) \<in> set groups"
  for groups
proof
  fix reg :: registry and h s and order :: "nat \<Rightarrow> string list"
  assume ok: "\<forall>i. range_order (servers reg) (order i)"
  {
    assume "GroupedLoadBalancer_FindServer groups h reg order = Some s"
    then obtain j where j: "j < length groups"
        "leastLoaded h (ServersInGroup h reg (order j) (groups ! j)) = Some s"
      using Grouped_loop_Some [of groups h reg 0 order s]
      by (auto simp: GroupedLoadBalancer_FindServer_def)
    from leastLoaded_Some [OF j(2)] j(1) ok
    show "s \<in> ran (servers reg) \<and> available h s \<and> sv_group (srv_at h s) \<in> set groups"
      by (auto simp: set_ServersInGroup)
  }
  {
    assume "GroupedLoadBalancer_FindServer groups h reg order = None"
      and s: "s \<in> ran (servers reg)" "sv_group (srv_at h s) \<in> set groups"
    then have "\<forall>j < length groups.
        leastLoaded h (ServersInGroup h reg (order j) (groups ! j)) = None"
      by (simp add: GroupedLoadBalancer_FindServer_def Grouped_loop_None_iff)
    with s ok show "\<not> available h s"
      by (auto simp: leastLoaded_None_iff set_ServersInGroup in_set_conv_nth)
  }
qed

section \<open>Properties\<close>

text \<open>\<open>leastLoaded\<close> returns an available (not draining, healthy) server of the list whose load
  ratio, as the code computes it, is minimal among the available ones; it returns none exactly
  when no server of the list is available.\<close>

lemma leastLoaded_correct:
  "case leastLoaded h ss of
     Some s \<Rightarrow> s \<in> set ss \<and> available h s \<and> (\<forall>t \<in> set ss. available h t \<longrightarrow> ratio h s \<le> ratio h t)
   | None \<Rightarrow> \<forall>t \<in> set ss. \<not> available h t"
  using leastLoaded_Some leastLoaded_None_iff by (auto split: option.split)

definition ex_servers :: srv_heap where
  "ex_servers = \<lparr> srv_at = (\<lambda>r.
       if r = 0 then (server_New ''a'' ''a:1'' '''' ''lobby'' 1 False)\<lparr> sv_playerCount := 3 \<rparr>
       else if r = 1 then (server_New ''b'' ''b:1'' '''' ''lobby'' 4 False)\<lparr> sv_playerCount := 10 \<rparr>
       else (server_New ''c'' ''c:1'' '''' ''lobby'' 1 False)\<lparr> sv_draining := True \<rparr>),
     srv_next = 3 \<rparr>"

text \<open>C12: the floating-point comparison makes exactly the choices of the exact comparison of
  \<open>players / weight\<close> by cross multiplication, for every list of servers whose player counts
  are not negative, whose weights are positive and for which no product of a count and a
  weight exceeds \<open>2 ^ 52\<close> (a million players on each server with weights in the billions).\<close>

theorem leastLoaded_eq_lightest:
  assumes "moderate h ss"
  shows "leastLoaded h ss = lightest h ss None"
  using assms by (rule leastLoaded_lightest_aux) simp

theorem leastLoaded_eq_lightest_witness:
  "moderate ex_servers [0, 1, 2] \<and>
   leastLoaded ex_servers [0, 1, 2] = lightest ex_servers [0, 1, 2] None"
proof -
  have "moderate ex_servers [0, 1, 2]" by code_simp
  with leastLoaded_eq_lightest [OF this] show ?thesis by simp
qed

text \<open>The grouped balancer serves a player from the first group of its list that has an
  available registered server, with the least loaded server of that group, and returns none
  exactly when none of its groups has one.\<close>

lemma GroupedLoadBalancer_first_available_group:
  assumes "\<forall>i. range_order (servers reg) (order i)"
  shows "case GroupedLoadBalancer_FindServer groups h reg order of
     Some s \<Rightarrow> s \<in> ran (servers reg) \<and> available h s \<and>
       (\<exists>j < length groups. sv_group (srv_at h s) = groups ! j \<and>
          (\<forall>t \<in> ran (servers reg). available h t \<longrightarrow>
             (sv_group (srv_at h t) = groups ! j \<longrightarrow> ratio h s \<le> ratio h t) \<and>
             (\<forall>k < j. sv_group (srv_at h t) \<noteq> groups ! k)))
   | None \<Rightarrow> (\<forall>t \<in> ran (servers reg). available h t \<longrightarrow> sv_group (srv_at h t) \<notin> set groups)"
proof (cases "GroupedLoadBalancer_FindServer groups h reg order")
  case None
  with assms show ?thesis using grouped_lb.find_None by fastforce
next
  case (Some s)
  then obtain j where j: "j < length groups"
      "leastLoaded h (ServersInGroup h reg (order j) (groups ! j)) = Some s"
      "\<forall>k < j. leastLoaded h (ServersInGroup h reg (order k) (groups ! k)) = None"
    using Grouped_loop_Some [of groups h reg 0 order s]
    by (auto simp: GroupedLoadBalancer_FindServer_def)
  have set: "set (ServersInGroup h reg (order k) g) =
      {s \<in> ran (servers reg). sv_group (srv_at h s) = g}" for k g
    using assms by (simp add: set_ServersInGroup)
  from leastLoaded_Some [OF j(2)] j(1,3) Some show ?thesis
    by (auto simp: set leastLoaded_None_iff intro!: exI [of _ j])
qed

definition ex_registry :: registry where
  "ex_registry = \<lparr> servers = [''a'' \<mapsto> 0, ''b'' \<mapsto> 1, ''c'' \<mapsto> 2] \<rparr>"

end
