(* ===== verification/Placements.thy ===== *)
theory Placements
  imports LoadBalancer
begin

text \<open>
  Many players join one after the other: each is placed on the server that the load balancer finds, and its player
  count goes up. The loop is that of the load test of \<^verbatim>\<open>tools/harness/main.go\<close>; \<^verbatim>\<open>session.New\<close> does the same for
  one player. The locale \<open>greedy_balancer\<close> extends the contract of a balancer by the choice of a lightest server, and
  shows in general that the servers share the players in proportion to their weights.
\<close>

section \<open>Placing players\<close>

text \<open>\<open>order k\<close> are the orders of the ranges when \<open>k\<close> more players follow. \<open>None\<close>: a player found no server.\<close>

fun place_all ::
  "(srv_heap \<Rightarrow> registry \<Rightarrow> 'o \<Rightarrow> srv_ref option) \<Rightarrow> registry \<Rightarrow> (nat \<Rightarrow> 'o) \<Rightarrow> nat \<Rightarrow> srv_heap \<Rightarrow> srv_heap option"
where
  "place_all findServer reg order 0 h = Some h"
| "place_all findServer reg order (Suc n) h =
     (case findServer h reg (order n) of
        None \<Rightarrow> None
      | Some srv \<Rightarrow> place_all findServer reg order n (IncrementPlayerCount srv h))"

section \<open>Shares\<close>

abbreviation weight_of :: "srv_heap \<Rightarrow> srv_ref \<Rightarrow> int" where
  "weight_of h r \<equiv> uint (Weight h r)"

text \<open>No server is more than one player ahead of any other, in units of its weight.\<close>

definition balanced :: "srv_heap \<Rightarrow> srv_ref set \<Rightarrow> bool" where
  "balanced h A \<longleftrightarrow> (\<forall>a \<in> A. \<forall>b \<in> A. (PlayerCount h a - 1) * weight_of h b \<le> PlayerCount h b * weight_of h a)"

definition total_weight :: "srv_heap \<Rightarrow> srv_ref set \<Rightarrow> int" where
  "total_weight h A = (\<Sum>a \<in> A. weight_of h a)"

definition total_players :: "srv_heap \<Rightarrow> srv_ref set \<Rightarrow> int" where
  "total_players h A = (\<Sum>a \<in> A. PlayerCount h a)"

text \<open>The counts are not negative, the weights positive, and with \<open>n\<close> more players the products stay exact.\<close>

definition roomy :: "int \<Rightarrow> srv_heap \<Rightarrow> srv_ref set \<Rightarrow> bool" where
  "roomy n h A \<longleftrightarrow>
     (\<forall>a \<in> A. 0 \<le> PlayerCount h a \<and> 0 < weight_of h a \<and> (\<forall>b \<in> A. (PlayerCount h a + n) * weight_of h b \<le> 2 ^ 52))"

lemma Weight_Increment [simp]: "Weight (IncrementPlayerCount r h) a = Weight h a"
  by (simp add: Weight_def)

lemma available_Increment [simp]: "available (IncrementPlayerCount r h) a = available h a"
  by (simp add: available_def)

lemma group_Increment [simp]: "sv_group (srv_at (IncrementPlayerCount r h) a) = sv_group (srv_at h a)"
  by (simp add: IncrementPlayerCount_def)

lemma total_weight_Increment [simp]: "total_weight (IncrementPlayerCount r h) A = total_weight h A"
  by (simp add: total_weight_def)

lemma total_players_Increment:
  "finite A \<Longrightarrow> r \<in> A \<Longrightarrow> total_players (IncrementPlayerCount r h) A = total_players h A + 1"
  by (simp add: total_players_def sum.distrib)

lemma roomy_Increment:
  assumes "roomy (n + 1) h A" "0 \<le> n"
  shows "roomy n (IncrementPlayerCount r h) A"
proof -
  have "(PlayerCount h a + (if a = r then 1 else 0) + n) * weight_of h b \<le> 2 ^ 52" if ab: "a \<in> A" "b \<in> A" for a b
  proof -
    have "(PlayerCount h a + (if a = r then 1 else 0) + n) * weight_of h b \<le> (PlayerCount h a + (n + 1)) * weight_of h b"
      using assms ab by (intro mult_right_mono) auto
    also have "\<dots> \<le> 2 ^ 52" using assms ab by (auto simp: roomy_def)
    finally show ?thesis .
  qed
  with assms show ?thesis by (auto simp: roomy_def)
qed

lemma roomy_moderate:
  assumes "roomy n h A" "0 \<le> n" "a \<in> A" "b \<in> A"
  shows "moderate h [a, b]"
proof -
  have "PlayerCount h x * weight_of h y \<le> 2 ^ 52" if "x \<in> A" "y \<in> A" for x y
  proof -
    have "PlayerCount h x * weight_of h y \<le> (PlayerCount h x + n) * weight_of h y"
      using assms that by (intro mult_right_mono) auto
    also have "\<dots> \<le> 2 ^ 52" using assms that by (auto simp: roomy_def)
    finally show ?thesis .
  qed
  with assms show ?thesis by (auto simp: moderate_def roomy_def)
qed

lemma balanced_Increment:
  assumes "balanced h A" "\<And>a. a \<in> A \<Longrightarrow> \<not> lighter h a r" "\<And>a. a \<in> A \<Longrightarrow> 0 < weight_of h a" "r \<in> A"
  shows "balanced (IncrementPlayerCount r h) A"
  unfolding balanced_def
proof (intro ballI)
  fix a b assume ab: "a \<in> A" "b \<in> A"
  have old: "(PlayerCount h a - 1) * weight_of h b \<le> PlayerCount h b * weight_of h a"
    using assms(1) ab by (auto simp: balanced_def)
  have least: "PlayerCount h r * weight_of h b \<le> PlayerCount h b * weight_of h r"
    using assms(2) [OF ab(2)] by (simp add: lighter_def)
  have pos: "0 < weight_of h a" by (rule assms(3) [OF ab(1)])
  show "(PlayerCount (IncrementPlayerCount r h) a - 1) * weight_of (IncrementPlayerCount r h) b \<le>
      PlayerCount (IncrementPlayerCount r h) b * weight_of (IncrementPlayerCount r h) a"
    using old least pos by (auto simp: distrib_right)
qed

text \<open>Placing changes nothing of a server but its count.\<close>

lemma place_all_same:
  "place_all findServer reg order n h = Some h' \<Longrightarrow>
     \<exists>n. srv_at h' r = (srv_at h r)\<lparr>sv_playerCount := n\<rparr>"
proof (induction n arbitrary: h)
  case 0
  then have "srv_at h' r = (srv_at h r)\<lparr>sv_playerCount := sv_playerCount (srv_at h r)\<rparr>" by simp
  then show ?case by blast
next
  case (Suc n)
  then obtain s where "place_all findServer reg order n (IncrementPlayerCount s h) = Some h'"
    by (auto split: option.splits)
  from Suc.IH [OF this] show ?case by (auto simp: IncrementPlayerCount_def)
qed

text \<open>What a balanced state means for the count of one server.\<close>

lemma balanced_upper:
  assumes "balanced h A" "a \<in> A"
  shows "(PlayerCount h a - 1) * total_weight h A \<le> total_players h A * weight_of h a"
proof -
  have "(PlayerCount h a - 1) * total_weight h A = (\<Sum>b \<in> A. (PlayerCount h a - 1) * weight_of h b)"
    by (simp add: total_weight_def sum_distrib_left)
  also have "\<dots> \<le> (\<Sum>b \<in> A. PlayerCount h b * weight_of h a)"
    using assms by (intro sum_mono) (simp add: balanced_def)
  also have "\<dots> = total_players h A * weight_of h a" by (simp add: total_players_def sum_distrib_right)
  finally show ?thesis .
qed

lemma balanced_lower:
  assumes "balanced h A" "a \<in> A" "finite A"
  shows "(total_players h A - (int (card A) - 1)) * weight_of h a \<le> PlayerCount h a * total_weight h A"
proof -
  have split: "total_players h A = PlayerCount h a + total_players h (A - {a})"
    "total_weight h A = weight_of h a + total_weight h (A - {a})"
    using assms by (simp_all add: total_players_def total_weight_def sum.remove)
  have card: "int (card A) - 1 = int (card (A - {a}))"
    using assms card_Suc_Diff1 [of A a] by linarith
  have "(total_players h (A - {a}) - int (card (A - {a}))) * weight_of h a =
      (\<Sum>b \<in> A - {a}. (PlayerCount h b - 1) * weight_of h a)"
    by (simp add: total_players_def sum_distrib_right [symmetric] sum_subtractf)
  also have "\<dots> \<le> (\<Sum>b \<in> A - {a}. PlayerCount h a * weight_of h b)"
    using assms by (intro sum_mono) (simp add: balanced_def)
  also have "\<dots> = PlayerCount h a * total_weight h (A - {a})" by (simp add: total_weight_def sum_distrib_left)
  finally show ?thesis unfolding split card by (simp add: algebra_simps)
qed

section \<open>Balancers that choose a lightest server\<close>

locale greedy_balancer = load_balancer findServer ord_ok eligible
  for findServer :: "srv_heap \<Rightarrow> registry \<Rightarrow> 'o \<Rightarrow> srv_ref option" and ord_ok eligible +
  assumes find_lightest: "ord_ok reg ord \<Longrightarrow> findServer h reg ord = Some s \<Longrightarrow>
      t \<in> ran (servers reg) \<Longrightarrow> available h t \<Longrightarrow> eligible h t \<Longrightarrow> moderate h [t, s] \<Longrightarrow> \<not> lighter h t s"
    and eligible_Increment: "eligible (IncrementPlayerCount r h) s = eligible h s"
begin

text \<open>The servers among which the players are shared.\<close>

abbreviation serving :: "registry \<Rightarrow> srv_heap \<Rightarrow> srv_ref set" where
  "serving reg h \<equiv> {s \<in> ran (servers reg). available h s \<and> eligible h s}"

lemma serving_Increment: "serving reg (IncrementPlayerCount r h) = serving reg h"
  by (simp add: eligible_Increment)

lemma place_one:
  assumes "ord_ok reg ord" "balanced h (serving reg h)" "roomy (n + 1) h (serving reg h)" "0 \<le> n"
    and "serving reg h \<noteq> {}"
  obtains s where "findServer h reg ord = Some s" "s \<in> serving reg h"
    "balanced (IncrementPlayerCount s h) (serving reg h)" "roomy n (IncrementPlayerCount s h) (serving reg h)"
proof -
  from assms(1,5) find_total obtain s where s: "findServer h reg ord = Some s" by blast
  with find_Some [OF assms(1)] have mem: "s \<in> serving reg h" by simp
  have "\<not> lighter h t s" if "t \<in> serving reg h" for t
    using find_lightest [OF assms(1) s] that mem assms(3,4) roomy_moderate [of "n + 1" h "serving reg h" t s] by auto
  then have "balanced (IncrementPlayerCount s h) (serving reg h)"
    using balanced_Increment [OF assms(2)] mem assms(3) by (auto simp: roomy_def)
  with s mem roomy_Increment [OF assms(3,4)] show thesis by (intro that) simp_all
qed

lemma place_all_balanced:
  assumes "\<And>k. ord_ok reg (order k)" "balanced h (serving reg h)" "roomy (int n) h (serving reg h)"
    and "serving reg h \<noteq> {}" "finite (serving reg h)"
  shows "\<exists>h'. place_all findServer reg order n h = Some h' \<and> balanced h' (serving reg h) \<and>
    total_players h' (serving reg h) = total_players h (serving reg h) + int n \<and>
    Weight h' = Weight h \<and> (\<forall>t. t \<notin> serving reg h \<longrightarrow> PlayerCount h' t = PlayerCount h t) \<and>
    available h' = available h"
  using assms(2-)
proof (induction n arbitrary: h)
  case (Suc n)
  from Suc.prems(2) have "roomy (int n + 1) h (serving reg h)" by (simp add: add.commute)
  from place_one [OF assms(1) Suc.prems(1) this _ Suc.prems(3), of n] obtain s where
    s: "findServer h reg (order n) = Some s" "s \<in> serving reg h"
    and b: "balanced (IncrementPlayerCount s h) (serving reg h)"
      "roomy (int n) (IncrementPlayerCount s h) (serving reg h)" by auto
  let ?h = "IncrementPlayerCount s h"
  note same = serving_Increment [of reg s h]
  obtain h' where h': "place_all findServer reg order n ?h = Some h'" "balanced h' (serving reg h)"
    "total_players h' (serving reg h) = total_players ?h (serving reg h) + int n" "Weight h' = Weight ?h"
    "\<forall>t. t \<notin> serving reg h \<longrightarrow> PlayerCount h' t = PlayerCount ?h t" "available h' = available ?h"
    using Suc.IH [of ?h] b Suc.prems(3,4) unfolding same by blast
  have "total_players ?h (serving reg h) = total_players h (serving reg h) + 1"
    using Suc.prems(4) s(2) by (rule total_players_Increment)
  moreover have "Weight ?h = Weight h" "available ?h = available h" by (simp_all add: fun_eq_iff)
  moreover have "PlayerCount ?h t = PlayerCount h t" if "t \<notin> serving reg h" for t using that s(2) by auto
  ultimately show ?case using s(1) h' by auto
qed simp

text \<open>Everybody finds a server, and each server has its share of all players: at most one player more, and less by
  at most its share of one player for each other server.\<close>

lemma shares:
  assumes "\<And>k. ord_ok reg (order k)" "\<And>s. s \<in> serving reg h \<Longrightarrow> PlayerCount h s = 0"
    and "roomy (int n) h (serving reg h)" "finite (ran (servers reg))" "a \<in> serving reg h"
  shows "\<exists>h'. place_all findServer reg order n h = Some h' \<and>
    (PlayerCount h' a - 1) * total_weight h (serving reg h) \<le> int n * weight_of h a \<and>
    (int n - (int (card (serving reg h)) - 1)) * weight_of h a \<le> PlayerCount h' a * total_weight h (serving reg h) \<and>
    total_players h' (serving reg h) = int n \<and> (\<forall>t. t \<notin> serving reg h \<longrightarrow> PlayerCount h' t = PlayerCount h t)"
proof -
  have fin: "finite (serving reg h)" using assms(4) by simp
  have b: "balanced h (serving reg h)" using assms(2,3) by (auto simp: balanced_def roomy_def)
  have z: "total_players h (serving reg h) = 0" using assms(2) by (simp add: total_players_def)
  from place_all_balanced [where order = order, OF assms(1) b assms(3) _ fin] assms(5) obtain h' where
    h': "place_all findServer reg order n h = Some h'" "balanced h' (serving reg h)"
    "total_players h' (serving reg h) = int n" "Weight h' = Weight h"
    "\<forall>t. t \<notin> serving reg h \<longrightarrow> PlayerCount h' t = PlayerCount h t" using z by auto
  have w: "total_weight h' (serving reg h) = total_weight h (serving reg h)" by (simp add: total_weight_def h'(4))
  from balanced_upper [OF h'(2) assms(5)] balanced_lower [OF h'(2) assms(5) fin] h' w show ?thesis by simp
qed

end

section \<open>Both balancers choose a lightest server\<close>

lemma leastLoaded_not_lighter:
  assumes "leastLoaded h ss = Some s" "t \<in> set ss" "available h t" "moderate h [t, s]"
  shows "\<not> lighter h t s"
proof -
  have "ratio h s \<le> ratio h t" using leastLoaded_Some [OF assms(1)] assms(2,3) by simp
  then show ?thesis using ratio_less_iff_lighter [OF assms(4), of t s] by simp
qed

interpretation split_greedy: greedy_balancer SplitLoadBalancer_FindServer
  "\<lambda>reg keys. range_order (servers reg) keys" "\<lambda>h s. True"
  by unfold_locales
    (auto simp: SplitLoadBalancer_FindServer_def set_Servers dest: leastLoaded_not_lighter)

lemma Grouped_single:
  "GroupedLoadBalancer_FindServer [g] h reg order = leastLoaded h (ServersInGroup h reg (order 0) g)"
  by (simp add: GroupedLoadBalancer_FindServer_def split: option.split)

interpretation group_greedy: greedy_balancer "GroupedLoadBalancer_FindServer [g]"
  "\<lambda>reg order. \<forall>i. range_order (servers reg) (order i)" "\<lambda>h s. sv_group (srv_at h s) \<in> set [g]"
  for g
  by unfold_locales
    (auto simp: Grouped_single set_ServersInGroup dest: leastLoaded_not_lighter)

section \<open>Properties\<close>

text \<open>C13: players are shared by weight. When \<open>n\<close> players join one after the other through the balancer over all servers,
  everybody gets a server, whatever the orders in which the registry is visited; afterwards each available server
  has its share by weight of all players, with at most one player more, and less by at most its share of one player for
  each other server. Servers that drain or are unhealthy get nobody.\<close>

theorem players_shared_by_weight:
  assumes "\<And>k. range_order (servers reg) (order k)" "finite (dom (servers reg))"
    and "A = {s \<in> ran (servers reg). available h s}" "\<And>s. s \<in> A \<Longrightarrow> PlayerCount h s = 0"
    and "roomy (int n) h A" "a \<in> A"
  shows "\<exists>h'. place_all SplitLoadBalancer_FindServer reg order n h = Some h' \<and>
    (PlayerCount h' a - 1) * total_weight h A \<le> int n * weight_of h a \<and>
    (int n - (int (card A) - 1)) * weight_of h a \<le> PlayerCount h' a * total_weight h A \<and>
    total_players h' A = int n \<and> (\<forall>t. t \<notin> A \<longrightarrow> PlayerCount h' t = PlayerCount h t)"
proof -
  have "finite (ran (servers reg))" using assms(2) by (rule finite_ran)
  then show ?thesis
    using split_greedy.shares [of reg order h n a] assms by simp
qed

section \<open>Witnesses\<close>

definition ex_weighted :: srv_heap where
  "ex_weighted = \<lparr> srv_at = (\<lambda>r. if r = 0 then server_New ''w1'' ''127.0.0.1:1'' TransportRakNet ''lobby'' 1 False
     else server_New ''w3'' ''127.0.0.1:2'' TransportRakNet ''lobby'' 3 False), srv_next = 2 \<rparr>"

definition ex_weighted_reg :: registry where
  "ex_weighted_reg = \<lparr> servers = [''w1'' \<mapsto> 0, ''w3'' \<mapsto> 1] \<rparr>"

lemma ex_weighted_simps:
  "available ex_weighted r" "PlayerCount ex_weighted r = 0" "weight_of ex_weighted r = (if r = 0 then 1 else 3)"
  by (simp_all add: available_def Draining_def Healthy_def PlayerCount_def Weight_def ex_weighted_def server_New_def)

theorem players_shared_by_weight_witness:
  "\<exists>h'. place_all SplitLoadBalancer_FindServer ex_weighted_reg (\<lambda>_. [''w3'', ''w1'']) 1000 ex_weighted = Some h' \<and>
     750 \<le> PlayerCount h' 1 \<and> PlayerCount h' 1 \<le> 751"
proof -
  have ran: "ran (servers ex_weighted_reg) = {0, 1}"
    by (simp add: ex_weighted_reg_def ran_map_upd insert_commute)
  have ord: "range_order (servers ex_weighted_reg) [''w3'', ''w1'']"
    by (auto simp: range_order_def ex_weighted_reg_def)
  have fin: "finite (dom (servers ex_weighted_reg))" by (simp add: ex_weighted_reg_def)
  have A: "{0, 1} = {s \<in> ran (servers ex_weighted_reg). available ex_weighted s}"
    by (auto simp: ran ex_weighted_simps)
  have roomy: "roomy (int 1000) ex_weighted {0, 1}" by (auto simp: roomy_def ex_weighted_simps)
  show ?thesis
  proof -
    from players_shared_by_weight [OF ord fin A ex_weighted_simps(2) roomy, of 1] obtain h' where
      h': "place_all SplitLoadBalancer_FindServer ex_weighted_reg (\<lambda>_. [''w3'', ''w1'']) 1000 ex_weighted = Some h'"
      and up: "(PlayerCount h' 1 - 1) * total_weight ex_weighted {0, 1} \<le> int 1000 * weight_of ex_weighted 1"
      and low: "(int 1000 - (int (card {0, 1 :: srv_ref}) - 1)) * weight_of ex_weighted 1 \<le>
        PlayerCount h' 1 * total_weight ex_weighted {0, 1}" by blast
    have "total_weight ex_weighted {0, 1} = 4" by (simp add: total_weight_def ex_weighted_simps)
    with up low have "750 \<le> PlayerCount h' 1 \<and> PlayerCount h' 1 \<le> 751" by (simp add: ex_weighted_simps)
    with h' show ?thesis by blast
  qed
qed

end
