(* ===== verification/Admission.thy ===== *)
theory Admission
  imports NetAddr ExpiringTable
begin

text \<open>
  Who may join: the IP guard (\<^verbatim>\<open>session/ip_guard.go\<close>) and the whitelist (\<^verbatim>\<open>session/whitelist.go\<close>).
  The clock is an argument of \<open>Allow\<close>; \<open>Colourf\<close> is gophertunnel's \<^verbatim>\<open>text.Colourf\<close>, a parameter.
\<close>

section \<open>The IP guard\<close>

record ipWindow =
  iw_count :: int
  iw_windowStart :: time

record SimpleIPGuard =
  ig_banned :: "string set"
  ig_rateLimitEnabled :: bool
  ig_window :: duration
  ig_limit :: int
  ig_hits :: "string \<rightharpoonup> ipWindow"
  ig_lastSweep :: time

definition NewSimpleIPGuard :: "string list \<Rightarrow> bool \<Rightarrow> duration \<Rightarrow> int \<Rightarrow> SimpleIPGuard" where
  "NewSimpleIPGuard bannedIPs rateLimitEnabled window limit =
     \<lparr>ig_banned = foldl (\<lambda>banned ip. insert ip banned) {} bannedIPs,
      ig_rateLimitEnabled = rateLimitEnabled, ig_window = window, ig_limit = limit,
      ig_hits = Map.empty, ig_lastSweep = zero_time\<rparr>"

definition NopIPGuard_Allow :: "net_addr \<Rightarrow> bool \<times> string" where
  "NopIPGuard_Allow addr = (True, '''')"

definition window_over :: "duration \<Rightarrow> time \<Rightarrow> ipWindow \<Rightarrow> bool" where
  "window_over window now w \<longleftrightarrow> time_Sub now (iw_windowStart w) > window"

definition sweep_hits :: "duration \<Rightarrow> time \<Rightarrow> (string \<rightharpoonup> ipWindow) \<Rightarrow> (string \<rightharpoonup> ipWindow)" where
  "sweep_hits window now hits =
     (\<lambda>h. case hits h of None \<Rightarrow> None | Some hw \<Rightarrow> if window_over window now hw then None else Some hw)"

definition hit :: "duration \<Rightarrow> time \<Rightarrow> ipWindow option \<Rightarrow> ipWindow" where
  "hit window now e =
     (let w = (case e of
                 None \<Rightarrow> \<lparr>iw_count = 0, iw_windowStart = now\<rparr>
               | Some w \<Rightarrow> if window_over window now w
                   then \<lparr>iw_count = 0, iw_windowStart = now\<rparr> else w)
      in w\<lparr>iw_count := iw_count w + 1\<rparr>)"

definition SimpleIPGuard_Allow ::
  "(string \<Rightarrow> string) \<Rightarrow> net_addr \<Rightarrow> time \<Rightarrow> SimpleIPGuard \<Rightarrow> (bool \<times> string) \<times> SimpleIPGuard" where
  "SimpleIPGuard_Allow Colourf addr now g =
     (let host = ipHostOf addr in
      if host \<in> ig_banned g
      then ((False, Colourf ''<red>You are banned from this server</red>''), g)
      else if \<not> ig_rateLimitEnabled g then ((True, ''''), g)
      else
        let g = (if time_Sub now (ig_lastSweep g) > ig_window g
                 then g\<lparr>ig_hits := sweep_hits (ig_window g) now (ig_hits g), ig_lastSweep := now\<rparr>
                 else g);
            w = hit (ig_window g) now (ig_hits g host);
            g = g\<lparr>ig_hits := (ig_hits g)(host \<mapsto> w)\<rparr>
        in if iw_count w > ig_limit g
           then ((False, Colourf
                  ''<red>You are connecting too frequently, please wait a moment</red>''), g)
           else ((True, ''''), g))"

section \<open>The whitelist\<close>

record SimpleWhitelist =
  wl_enabled :: bool
  wl_players :: "string set"

definition NewSimpleWhitelist :: "bool \<Rightarrow> string list \<Rightarrow> SimpleWhitelist" where
  "NewSimpleWhitelist enabled players =
     \<lparr>wl_enabled = enabled, wl_players = foldl (\<lambda>set p. insert (ToLower p) set) {} players\<rparr>"

text \<open>\<^verbatim>\<open>Authorize\<close>, of the display name in the connection's identity data.\<close>

definition SimpleWhitelist_Authorize ::
  "(string \<Rightarrow> string) \<Rightarrow> SimpleWhitelist \<Rightarrow> string \<Rightarrow> bool \<times> string" where
  "SimpleWhitelist_Authorize Colourf s displayName =
     (if \<not> wl_enabled s then (True, '''')
      else if ToLower displayName \<in> wl_players s then (True, '''')
      else (False, Colourf ''<red>Server is whitelisted</red>''))"

section \<open>Sequences of connections\<close>

text \<open>The answers to a timed sequence of connections, and how many connections of a host are
  allowed in the closed interval from \<open>a\<close> to \<open>b\<close>.\<close>

fun allows :: "(string \<Rightarrow> string) \<Rightarrow> (time \<times> net_addr) list \<Rightarrow> SimpleIPGuard \<Rightarrow> bool list" where
  "allows C [] g = []"
| "allows C ((now, addr) # cs) g =
     (case SimpleIPGuard_Allow C addr now g of ((ok, msg), g') \<Rightarrow> ok # allows C cs g')"

fun admitted ::
  "(string \<Rightarrow> string) \<Rightarrow> string \<Rightarrow> time \<Rightarrow> time \<Rightarrow> (time \<times> net_addr) list \<Rightarrow> SimpleIPGuard \<Rightarrow> int" where
  "admitted C host a b [] g = 0"
| "admitted C host a b ((now, addr) # cs) g =
     (case SimpleIPGuard_Allow C addr now g of ((ok, msg), g') \<Rightarrow>
        of_bool (ok \<and> ipHostOf addr = host \<and> a \<le> now \<and> now \<le> b) + admitted C host a b cs g')"

text \<open>The guard that never evicts: a banned host is refused, and each other host has its own
  window, which nothing but its own connections touch.\<close>

fun windowed ::
  "string set \<Rightarrow> duration \<Rightarrow> int \<Rightarrow> (time \<times> net_addr) list \<Rightarrow> (string \<rightharpoonup> ipWindow) \<Rightarrow> bool list" where
  "windowed banned window limit [] hits = []"
| "windowed banned window limit ((now, addr) # cs) hits =
     (let host = ipHostOf addr; w = hit window now (hits host)
      in if host \<in> banned then False # windowed banned window limit cs hits
         else (iw_count w \<le> limit) # windowed banned window limit cs (hits(host \<mapsto> w)))"

section \<open>The guard is an expiring table\<close>

fun guard_effect ::
  "duration \<Rightarrow> int \<Rightarrow> bool \<Rightarrow> time \<Rightarrow> ipWindow option \<Rightarrow> ipWindow option \<times> bool" where
  "guard_effect window limit True now e = (e, False)"
| "guard_effect window limit False now e =
     (Some (hit window now e), iw_count (hit window now e) \<le> limit)"

lemma hit_over: "window_over window now w \<Longrightarrow> hit window now (Some w) = hit window now None"
  by (simp add: hit_def)

interpretation guard: expiring_table "guard_effect window limit" "window_over window" for window limit
proof
  fix now now' e a
  assume st: "window_over window now e"
  { assume "now \<le> now'"
    with st show "window_over window now' e"
      using time_Sub_mono [of now now' "iw_windowStart e"] by (auto simp: window_over_def) }
  show "snd (guard_effect window limit a now (Some e)) = snd (guard_effect window limit a now None)"
    by (cases a) (simp_all add: hit_over [OF st])
  show "evicted (window_over window now) (fst (guard_effect window limit a now (Some e)))
      (fst (guard_effect window limit a now None))"
    using st by (cases a) (simp_all add: hit_over [OF st] evicted_def)
qed

text \<open>A sequence of connections as actions and sweeps, with the moment of the last sweep.\<close>

fun guard_ops ::
  "string set \<Rightarrow> duration \<Rightarrow> time \<Rightarrow> (time \<times> net_addr) list \<Rightarrow> (time \<times> (string, bool) timed_op) list"
where
  "guard_ops banned window swept [] = []"
| "guard_ops banned window swept ((now, addr) # cs) =
     (if ipHostOf addr \<in> banned then (now, Act (ipHostOf addr) True) # guard_ops banned window swept cs
      else if time_Sub now swept > window
      then (now, Sweep) # (now, Act (ipHostOf addr) False) # guard_ops banned window now cs
      else (now, Act (ipHostOf addr) False) # guard_ops banned window swept cs)"

lemma ordered_guard_ops:
  "ordered_from t cs \<Longrightarrow> ordered_from t (guard_ops banned window swept cs)"
  by (induction cs arbitrary: t swept) auto

lemma allows_run_swept:
  "ig_rateLimitEnabled g \<Longrightarrow>
   allows C cs g = run_swept (guard_effect (ig_window g) (ig_limit g)) (window_over (ig_window g))
     (guard_ops (ig_banned g) (ig_window g) (ig_lastSweep g) cs) (ig_hits g)"
proof (induction cs arbitrary: g)
  case (Cons c cs)
  obtain now addr where c: "c = (now, addr)" by fastforce
  from Cons show ?case
    by (cases "ipHostOf addr \<in> ig_banned g"; cases "time_Sub now (ig_lastSweep g) > ig_window g")
      (simp_all add: c SimpleIPGuard_Allow_def Let_def not_less fun_upd_idem sweep_hits_def)
qed simp

lemma windowed_run_plain:
  "windowed banned window limit cs hits =
   run_plain (guard_effect window limit) (guard_ops banned window swept cs) hits"
  by (induction cs arbitrary: hits swept) (auto simp: Let_def fun_upd_idem)

section \<open>Counting within an interval\<close>

text \<open>The entry of a host after the optional sweep, as far as the next connection can tell.\<close>

definition live :: "duration \<Rightarrow> time \<Rightarrow> ipWindow option \<Rightarrow> ipWindow option" where
  "live window now e =
     (case e of Some w \<Rightarrow> if window_over window now w then None else Some w | None \<Rightarrow> None)"

lemma hit_live: "hit window now (live window now e) = hit window now e"
  by (simp add: live_def hit_def split: option.split)

lemma Allow_cases:
  assumes "SimpleIPGuard_Allow C addr now g = ((ok, msg), g')" "ig_rateLimitEnabled g"
  shows "ig_rateLimitEnabled g' \<and> ig_window g' = ig_window g \<and> ig_limit g' = ig_limit g \<and>
    (if ipHostOf addr = host \<and> host \<notin> ig_banned g
     then ig_hits g' host = Some (hit (ig_window g) now (ig_hits g host)) \<and>
       (ok \<longleftrightarrow> iw_count (hit (ig_window g) now (ig_hits g host)) \<le> ig_limit g)
     else (ipHostOf addr = host \<longrightarrow> \<not> ok) \<and>
       (ig_hits g' host = ig_hits g host \<or> ig_hits g' host = live (ig_window g) now (ig_hits g host)))"
proof -
  have sw: "sweep_hits (ig_window g) now (ig_hits g) h = live (ig_window g) now (ig_hits g h)" for h
    by (simp add: sweep_hits_def live_def split: option.split)
  show ?thesis
    using assms
    by (cases "ipHostOf addr \<in> ig_banned g"; cases "time_Sub now (ig_lastSweep g) > ig_window g";
        cases "ipHostOf addr = host")
      (auto simp: SimpleIPGuard_Allow_def Let_def sw hit_live split: if_splits)
qed

text \<open>What a host may still get admitted in the interval: the rest of a window that began before
  it, and one whole window.\<close>

definition left_of :: "int \<Rightarrow> ipWindow \<Rightarrow> int" where
  "left_of limit w = max 0 (limit - iw_count w)"

fun quota :: "time \<Rightarrow> int \<Rightarrow> ipWindow option \<Rightarrow> int" where
  "quota a limit None = limit"
| "quota a limit (Some w) = left_of limit w + (if iw_windowStart w < a then limit else 0)"

lemma quota_live:
  assumes "\<And>w. e = Some w \<Longrightarrow> window_over window now w \<Longrightarrow> iw_windowStart w < a" "0 \<le> limit"
  shows "quota a limit (live window now e) \<le> quota a limit e"
  using assms by (cases e) (auto simp: live_def left_of_def)

lemma quota_hit:
  assumes "\<And>w. e = Some w \<Longrightarrow> window_over window now w \<Longrightarrow> iw_windowStart w < a"
    and "0 \<le> limit" "a \<le> now"
  shows "of_bool (iw_count (hit window now e) \<le> limit) + quota a limit (Some (hit window now e)) \<le>
    quota a limit e"
proof (cases e)
  case None
  with assms show ?thesis by (auto simp: hit_def left_of_def)
next
  case (Some w)
  with assms show ?thesis
    by (cases "window_over window now w") (auto simp: hit_def left_of_def Let_def)
qed

lemma Allow_quota:
  assumes "SimpleIPGuard_Allow C addr now g = ((ok, msg), g')"
    and g: "ig_rateLimitEnabled g" "0 \<le> ig_limit g"
    and W: "0 \<le> ig_window g" "ig_window g < max_duration"
    and t: "a \<le> now" "now \<le> a + ig_window g"
  shows "of_bool (ok \<and> ipHostOf addr = host) + quota a (ig_limit g) (ig_hits g' host) \<le>
    quota a (ig_limit g) (ig_hits g host)"
proof -
  have over: "window_over (ig_window g) now w \<Longrightarrow> iw_windowStart w < a" for w
    using W t by (simp add: window_over_def time_Sub_gt_iff max_duration_def)
  note cs = Allow_cases [OF assms(1) g(1), of host]
  show ?thesis
  proof (cases "ipHostOf addr = host \<and> host \<notin> ig_banned g")
    case True
    with cs quota_hit [of "ig_hits g host" "ig_window g" now a "ig_limit g"] over g(2) t(1)
    show ?thesis by simp
  next
    case False
    with cs have "\<not> (ok \<and> ipHostOf addr = host)"
      and "ig_hits g' host \<in> {ig_hits g host, live (ig_window g) now (ig_hits g host)}"
      by (auto split: if_splits)
    with quota_live [of "ig_hits g host", OF over g(2)] show ?thesis by auto
  qed
qed

lemma admitted_after:
  "ordered_from t cs \<Longrightarrow> b < t \<Longrightarrow> admitted C host a b cs g = 0"
proof (induction cs arbitrary: t g)
  case (Cons c cs)
  obtain now addr where c: "c = (now, addr)" by fastforce
  obtain ok msg g' where "SimpleIPGuard_Allow C addr now g = ((ok, msg), g')"
    by (metis prod.exhaust)
  with Cons c show ?case by auto
qed simp

lemma admitted_quota:
  assumes "ordered_from a cs" "ig_rateLimitEnabled g" "0 \<le> ig_limit g"
    and "0 \<le> ig_window g" "ig_window g < max_duration" "a \<le> t" "ordered_from t cs"
  shows "admitted C host a (a + ig_window g) cs g \<le> quota a (ig_limit g) (ig_hits g host)"
  using assms
proof (induction cs arbitrary: g t)
  case Nil
  then show ?case by (cases "ig_hits g host") (auto simp: left_of_def)
next
  case (Cons c cs)
  obtain now addr where c: "c = (now, addr)" by fastforce
  obtain ok msg g' where al: "SimpleIPGuard_Allow C addr now g = ((ok, msg), g')"
    by (metis prod.exhaust)
  note same = Allow_cases [OF al Cons.prems(2), of host]
  have le: "a \<le> now" "ordered_from now cs" using Cons.prems c by auto
  have ord: "ordered_from a cs" using le by (cases cs) auto
  show ?case
  proof (cases "now \<le> a + ig_window g")
    case True
    from Cons.IH [of g' now] same Cons.prems le ord
    have "admitted C host a (a + ig_window g) cs g' \<le> quota a (ig_limit g) (ig_hits g' host)"
      by simp
    with Allow_quota [OF al Cons.prems(2-5) le(1) True, of host] le True show ?thesis
      by (simp add: c al)
  next
    case False
    with admitted_after [of now "c # cs" "a + ig_window g" C host a g] Cons.prems c
    have "admitted C host a (a + ig_window g) (c # cs) g = 0" by simp
    moreover have "0 \<le> quota a (ig_limit g) (ig_hits g host)"
      using Cons.prems by (cases "ig_hits g host") (auto simp: left_of_def)
    ultimately show ?thesis by simp
  qed
qed

definition counted :: "SimpleIPGuard \<Rightarrow> bool" where
  "counted g \<longleftrightarrow> (\<forall>host w. ig_hits g host = Some w \<longrightarrow> 1 \<le> iw_count w)"

lemma countedD: "counted g \<Longrightarrow> ig_hits g host = Some w \<Longrightarrow> 1 \<le> iw_count w"
  by (simp add: counted_def)

lemma counted_Allow:
  assumes "SimpleIPGuard_Allow C addr now g = ((ok, msg), g')" "ig_rateLimitEnabled g" "counted g"
  shows "counted g'"
  unfolding counted_def
proof (intro allI impI)
  fix host w
  assume "ig_hits g' host = Some w"
  with Allow_cases [OF assms(1,2), of host] countedD [OF assms(3), of host] show "1 \<le> iw_count w"
    by (cases "ig_hits g host") (auto simp: hit_def live_def Let_def split: if_splits)
qed

lemma admitted_bound:
  assumes "ordered_from t cs" "ig_rateLimitEnabled g" "1 \<le> ig_limit g" "counted g"
    and "0 \<le> ig_window g" "ig_window g < max_duration"
  shows "admitted C host a (a + ig_window g) cs g \<le> 2 * ig_limit g - 1"
  using assms
proof (induction cs arbitrary: g t)
  case (Cons c cs)
  obtain now addr where c: "c = (now, addr)" by fastforce
  obtain ok msg g' where al: "SimpleIPGuard_Allow C addr now g = ((ok, msg), g')"
    by (metis prod.exhaust)
  note same = Allow_cases [OF al Cons.prems(2), of host]
  show ?case
  proof (cases "a \<le> now")
    case True
    have "admitted C host a (a + ig_window g) (c # cs) g \<le> quota a (ig_limit g) (ig_hits g host)"
      using Cons.prems True by (intro admitted_quota [where t = now]) (auto simp: c)
    also have "\<dots> \<le> 2 * ig_limit g - 1"
      using Cons.prems(3) countedD [OF Cons.prems(4), of host]
      by (cases "ig_hits g host") (auto simp: left_of_def)
    finally show ?thesis .
  next
    case False
    with Cons.IH [of now g'] counted_Allow [OF al Cons.prems(2,4)] same Cons.prems
    show ?thesis by (simp add: c al)
  qed
qed simp

lemma sweep_hits_simps:
  "sweep_hits window now Map.empty = Map.empty"
  "sweep_hits window now (hits(h \<mapsto> w)) =
     (sweep_hits window now hits)(h := if window_over window now w then None else Some w)"
  by (auto simp: sweep_hits_def)

lemma Allow_enabled:
  "SimpleIPGuard_Allow C addr now
     \<lparr>ig_banned = {}, ig_rateLimitEnabled = True, ig_window = window, ig_limit = limit,
      ig_hits = hits, ig_lastSweep = swept\<rparr> =
   (let sweep = time_Sub now swept > window;
        hits = (if sweep then sweep_hits window now hits else hits);
        w = hit window now (hits (ipHostOf addr))
    in ((iw_count w \<le> limit, if iw_count w \<le> limit then ''''
           else C ''<red>You are connecting too frequently, please wait a moment</red>''),
        \<lparr>ig_banned = {}, ig_rateLimitEnabled = True, ig_window = window, ig_limit = limit,
         ig_hits = hits(ipHostOf addr \<mapsto> w), ig_lastSweep = if sweep then now else swept\<rparr>))"
  by (cases "time_Sub now swept > window") (simp_all add: SimpleIPGuard_Allow_def Let_def not_less)

section \<open>Properties\<close>

text \<open>C21: evicting windows is invisible: for every sequence of connections in the order of time, the
  guard, which sweeps its table at moments of its own choosing, gives the answers of the
  guard that keeps every window for ever; banned hosts are refused and touch no window.\<close>

theorem SimpleIPGuard_refines_windows:
  assumes "ordered_from t cs"
  shows "allows C cs (NewSimpleIPGuard bannedIPs True window limit) =
    windowed (set bannedIPs) window limit cs Map.empty"
proof -
  have "foldl (\<lambda>banned ip. insert ip banned) B bannedIPs = B \<union> set bannedIPs" for B
    by (induction bannedIPs arbitrary: B) auto
  then show ?thesis
    using guard.sweeps_invisible_same [OF ordered_guard_ops [OF assms]]
    by (simp add: allows_run_swept NewSimpleIPGuard_def windowed_run_plain [where swept = zero_time])
qed

text \<open>The rate limit: from a new guard, whatever else connects, a host gets fewer than twice the
  limit of connections admitted in any period of the window's length.\<close>

lemma SimpleIPGuard_rate_bound:
  assumes "ordered_from t cs" "1 \<le> limit" "0 \<le> window" "window < max_duration"
  shows "admitted C host a (a + window) cs (NewSimpleIPGuard bannedIPs True window limit) \<le>
    2 * limit - 1"
  using admitted_bound [of t cs "NewSimpleIPGuard bannedIPs True window limit"] assms
  by (simp add: NewSimpleIPGuard_def counted_def)

text \<open>The window does not slide. With a limit of three connections in ten seconds, a host gets
  five connections admitted within ten seconds: the bound of the previous property is reached.\<close>

lemma SimpleIPGuard_window_is_fixed:
  "admitted C ''203.0.113.5'' (10 * Second) (10 * Second + 10 * Second)
     [(0, OtherAddr ''203.0.113.5:1''), (10 * Second, OtherAddr ''203.0.113.5:2''),
      (10 * Second, OtherAddr ''203.0.113.5:3''), (11 * Second, OtherAddr ''203.0.113.5:4''),
      (12 * Second, OtherAddr ''203.0.113.5:5''), (13 * Second, OtherAddr ''203.0.113.5:6'')]
     (NewSimpleIPGuard [] True (10 * Second) 3) = 5"
proof -
  have h: "SplitHostPort ''203.0.113.5:1'' = Some (''203.0.113.5'', ''1'')"
    "SplitHostPort ''203.0.113.5:2'' = Some (''203.0.113.5'', ''2'')"
    "SplitHostPort ''203.0.113.5:3'' = Some (''203.0.113.5'', ''3'')"
    "SplitHostPort ''203.0.113.5:4'' = Some (''203.0.113.5'', ''4'')"
    "SplitHostPort ''203.0.113.5:5'' = Some (''203.0.113.5'', ''5'')"
    "SplitHostPort ''203.0.113.5:6'' = Some (''203.0.113.5'', ''6'')"
    by code_simp+
  show ?thesis
    by (simp add: h Allow_enabled NewSimpleIPGuard_def hit_def window_over_def sweep_hits_simps
        Second_def time_Sub_def max_duration_def zero_time_def)
qed

text \<open>The whitelist, when it is enabled, lets in exactly the names it lists, in any case of
  letters; when it is disabled it lets in everybody. The message is empty exactly when the
  player is let in, provided the coloured message is not empty.\<close>

lemma SimpleWhitelist_exact:
  assumes "Colourf ''<red>Server is whitelisted</red>'' \<noteq> ''''"
    and "SimpleWhitelist_Authorize Colourf (NewSimpleWhitelist enabled players) name = (ok, msg)"
  shows "(ok \<longleftrightarrow> \<not> enabled \<or> (\<exists>p \<in> set players. EqualFold p name)) \<and> (msg = '''' \<longleftrightarrow> ok)"
proof -
  have "foldl (\<lambda>set p. insert (ToLower p) set) S players = S \<union> ToLower ` set players" for S
    by (induction players arbitrary: S) auto
  with assms show ?thesis
    by (auto simp: SimpleWhitelist_Authorize_def NewSimpleWhitelist_def EqualFold_def image_iff
        split: if_splits)
qed

section \<open>Witnesses\<close>

theorem SimpleIPGuard_refines_windows_witness:
  "allows (\<lambda>m. m) [(0, OtherAddr ''a''), (5, OtherAddr ''b''), (30, OtherAddr ''a'')]
     (NewSimpleIPGuard [''b''] True 10 1) = [True, False, True]"
  using SimpleIPGuard_refines_windows [of 0
    "[(0, OtherAddr ''a''), (5, OtherAddr ''b''), (30, OtherAddr ''a'')]" "\<lambda>m. m" "[''b'']" 10 1]
  by (simp add: SplitHostPort_def cut_last_def hit_def window_over_def time_Sub_def
      max_duration_def)

end
