(* ===== verification/HealthChecker.thy ===== *)
theory HealthChecker
  imports Servers
begin

text \<open>
  \<^verbatim>\<open>server/health_checker.go\<close>: every registered server is pinged at an interval; enough failures
  in a row mark it unhealthy, one success marks it healthy again, and each change of state is
  published.

  The result of a ping is an input of \<open>check\<close> (an error or none). \<open>checkAll\<close> runs the checks of a
  round concurrently; the part of a check after its ping holds the checker's mutex, so a round
  is some sequence of checks, the argument \<open>sched\<close>, over the servers that were registered when the
  round began.
\<close>

section \<open>Pinging\<close>

definition TrimRight_slash :: "string \<Rightarrow> string" where
  "TrimRight_slash s = rev (dropWhile (\<lambda>c. c = CHR ''/'') (rev s))"

text \<open>\<open>http_get\<close> stands for the HTTP client (an error or a status code), \<open>raknet_ping\<close> for the
  unconnected ping of the RakNet library.\<close>

definition pingNetherNet :: "(string \<Rightarrow> go_error + int) \<Rightarrow> string \<Rightarrow> go_error option" where
  "pingNetherNet http_get address =
     (case http_get (TrimRight_slash address @ ''/v1/join'') of
        Inl e \<Rightarrow> Some e
      | Inr status \<Rightarrow> if status \<noteq> 200 then Some (''unexpected status '' @ show_int status) else None)"

definition ping ::
  "(string \<Rightarrow> go_error option) \<Rightarrow> (string \<Rightarrow> go_error + int) \<Rightarrow> server \<Rightarrow> go_error option" where
  "ping raknet_ping http_get srv =
     (if sv_transport srv = TransportNetherNet then pingNetherNet http_get (sv_address srv)
      else raknet_ping (sv_address srv))"

section \<open>The checker\<close>

record health_checker =
  hc_failureThreshold :: int
  hc_failures :: "string \<rightharpoonup> int"
  hc_events :: bool

definition NewHealthChecker :: "int \<Rightarrow> bool \<Rightarrow> health_checker" where
  "NewHealthChecker failureThreshold events =
     \<lparr> hc_failureThreshold = failureThreshold, hc_failures = Map.empty, hc_events = events \<rparr>"

definition failures_of :: "health_checker \<Rightarrow> string \<Rightarrow> int" where
  "failures_of hc name = (case hc_failures hc name of None \<Rightarrow> 0 | Some n \<Rightarrow> n)"

definition set_failures :: "string \<Rightarrow> int \<Rightarrow> health_checker \<Rightarrow> health_checker" where
  "set_failures name n hc = hc\<lparr> hc_failures := (hc_failures hc)(name \<mapsto> n) \<rparr>"

definition hc_publish :: "health_checker \<Rightarrow> server \<Rightarrow> bool \<Rightarrow> published" where
  "hc_publish hc srv healthy =
     (if hc_events hc then
        [(TopicServerHealthChanged, ServerHealthPayload (sv_name srv) (sv_address srv) healthy)]
      else [])"

type_synonym hc_state = "health_checker \<times> srv_heap \<times> published"

definition check :: "srv_ref \<Rightarrow> go_error option \<Rightarrow> hc_state \<Rightarrow> hc_state" where
  "check r err st =
     (let (hc, h, pub) = st; name = Name h r in
      case err of
        Some e \<Rightarrow>
          (let hc1 = set_failures name (failures_of hc name + 1) hc in
           if hc_failureThreshold hc1 \<le> failures_of hc1 name \<and> Healthy h r
           then (hc1, SetHealthy r False h, pub @ hc_publish hc1 (srv_at h r) False)
           else (hc1, h, pub))
      | None \<Rightarrow>
          (let hc1 = set_failures name 0 hc in
           if \<not> Healthy h r
           then (hc1, SetHealthy r True h, pub @ hc_publish hc1 (srv_at h r) True)
           else (hc1, h, pub)))"

definition pruneFailures :: "srv_heap \<Rightarrow> srv_ref list \<Rightarrow> health_checker \<Rightarrow> health_checker" where
  "pruneFailures h current hc =
     hc\<lparr> hc_failures := (\<lambda>name. if name \<in> set (map (Name h) current) then hc_failures hc name
                               else None) \<rparr>"

fun run_checks :: "(srv_ref \<times> go_error option) list \<Rightarrow> hc_state \<Rightarrow> hc_state" where
  "run_checks [] st = st"
| "run_checks ((r, err) # sched) st = run_checks sched (check r err st)"

text \<open>\<open>current\<close> is the snapshot \<open>registry.Servers()\<close> at the start of the round.\<close>

definition checkAll ::
  "srv_ref list \<Rightarrow> (srv_ref \<times> go_error option) list \<Rightarrow> hc_state \<Rightarrow> hc_state" where
  "checkAll current sched st =
     (let (hc, h, pub) = run_checks sched st in (pruneFailures h current hc, h, pub))"

text \<open>What a check logs.\<close>

definition check_log :: "srv_ref \<Rightarrow> go_error option \<Rightarrow> hc_state \<Rightarrow> string list" where
  "check_log r err st =
     (let (hc, h, pub) = st; name = Name h r; n = failures_of hc name + 1 in
      case err of
        Some e \<Rightarrow>
          (if hc_failureThreshold hc \<le> n \<and> Healthy h r
           then [''server '' @ Quote name @ '' failed '' @ show_int n @ '' consecutive health checks, marking unhealthy: '' @ e]
           else [])
      | None \<Rightarrow> if Healthy h r then [] else [''server '' @ Quote name @ '' is responding again, marking healthy''])"

fun run_logs :: "(srv_ref \<times> go_error option) list \<Rightarrow> hc_state \<Rightarrow> string list" where
  "run_logs [] st = []"
| "run_logs ((r, err) # sched) st = check_log r err st @ run_logs sched (check r err st)"

text \<open>The loop: what its \<^verbatim>\<open>select\<close> receives, a tick with the servers registered then and what their pings gave, or the end
  of the context. The loop returns at the end of the context.\<close>

datatype hc_signal = Ticked "srv_ref list" "(srv_ref \<times> go_error option) list" | Cancelled

fun HealthChecker_Start :: "hc_signal list \<Rightarrow> hc_state \<times> string list \<Rightarrow> bool \<times> hc_state \<times> string list" where
  "HealthChecker_Start [] st = (False, st)"
| "HealthChecker_Start (Cancelled # sigs) st = (True, st)"
| "HealthChecker_Start (Ticked current sched # sigs) (st, logged) =
     HealthChecker_Start sigs (checkAll current sched st, logged @ run_logs sched st)"

section \<open>What the results of one server amount to\<close>

definition results_of :: "srv_ref \<Rightarrow> (srv_ref \<times> go_error option) list \<Rightarrow> go_error option list" where
  "results_of r sched = map snd (filter (\<lambda>(s, _). s = r) sched)"

text \<open>The number of failures since the last success.\<close>

definition trailing :: "go_error option list \<Rightarrow> nat" where
  "trailing rs = length (takeWhile (\<lambda>e. e \<noteq> None) (rev rs))"

text \<open>The health states published for a server, oldest first.\<close>

definition health_events :: "string \<Rightarrow> published \<Rightarrow> bool list" where
  "health_events name pub =
     List.map_filter (\<lambda>(t, p). case p of
        ServerHealthPayload n a b \<Rightarrow> if n = name then Some b else None
      | _ \<Rightarrow> None) pub"

text \<open>A list that starts with \<open>b\<close> and alternates.\<close>

fun alternates :: "bool \<Rightarrow> bool list \<Rightarrow> bool" where
  "alternates b [] = True"
| "alternates b (x # xs) = (x = b \<and> alternates (\<not> b) xs)"

section \<open>Facts\<close>

lemma trailing_Nil [simp]: "trailing [] = 0"
  by (simp add: trailing_def)

lemma trailing_snoc [simp]:
  "trailing (rs @ [e]) = (if e = None then 0 else Suc (trailing rs))"
  by (simp add: trailing_def)

lemma results_of_Nil [simp]: "results_of r [] = []"
  by (simp add: results_of_def)

lemma failures_of_set:
  "failures_of (set_failures n k hc) m = (if m = n then k else failures_of hc m)"
  by (simp add: failures_of_def set_failures_def)

lemma set_failures_simps [simp]:
  "hc_failureThreshold (set_failures n k hc) = hc_failureThreshold hc"
  "hc_events (set_failures n k hc) = hc_events hc"
  by (simp_all add: set_failures_def)

lemma health_events_append:
  "health_events n (p @ q) = health_events n p @ health_events n q"
  by (simp add: health_events_def List.map_filter_def)

lemma health_events_publish:
  "health_events n (hc_publish hc srv b) =
     (if hc_events hc \<and> sv_name srv = n then [b] else [])"
  by (simp add: health_events_def hc_publish_def List.map_filter_def)

lemma alternates_append:
  "alternates b (xs @ [y]) \<longleftrightarrow> alternates b xs \<and> (y \<longleftrightarrow> (if even (length xs) then b else \<not> b))"
  by (induction xs arbitrary: b) auto

text \<open>What a check leaves alone.\<close>

lemma check_frame:
  assumes "check s e (hc, h, pub) = (hc', h', pub')"
  shows "Name h' r = Name h r" "hc_failureThreshold hc' = hc_failureThreshold hc"
    "hc_events hc' = hc_events hc" "srv_next h' = srv_next h"
  using assms by (auto simp: check_def Let_def split: option.splits if_splits)

lemma check_other:
  assumes "check s e (hc, h, pub) = (hc', h', pub')" "Name h s \<noteq> Name h r"
  shows "Healthy h' r = Healthy h r" "failures_of hc' (Name h r) = failures_of hc (Name h r)"
    "health_events (Name h r) pub' = health_events (Name h r) pub"
  using assms
  by (auto simp: check_def Let_def failures_of_set health_events_append health_events_publish
      split: option.splits if_splits)

lemma check_self:
  assumes "check r e (hc, h, pub) = (hc', h', pub')"
  shows "failures_of hc' (Name h r) = (if e = None then 0 else failures_of hc (Name h r) + 1)"
    and "Healthy h' r \<longleftrightarrow>
      (e = None \<or> Healthy h r \<and> failures_of hc (Name h r) + 1 < hc_failureThreshold hc)"
    and "health_events (Name h r) pub' = health_events (Name h r) pub @
      (if hc_events hc \<and> Healthy h' r \<noteq> Healthy h r then [Healthy h' r] else [])"
  using assms
  by (auto simp: check_def Let_def failures_of_set health_events_append health_events_publish
      split: option.splits if_splits)

lemma run_checks_Name:
  "run_checks sched (hc, h, pub) = (hc', h', pub') \<Longrightarrow>
     Name h' r = Name h r \<and> hc_failureThreshold hc' = hc_failureThreshold hc \<and>
     hc_events hc' = hc_events hc"
proof (induction sched arbitrary: hc h pub)
  case (Cons p sched)
  obtain s e where p: "p = (s, e)" by fastforce
  obtain hc1 h1 pub1 where c: "check s e (hc, h, pub) = (hc1, h1, pub1)"
    by (metis prod_cases3)
  with Cons p show ?case using check_frame [OF c] by auto
qed simp

text \<open>The state of the checker after pings of a server that gave \<open>rs\<close>; \<open>h0\<close> is the heap at the start.\<close>

definition tracks :: "srv_heap \<Rightarrow> srv_ref \<Rightarrow> int \<Rightarrow> go_error option list \<Rightarrow> hc_state \<Rightarrow> bool" where
  "tracks h0 r th rs st \<longleftrightarrow>
     (case st of (hc, h, pub) \<Rightarrow>
        (\<forall>s. Name h s = Name h0 s) \<and> hc_failureThreshold hc = th \<and> failures_of hc (Name h0 r) = int (trailing rs) \<and>
        (Healthy h r \<longleftrightarrow> int (trailing rs) < th) \<and>
        (hc_events hc \<longrightarrow> alternates False (health_events (Name h0 r) pub) \<and>
           (Healthy h r \<longleftrightarrow> even (length (health_events (Name h0 r) pub)))))"

lemma tracks_check:
  assumes "tracks h0 r th rs st" "0 < th" "Name h0 s = Name h0 r \<longrightarrow> s = r"
  shows "tracks h0 r th (rs @ (if s = r then [e] else [])) (check s e st)"
proof -
  obtain hc h pub where st: "st = (hc, h, pub)" by (metis prod_cases3)
  obtain hc' h' pub' where c: "check s e (hc, h, pub) = (hc', h', pub')" by (metis prod_cases3)
  have n: "Name h x = Name h0 x" for x using assms(1) by (simp add: tracks_def st)
  have f: "Name h' x = Name h x" "hc_failureThreshold hc' = hc_failureThreshold hc" "hc_events hc' = hc_events hc" for x
    by (rule check_frame [OF c])+
  show ?thesis
  proof (cases "s = r")
    case True
    have "tracks h0 r th (rs @ [e]) (hc', h', pub')"
      using assms(1,2) check_self [OF c [unfolded True]] f n
      unfolding tracks_def st prod.case by (cases e) (auto simp: alternates_append)
    with True c show ?thesis by (simp add: st)
  next
    case False
    with assms(3) n have "Name h s \<noteq> Name h r" by auto
    from check_other [OF c this] assms(1) f n have "tracks h0 r th rs (hc', h', pub')"
      unfolding tracks_def st prod.case by (simp, blast)
    with False c show ?thesis by (simp add: st)
  qed
qed

lemma tracks_run_checks:
  assumes "tracks h0 r th rs st" "0 < th" "\<forall>s \<in> fst ` set sched. Name h0 s = Name h0 r \<longrightarrow> s = r"
  shows "tracks h0 r th (rs @ results_of r sched) (run_checks sched st)"
  using assms(1,3)
proof (induction sched arbitrary: rs st)
  case (Cons p sched)
  obtain s e where p: "p = (s, e)" by fastforce
  from Cons.prems have "tracks h0 r th (rs @ (if s = r then [e] else [])) (check s e st)"
    by (intro tracks_check assms(2)) (auto simp: p)
  from Cons.IH [OF this] Cons.prems(2) show ?case by (simp add: p results_of_def split: if_splits)
qed simp

lemma failures_of_prune:
  "failures_of (pruneFailures h current hc) name =
     (if name \<in> Name h ` set current then failures_of hc name else 0)"
  by (auto simp: failures_of_def pruneFailures_def)

lemma tracks_checkAll:
  assumes "tracks h0 r th rs st" "0 < th" "\<forall>s \<in> fst ` set sched. Name h0 s = Name h0 r \<longrightarrow> s = r" "r \<in> set current"
  shows "tracks h0 r th (rs @ results_of r sched) (checkAll current sched st)"
proof -
  obtain hc h pub where c: "run_checks sched st = (hc, h, pub)" by (metis prod_cases3)
  have t: "tracks h0 r th (rs @ results_of r sched) (hc, h, pub)" using tracks_run_checks [OF assms(1-3)] by (simp add: c)
  then have "Name h0 r \<in> Name h ` set current" using assms(4) by (force simp: tracks_def)
  with t have "tracks h0 r th (rs @ results_of r sched) (pruneFailures h current hc, h, pub)"
    by (simp add: tracks_def failures_of_prune) (simp add: pruneFailures_def, blast)
  then show ?thesis by (simp add: checkAll_def c)
qed

text \<open>The rounds the loop makes, and what they gave for a server.\<close>

fun rounds_of :: "hc_signal list \<Rightarrow> (srv_ref list \<times> (srv_ref \<times> go_error option) list) list" where
  "rounds_of [] = []"
| "rounds_of (Cancelled # sigs) = []"
| "rounds_of (Ticked current sched # sigs) = (current, sched) # rounds_of sigs"

definition ping_results :: "srv_ref \<Rightarrow> hc_signal list \<Rightarrow> go_error option list" where
  "ping_results r sigs = concat (map (\<lambda>(_, sched). results_of r sched) (rounds_of sigs))"

definition stays_registered :: "srv_heap \<Rightarrow> srv_ref \<Rightarrow> hc_signal list \<Rightarrow> bool" where
  "stays_registered h r sigs \<longleftrightarrow>
     (\<forall>(current, sched) \<in> set (rounds_of sigs).
        r \<in> set current \<and> (\<forall>s \<in> fst ` set sched. Name h s = Name h r \<longrightarrow> s = r))"

lemma tracks_Start:
  assumes "tracks h0 r th rs st" "0 < th" "stays_registered h0 r sigs"
  shows "tracks h0 r th (rs @ ping_results r sigs) (fst (snd (HealthChecker_Start sigs (st, logged))))"
  using assms(1,3)
proof (induction sigs "(st, logged)" arbitrary: rs st logged rule: HealthChecker_Start.induct)
  case (3 current sched sigs st logged)
  then have "tracks h0 r th (rs @ results_of r sched) (checkAll current sched st)"
    by (intro tracks_checkAll assms(2)) (auto simp: stays_registered_def)
  from "3.hyps" [OF this] "3.prems"(2) show ?case by (simp add: ping_results_def stays_registered_def)
qed (simp_all add: ping_results_def)

lemma Start_returns: "fst (HealthChecker_Start sigs st) \<longleftrightarrow> Cancelled \<in> set sigs"
  by (induction sigs st rule: HealthChecker_Start.induct) simp_all

lemma Start_events:
  "hc_events (fst (fst (snd (HealthChecker_Start sigs (st, logged))))) = hc_events (fst st)"
proof (induction sigs "(st, logged)" arbitrary: st logged rule: HealthChecker_Start.induct)
  case (3 current sched sigs st logged)
  obtain hc h pub where st: "st = (hc, h, pub)" by (metis prod_cases3)
  obtain hc' h' pub' where r: "run_checks sched (hc, h, pub) = (hc', h', pub')" by (metis prod_cases3)
  have "hc_events (fst (checkAll current sched st)) = hc_events (fst st)"
    using run_checks_Name [OF r] by (simp add: st r checkAll_def pruneFailures_def)
  with 3 show ?case by simp
qed simp_all

section \<open>Properties\<close>

text \<open>C24: for a server that starts healthy with no recorded failure and stays registered, any run of the loop of health
  checks, its rounds interleaving the pings in any way with those of servers of other names, leaves it healthy exactly when
  the failures since its last successful ping are fewer than the threshold; its failure counter is that number; and the
  published health changes alternate, starting with unhealthy, their number even exactly when it is healthy (so the last
  one published is its current state). The loop has returned exactly when its context has been cancelled.\<close>

theorem health_follows_consecutive_failures:
  assumes "HealthChecker_Start sigs ((hc, h, pub), logged) = (returned, (hc', h', pub'), logged')"
    and "stays_registered h r sigs" "0 < hc_failureThreshold hc" "hc_events hc"
    and "Healthy h r" "failures_of hc (Name h r) = 0" "health_events (Name h r) pub = []"
  shows "failures_of hc' (Name h r) = int (trailing (ping_results r sigs)) \<and>
    (Healthy h' r \<longleftrightarrow> int (trailing (ping_results r sigs)) < hc_failureThreshold hc) \<and>
    alternates False (health_events (Name h r) pub') \<and>
    (Healthy h' r \<longleftrightarrow> even (length (health_events (Name h r) pub'))) \<and> (returned \<longleftrightarrow> Cancelled \<in> set sigs)"
proof -
  have "tracks h r (hc_failureThreshold hc) [] (hc, h, pub)" using assms(3,5-7) by (simp add: tracks_def)
  note tracked = tracks_Start [OF this assms(3,2), of logged]
  have "hc_events hc'" using Start_events [of sigs "(hc, h, pub)" logged] assms(1,4) by simp
  with tracked assms(1) Start_returns [of sigs "((hc, h, pub), logged)"] show ?thesis by (auto simp: tracks_def)
qed

definition ex_hc_heap :: srv_heap where
  "ex_hc_heap = \<lparr> srv_at = (\<lambda>r. server_New (if r = 0 then ''a'' else ''b'') ''h:1'' '''' '''' 1 False),
     srv_next = 2 \<rparr>"

theorem health_follows_consecutive_failures_witness:
  "\<exists>hc' h' pub' logged. HealthChecker_Start [Ticked [0, 1] [(0, Some ''t''), (1, None)], Ticked [0, 1] [(1, None), (0, Some ''t'')],
      Ticked [0] [(0, Some ''t'')], Cancelled] ((NewHealthChecker 3 True, ex_hc_heap, []), []) = (True, (hc', h', pub'), logged) \<and>
    \<not> Healthy h' 0 \<and> failures_of hc' ''a'' = 3"
proof -
  let ?sigs = "[Ticked [0, 1] [(0, Some ''t''), (1, None)], Ticked [0, 1] [(1, None), (0, Some ''t'')],
      Ticked [0] [(0, Some ''t'')], Cancelled]"
  obtain b hc' h' pub' logged where
    r: "HealthChecker_Start ?sigs ((NewHealthChecker 3 True, ex_hc_heap, []), []) = (b, (hc', h', pub'), logged)"
    by (metis prod_cases3)
  have a: "Name ex_hc_heap 0 = ''a''" by code_simp
  have t: "trailing (ping_results 0 ?sigs) = 3" by code_simp
  have d: "stays_registered ex_hc_heap 0 ?sigs" by code_simp

  have "failures_of hc' (Name ex_hc_heap 0) = int (trailing (ping_results 0 ?sigs)) \<and>
    (Healthy h' 0 \<longleftrightarrow>
      int (trailing (ping_results 0 ?sigs)) < hc_failureThreshold (NewHealthChecker 3 True)) \<and>
    alternates False (health_events (Name ex_hc_heap 0) pub') \<and>
    (Healthy h' 0 \<longleftrightarrow> even (length (health_events (Name ex_hc_heap 0) pub'))) \<and> (b \<longleftrightarrow> Cancelled \<in> set ?sigs)"
    by (intro health_follows_consecutive_failures [OF r d])
      (simp_all add: NewHealthChecker_def ex_hc_heap_def failures_of_def health_events_def
        List.map_filter_def Healthy_def server_New_def)
  then show ?thesis using r t a by (auto simp: NewHealthChecker_def)
qed

text \<open>After a round the checker keeps failure counts only for the names of the servers that
  were registered when the round began, so the table cannot grow with servers that have left;
  and pruning changes no count of a server that is still registered.\<close>

lemma checkAll_prunes:
  "case checkAll current sched (hc, h, pub) of (hc', h', pub') \<Rightarrow>
     dom (hc_failures hc') \<subseteq> Name h ` set current \<and>
     (\<forall>s \<in> set current.
        failures_of hc' (Name h s) = failures_of (fst (run_checks sched (hc, h, pub))) (Name h s))"
proof -
  obtain hc1 h1 pub1 where r: "run_checks sched (hc, h, pub) = (hc1, h1, pub1)"
    by (metis prod_cases3)
  have n: "Name h1 x = Name h x" for x using run_checks_Name [OF r] by blast
  have "dom (hc_failures (pruneFailures h1 current hc1)) \<subseteq> Name h ` set current"
    by (auto simp: pruneFailures_def n split: if_splits)
  moreover have "failures_of (pruneFailures h1 current hc1) (Name h s) = failures_of hc1 (Name h s)"
    if "s \<in> set current" for s
    using that by (auto simp: failures_of_prune n)
  ultimately show ?thesis by (simp add: checkAll_def r)
qed

end
