(* ===== verification/Harness.thy ===== *)
theory Harness
  imports Placements Admission HealthChecker
begin

text \<open>
  The integration test of the repository (\<^verbatim>\<open>tools/harness/main.go\<close>) on the model: its tests are functions that call the
  operations of the components as the driver does, and each is shown to report no failure, for every order in which maps
  are visited, every clock that keeps the times the test allows for, and every network that carries the packets.

  The results are recorded without the details that are only printed. The TLS test is left out; listening and asking for
  the metrics over HTTP are outcomes that the test finds.
\<close>

section \<open>Recording results\<close>

datatype status = PASS | FAIL | SKIP

record harness_result =
  hr_feature :: string
  hr_name :: string
  hr_status :: status

type_synonym results = "harness_result list"

definition harness_rec :: "string \<Rightarrow> string \<Rightarrow> status \<Rightarrow> results \<Rightarrow> results" where
  "harness_rec feature name status rs = rs @ [\<lparr>hr_feature = feature, hr_name = name, hr_status = status\<rparr>]"

definition harness_check :: "string \<Rightarrow> string \<Rightarrow> bool \<Rightarrow> results \<Rightarrow> results" where
  "harness_check feature name cond rs = harness_rec feature name (if cond then PASS else FAIL) rs"

text \<open>Polling: \<open>sleeps\<close> is what happens to the state in each sleep before the deadline.\<close>

fun waitFor :: "('s \<Rightarrow> bool) \<Rightarrow> ('s \<Rightarrow> 's) list \<Rightarrow> 's \<Rightarrow> bool \<times> 's" where
  "waitFor cond [] s = (cond s, s)"
| "waitFor cond (sleep # sleeps) s = (if cond s then (True, s) else waitFor cond sleeps (sleep s))"

lemma waitFor_in_time:
  assumes "waitFor cond sleeps s = (ok, s')" "cond (foldl (\<lambda>s f. f s) s sleeps)"
  shows "ok \<and> cond s' \<and> (\<exists>n \<le> length sleeps. s' = foldl (\<lambda>s f. f s) s (take n sleeps))"
  using assms
proof (induction sleeps arbitrary: s)
  case (Cons sleep sleeps)
  show ?case
  proof (cases "cond s")
    case True
    with Cons.prems show ?thesis by (intro conjI exI [of _ 0]) auto
  next
    case False
    with Cons obtain n where "ok" "cond s'" "n \<le> length sleeps" "s' = foldl (\<lambda>s f. f s) (sleep s) (take n sleeps)" by auto
    then show ?thesis by (intro conjI exI [of _ "Suc n"]) auto
  qed
qed simp

text \<open>A test that panics is a failure; the results so far stay.\<close>

definition runTest :: "string \<Rightarrow> string \<Rightarrow> (results \<Rightarrow> results \<times> go_error option) \<Rightarrow> results \<Rightarrow> results" where
  "runTest feature title fn rs =
     (case fn rs of
        (rs, None) \<Rightarrow> rs
      | (rs, Some r) \<Rightarrow> harness_rec feature title FAIL rs)"

definition count_status :: "status \<Rightarrow> results \<Rightarrow> nat" where
  "count_status st rs = length (filter (\<lambda>r. hr_status r = st) rs)"

text \<open>The exit code of the driver.\<close>

definition harness_exit :: "results \<Rightarrow> nat" where
  "harness_exit rs = (if count_status FAIL rs > 0 then 1 else 0)"

text \<open>A test records this many results, all with this status.\<close>

definition adds :: "status \<Rightarrow> nat \<Rightarrow> (results \<Rightarrow> results) \<Rightarrow> bool" where
  "adds st n test \<longleftrightarrow> (\<forall>rs. \<exists>new. test rs = rs @ new \<and> length new = n \<and> (\<forall>r \<in> set new. hr_status r = st))"

lemma adds_rec: "adds st 1 (harness_rec feature name st)"
  by (auto simp: adds_def harness_rec_def)

lemma adds_comp:
  assumes "adds st m f" "adds st n g"
  shows "adds st (m + n) (\<lambda>rs. g (f rs))"
  unfolding adds_def
proof
  fix rs
  from assms(1) obtain new where new: "f rs = rs @ new" "length new = m" "\<forall>r \<in> set new. hr_status r = st"
    unfolding adds_def by blast
  from assms(2) obtain new' where "g (f rs) = f rs @ new'" "length new' = n" "\<forall>r \<in> set new'. hr_status r = st"
    unfolding adds_def by blast
  with new have "g (f rs) = rs @ (new @ new')" "length (new @ new') = m + n" "\<forall>r \<in> set (new @ new'). hr_status r = st" by auto
  then show "\<exists>new. g (f rs) = rs @ new \<and> length new = m + n \<and> (\<forall>r \<in> set new. hr_status r = st)" by blast
qed

lemma adds_id: "n = 0 \<Longrightarrow> adds st n (\<lambda>rs. rs)"
  by (simp add: adds_def)

lemma adds_then:
  assumes cond "adds PASS (n - 1) test" "0 < n"
  shows "adds PASS n (\<lambda>rs. harness_check feature name cond (test rs))"
proof -
  from assms(1) have "harness_check feature name cond = harness_rec feature name PASS" by (simp add: harness_check_def fun_eq_iff)
  with adds_comp [OF assms(2) adds_rec] assms(3) show ?thesis by simp
qed

lemmas adds_intros = adds_then adds_id

lemma adds_more: "adds st m f \<Longrightarrow> adds st n g \<Longrightarrow> k = m + n \<Longrightarrow> adds st k (\<lambda>rs. g (f rs))"
  by (simp add: adds_comp)

lemma count_adds: "adds st n test \<Longrightarrow> count_status st' (test rs) = count_status st' rs + (if st' = st then n else 0)"
  by (auto simp: adds_def count_status_def filter_empty_conv dest!: spec [of _ rs] intro!: arg_cong [of _ _ length] filter_True)

lemma Contains_parts: "Contains (a @ sub @ b) sub"
  unfolding Contains_iff by blast

section \<open>Event bus\<close>

text \<open>Handler 0 panics; handler 1 sets the flag that is the state.\<close>

definition bus_handlers :: "bool run" where
  "bus_handlers fn payload st = (if fn = 0 then (Some ''boom'', st) else (None, fst st, True))"

text \<open>\<open>hung\<close>: the publication has not returned after two seconds.\<close>

definition testEventBusPanic :: "bool \<Rightarrow> payload \<Rightarrow> results \<Rightarrow> results" where
  "testEventBusPanic hung payload rs =
     (if hung then harness_rec ''5-events'' ''panic isolation'' FAIL rs
      else let bus = Subscribe ''t'' 1 (Subscribe ''t'' 0 NewBus);
          (log, _, normalRan) = Publish bus_handlers ''t'' payload (bus, False);
          rs = harness_check ''5-events'' ''panic recovered''
                 (list_ex (\<lambda>(fn, line). case line of None \<Rightarrow> False
                    | Some l \<Rightarrow> Contains l ''event: handler panicked: boom'') log) rs
      in harness_check ''5-events'' ''sibling handler ran'' normalRan rs)"

lemma testEventBusPanic_ok: "adds PASS 2 (testEventBusPanic False payload)"
proof -
  have p: "Publish bus_handlers ''t'' payload (Subscribe ''t'' 1 (Subscribe ''t'' 0 NewBus), False) =
      ([(0, Some ''event: handler panicked: boom''), (1, None)], Subscribe ''t'' 1 (Subscribe ''t'' 0 NewBus), True)"
    by (simp add: Publish_def handlers_Subscribe NewBus_def call_def bus_handlers_def)
  have "Contains ''event: handler panicked: boom'' ''event: handler panicked: boom''" by simp
  then show ?thesis unfolding testEventBusPanic_def p Let_def
    by (simp del: Contains.simps) (intro adds_intros TrueI; simp)
qed

section \<open>IP guard\<close>

text \<open>What the tests need of \<^verbatim>\<open>text.Colourf\<close>: the text between the tags stays as it is.\<close>

definition colours_keep_text :: "(string \<Rightarrow> string) \<Rightarrow> bool" where
  "colours_keep_text C \<longleftrightarrow>
     (\<forall>t. CHR ''<'' \<notin> set t \<longrightarrow> (\<exists>before after. C (''<red>'' @ t @ ''</red>'') = before @ t @ after))"

text \<open>The calls for one address at the times given: how many were allowed, the last message, and the guard.\<close>

fun allow_loop ::
  "(string \<Rightarrow> string) \<Rightarrow> net_addr \<Rightarrow> time list \<Rightarrow> nat \<Rightarrow> string \<Rightarrow> SimpleIPGuard \<Rightarrow> nat \<times> string \<times> SimpleIPGuard" where
  "allow_loop C addr [] allowed lastMsg g = (allowed, lastMsg, g)"
| "allow_loop C addr (now # ts) allowed lastMsg g =
     (case SimpleIPGuard_Allow C addr now g of
        ((ok, msg), g) \<Rightarrow> allow_loop C addr ts (if ok then allowed + 1 else allowed) msg g)"

text \<open>The clock at the calls: the banned address, six times the client, another one.\<close>

definition testIPGuard :: "(string \<Rightarrow> string) \<Rightarrow> time \<Rightarrow> time list \<Rightarrow> time \<Rightarrow> results \<Rightarrow> results" where
  "testIPGuard C t0 ts t1 rs =
     (let g = NewSimpleIPGuard [''203.0.113.9''] True (10 * Second) 5;
          ((ok, msg), g) = SimpleIPGuard_Allow C (OtherAddr ''203.0.113.9:5000'') t0 g;
          rs = harness_check ''9-ipguard'' ''banned IP rejected'' (\<not> ok \<and> Contains msg ''banned'') rs;
          (allowed, lastMsg, g) = allow_loop C (OtherAddr ''127.0.0.1:6000'') ts 0 '''' g;
          rs = harness_check ''9-ipguard'' ''rate limit triggers''
                 (allowed = 5 \<and> Contains lastMsg ''too frequently'') rs;
          ((ok2, _), g) = SimpleIPGuard_Allow C (OtherAddr ''10.0.0.7:7000'') t1 g
      in harness_check ''9-ipguard'' ''per-IP isolation'' ok2 rs)"

lemma Contains_Colourf:
  assumes "colours_keep_text C" "CHR ''<'' \<notin> set t" "Contains t sub"
  shows "Contains (C (''<red>'' @ t @ ''</red>'')) sub"
proof -
  from assms(1,2) obtain before after where "C (''<red>'' @ t @ ''</red>'') = before @ t @ after"
    unfolding colours_keep_text_def by blast
  moreover from assms(3) obtain a b where "t = a @ sub @ b" by (auto simp: Contains_iff)
  ultimately have "C (''<red>'' @ t @ ''</red>'') = (before @ a) @ sub @ (b @ after)" by simp
  then show ?thesis unfolding Contains_iff by blast
qed

text \<open>The guard while the window of a host is open: calls within ten seconds of its first one.\<close>

definition counting :: "string set \<Rightarrow> string \<Rightarrow> time \<Rightarrow> int \<Rightarrow> SimpleIPGuard \<Rightarrow> bool" where
  "counting B host start n g \<longleftrightarrow>
     host \<notin> B \<and> ig_banned g = B \<and> ig_rateLimitEnabled g \<and>
     ig_window g = 10 * Second \<and> ig_limit g = 5 \<and>
     ig_hits g = [host \<mapsto> \<lparr>iw_count = n, iw_windowStart = start\<rparr>] \<and> start \<le> ig_lastSweep g"

lemma counting_Allow:
  assumes "counting B host start n g" "ipHostOf addr = host" "start \<le> now" "now \<le> start + 10 * Second"
  shows "fst (fst (SimpleIPGuard_Allow C addr now g)) \<longleftrightarrow> n < 5"
    and "n \<ge> 5 \<Longrightarrow> snd (fst (SimpleIPGuard_Allow C addr now g)) =
      C ''<red>You are connecting too frequently, please wait a moment</red>''"
    and "counting B host start (n + 1) (snd (SimpleIPGuard_Allow C addr now g))"
proof -
  have "\<not> time_Sub now start > 10 * Second" using assms(4) by (simp add: time_Sub_def max_duration_def Second_def)
  moreover have "\<not> time_Sub now (ig_lastSweep g) > 10 * Second"
    using assms(1,4) by (auto simp: counting_def time_Sub_def max_duration_def Second_def)
  ultimately show "fst (fst (SimpleIPGuard_Allow C addr now g)) \<longleftrightarrow> n < 5"
    and "n \<ge> 5 \<Longrightarrow> snd (fst (SimpleIPGuard_Allow C addr now g)) =
      C ''<red>You are connecting too frequently, please wait a moment</red>''"
    and "counting B host start (n + 1) (snd (SimpleIPGuard_Allow C addr now g))"
    using assms(1,2)
    by (auto simp: SimpleIPGuard_Allow_def counting_def hit_def window_over_def Let_def)
qed

lemma allow_loop_counting:
  assumes "counting B host start (int n) g" "ipHostOf addr = host" "\<forall>t \<in> set ts. start \<le> t \<and> t \<le> start + 10 * Second"
  shows "\<exists>g'. allow_loop C addr ts (min 5 n) msg g =
      (min 5 (n + length ts),
       if ts = [] then msg else if n + length ts \<le> 5 then ''''
       else C ''<red>You are connecting too frequently, please wait a moment</red>'', g') \<and>
    counting B host start (int (n + length ts)) g'"
  using assms
proof (induction ts arbitrary: n msg g)
  case (Cons t ts)
  have t: "start \<le> t" "t \<le> start + 10 * Second" using Cons.prems(3) by auto
  obtain ok m g1 where r: "SimpleIPGuard_Allow C addr t g = ((ok, m), g1)" by (metis surj_pair)
  note step = counting_Allow [OF Cons.prems(1,2) t, where C = C, unfolded r, simplified]
  have m: "m = (if n < 5 then '''' else C ''<red>You are connecting too frequently, please wait a moment</red>'')"
  proof (cases "n < 5")
    case True
    with step(1) r show ?thesis by (auto simp: SimpleIPGuard_Allow_def Let_def split: if_splits)
  qed (use step(2) in simp)
  have "counting B host start (int (Suc n)) g1" using step(3) by (simp add: add.commute)
  from Cons.IH [OF this Cons.prems(2), of m] Cons.prems(3) obtain g' where
    "allow_loop C addr ts (min 5 (Suc n)) m g1 = (min 5 (Suc n + length ts),
       if ts = [] then m else if Suc n + length ts \<le> 5 then ''''
       else C ''<red>You are connecting too frequently, please wait a moment</red>'', g')"
    "counting B host start (int (Suc n + length ts)) g'" by auto
  moreover have "(if ok then min 5 n + 1 else min 5 n) = min 5 (Suc n)" using step(1) by auto
  ultimately show ?case using r m by (auto intro!: exI [of _ g'])
qed simp

lemma hosts_in_test:
  "ipHostOf (OtherAddr ''203.0.113.9:5000'') = ''203.0.113.9''" "ipHostOf (OtherAddr ''127.0.0.1:6000'') = ''127.0.0.1''"
  "ipHostOf (OtherAddr ''10.0.0.7:7000'') = ''10.0.0.7''"
  by code_simp+

lemma first_hit:
  assumes "zero_time + 10 * Second < now" "ipHostOf addr = host" "host \<noteq> b"
  shows "\<exists>g. SimpleIPGuard_Allow C addr now (NewSimpleIPGuard [b] True (10 * Second) 5) = ((True, ''''), g) \<and>
    counting {b} host now 1 g"
proof -
  have "time_Sub now zero_time > 10 * Second" using assms(1) by (auto simp: time_Sub_def max_duration_def Second_def)
  then show ?thesis using assms(2,3)
    by (auto simp: SimpleIPGuard_Allow_def NewSimpleIPGuard_def counting_def hit_def sweep_hits_def Let_def)
qed

lemma other_host_allowed:
  assumes "counting B host start n g" "ipHostOf addr \<noteq> host" "ipHostOf addr \<notin> B"
  shows "fst (fst (SimpleIPGuard_Allow C addr now g))"
  using assms by (auto simp: SimpleIPGuard_Allow_def counting_def hit_def sweep_hits_def Let_def)

lemma testIPGuard_ok:
  assumes "colours_keep_text C" "length ts = 6" "zero_time + 10 * Second < hd ts"
    and "\<forall>t \<in> set (tl ts). hd ts \<le> t \<and> t \<le> hd ts + 10 * Second"
  shows "adds PASS 3 (testIPGuard C t0 ts t1)"
proof -
  let ?g = "NewSimpleIPGuard [''203.0.113.9''] True (10 * Second) 5"
  from assms(2) obtain t us where ts: "ts = t # us" "length us = 5" by (cases ts) auto
  have banned: "SimpleIPGuard_Allow C (OtherAddr ''203.0.113.9:5000'') t0 ?g =
      ((False, C ''<red>You are banned from this server</red>''), ?g)"
    by (simp add: SimpleIPGuard_Allow_def hosts_in_test NewSimpleIPGuard_def del: ipHostOf.simps)
  have msg1: "Contains (C ''<red>You are banned from this server</red>'') ''banned''"
    using Contains_Colourf [OF assms(1), of "''You are banned from this server''" "''banned''"] by simp
  have msg2: "Contains (C ''<red>You are connecting too frequently, please wait a moment</red>'') ''too frequently''"
    using Contains_Colourf [OF assms(1), of "''You are connecting too frequently, please wait a moment''" "''too frequently''"]
    by simp
  from first_hit [of t, OF _ hosts_in_test(2), where b = "''203.0.113.9''" and C = C] assms(3) ts obtain g1 where
    g1: "SimpleIPGuard_Allow C (OtherAddr ''127.0.0.1:6000'') t ?g = ((True, ''''), g1)"
      "counting {''203.0.113.9''} ''127.0.0.1'' t (int 1) g1" by auto
  have us: "us \<noteq> []" "\<not> 1 + length us \<le> 5" "min 5 (1 + length us) = 5" "min 5 1 = (1 :: nat)" using ts(2) by auto
  have "\<forall>u \<in> set us. t \<le> u \<and> u \<le> t + 10 * Second" using assms(4) ts(1) by simp
  from allow_loop_counting [OF g1(2) hosts_in_test(2) this, of C "''''", unfolded us(3,4) if_not_P [OF us(1)] if_not_P [OF us(2)]]
  obtain g2 where g2: "allow_loop C (OtherAddr ''127.0.0.1:6000'') us 1 '''' g1 =
      (5, C ''<red>You are connecting too frequently, please wait a moment</red>'', g2)"
      "counting {''203.0.113.9''} ''127.0.0.1'' t (int (1 + length us)) g2" by blast
  have loop: "allow_loop C (OtherAddr ''127.0.0.1:6000'') ts 0 '''' ?g =
      (5, C ''<red>You are connecting too frequently, please wait a moment</red>'', g2)"
    using g1(1) g2(1) by (simp add: ts(1))
  have "fst (fst (SimpleIPGuard_Allow C (OtherAddr ''10.0.0.7:7000'') t1 g2))"
    using g2(2) by (rule other_host_allowed) (simp_all only: hosts_in_test, simp_all)
  then obtain m g3 where last: "SimpleIPGuard_Allow C (OtherAddr ''10.0.0.7:7000'') t1 g2 = ((True, m), g3)"
    by (metis prod.collapse)
  have "testIPGuard C t0 ts t1 = (\<lambda>rs. harness_check ''9-ipguard'' ''per-IP isolation'' True
      (harness_check ''9-ipguard'' ''rate limit triggers'' True (harness_check ''9-ipguard'' ''banned IP rejected'' True rs)))"
    using msg1 msg2 by (simp add: testIPGuard_def banned loop last fun_eq_iff)
  then show ?thesis by (simp only:) (intro adds_intros TrueI; simp)
qed

section \<open>Weighted load balancing\<close>

text \<open>\<open>ord k\<close> are the orders of the ranges in the \<open>k\<close>th loop. The second component is a panic: the later loops call a
  method of the server that was found.\<close>

definition testWeightedLoadBalancing ::
  "(nat \<Rightarrow> nat \<Rightarrow> nat \<Rightarrow> string list) \<Rightarrow> srv_heap \<Rightarrow> results \<Rightarrow> results \<times> go_error option" where
  "testWeightedLoadBalancing ord h rs =
     (let (w1, h) = alloc_server (server_New ''w1'' ''127.0.0.1:1'' TransportRakNet ''lobby'' 1 False) h;
          reg = AddServer h w1 NewDefaultRegistry;
          (w3, h) = alloc_server (server_New ''w3'' ''127.0.0.1:2'' TransportRakNet ''lobby'' 3 False) h;
          reg = AddServer h w3 reg;
          lb = GroupedLoadBalancer_FindServer (NewGroupedLoadBalancer_groups ''lobby'' [])
      in case place_all lb reg (ord 0) 1000 h of
           None \<Rightarrow> (harness_rec ''8-loadbalance'' ''1000 placements'' FAIL rs, None)
         | Some h \<Rightarrow>
             let c1 = PlayerCount h w1; c3 = PlayerCount h w3;
                 rs = harness_check ''8-loadbalance'' ''1000 placements weighted''
                        (c1 + c3 = 1000 \<and> c3 \<ge> 680 \<and> c3 \<le> 820 \<and> c1 \<ge> 180 \<and> c1 \<le> 320) rs;
                 h = SetDraining w3 True h; before1 = PlayerCount h w1
             in case place_all lb reg (ord 1) 100 h of
                  None \<Rightarrow> (rs, Some ''nil server'')
                | Some h \<Rightarrow>
                    let rs = harness_check ''8-loadbalance'' ''draining excluded''
                               (PlayerCount h w1 = before1 + 100 \<and> PlayerCount h w3 = c3) rs;
                        h = SetDraining w3 False h; h = SetHealthy w3 False h; before1 = PlayerCount h w1
                    in case place_all lb reg (ord 2) 50 h of
                         None \<Rightarrow> (rs, Some ''nil server'')
                       | Some h \<Rightarrow>
                           let rs = harness_check ''8-loadbalance'' ''unhealthy excluded''
                                      (PlayerCount h w1 = before1 + 50) rs
                           in (harness_check ''8-loadbalance'' ''no server -> nil''
                                (lb h NewDefaultRegistry (ord 3 0) = None) rs, None))"

text \<open>The two servers of the test.\<close>

definition two_servers :: "srv_ref \<Rightarrow> srv_ref \<Rightarrow> registry" where
  "two_servers w1 w3 = \<lparr>servers = [''w1'' \<mapsto> w1, ''w3'' \<mapsto> w3]\<rparr>"

lemma ran_two_servers: "ran (servers (two_servers w1 w3)) = {w1, w3}" "finite (ran (servers (two_servers w1 w3)))"
  by (simp_all add: two_servers_def ran_map_upd insert_commute)

lemma range_order_two_servers: "range_order (servers (two_servers w1 w3)) ks \<longleftrightarrow> distinct ks \<and> set ks = {''w1'', ''w3''}"
  by (simp add: range_order_def two_servers_def) (auto simp: insert_commute)

text \<open>A server of the lobby with its weight and its count, available or not.\<close>

definition lobby_server :: "srv_heap \<Rightarrow> srv_ref \<Rightarrow> int \<Rightarrow> int \<Rightarrow> bool \<Rightarrow> bool" where
  "lobby_server h r w n up \<longleftrightarrow>
     sv_group (srv_at h r) = ''lobby'' \<and> weight_of h r = w \<and> PlayerCount h r = n \<and> available h r = up"

lemma lobby_server_ops:
  assumes "place_all f reg order n h = Some h'" "lobby_server h r w m up"
  shows "lobby_server h' r w (PlayerCount h' r) up"
  using place_all_same [OF assms(1), of r] assms(2)
  by (auto simp: lobby_server_def Weight_def available_def Draining_def Healthy_def PlayerCount_def)

text \<open>With one of the two available, everybody goes there.\<close>

lemma place_on_one:
  assumes "\<And>k i. range_order (servers (two_servers w1 w3)) (order k i)" "w1 \<noteq> w3"
    and "lobby_server h w1 1 c1 True" "lobby_server h w3 3 c3 False" "0 \<le> c1" "c1 + int n \<le> 2 ^ 52"
  shows "\<exists>h'. place_all (GroupedLoadBalancer_FindServer [''lobby'']) (two_servers w1 w3) order n h = Some h' \<and>
    PlayerCount h' w1 = c1 + int n \<and> PlayerCount h' w3 = c3"
proof -
  let ?A = "{s \<in> ran (servers (two_servers w1 w3)). available h s \<and> sv_group (srv_at h s) \<in> set [''lobby'']}"
  have A: "?A = {w1}" using assms(2-4) by (auto simp: ran_two_servers lobby_server_def)
  have "balanced h ?A" "roomy (int n) h ?A" "?A \<noteq> {}" "finite ?A"
    unfolding A using assms(3,5,6) by (simp_all add: balanced_def roomy_def lobby_server_def)
  from group_greedy.place_all_balanced [where order = order, OF _ this] assms(1) obtain h' where
    h': "place_all (GroupedLoadBalancer_FindServer [''lobby'']) (two_servers w1 w3) order n h = Some h'"
      "total_players h' ?A = total_players h ?A + int n" "\<forall>t. t \<notin> ?A \<longrightarrow> PlayerCount h' t = PlayerCount h t" by blast
  from h'(2,3) assms(2-4) show ?thesis unfolding A
    by (intro exI [of _ h']) (auto simp: total_players_def lobby_server_def h'(1))
qed

lemma place_on_both:
  assumes "\<And>k i. range_order (servers (two_servers w1 w3)) (order k i)" "w1 \<noteq> w3"
    and "lobby_server h w1 1 0 True" "lobby_server h w3 3 0 True"
  shows "\<exists>h'. place_all (GroupedLoadBalancer_FindServer [''lobby'']) (two_servers w1 w3) order 1000 h = Some h' \<and>
    PlayerCount h' w1 = 250 \<and> PlayerCount h' w3 = 750"
proof -
  let ?A = "{s \<in> ran (servers (two_servers w1 w3)). available h s \<and> sv_group (srv_at h s) \<in> set [''lobby'']}"
  have A: "?A = {w1, w3}" using assms(2-4) by (auto simp: ran_two_servers lobby_server_def)
  have W: "weight_of h w1 = 1" "weight_of h w3 = 3" "total_weight h ?A = 4" "int (card ?A) = 2"
    unfolding A using assms(2-4) by (simp_all add: total_weight_def lobby_server_def)
  have "PlayerCount h s = 0" if "s \<in> ?A" for s using that assms(3,4) unfolding A by (auto simp: lobby_server_def)
  moreover have "roomy (int 1000) h ?A" unfolding A using assms(3,4) by (auto simp: roomy_def lobby_server_def)
  ultimately have share: "a \<in> ?A \<Longrightarrow> \<exists>h'. place_all (GroupedLoadBalancer_FindServer [''lobby'']) (two_servers w1 w3) order 1000 h = Some h' \<and>
    (PlayerCount h' a - 1) * total_weight h ?A \<le> int 1000 * weight_of h a \<and>
    (int 1000 - (int (card ?A) - 1)) * weight_of h a \<le> PlayerCount h' a * total_weight h ?A \<and>
    total_players h' ?A = int 1000 \<and> (\<forall>t. t \<notin> ?A \<longrightarrow> PlayerCount h' t = PlayerCount h t)" for a
    using group_greedy.shares [where order = order and n = 1000 and g = "''lobby''" and reg = "two_servers w1 w3" and h = h and a = a] assms(1) ran_two_servers(2)
    by blast
  from share [of w1] share [of w3] obtain h' where
    h': "place_all (GroupedLoadBalancer_FindServer [''lobby'']) (two_servers w1 w3) order 1000 h = Some h'"
    and b: "(PlayerCount h' w1 - 1) * 4 \<le> 1000" "(PlayerCount h' w3 - 1) * 4 \<le> 3000"
      "999 \<le> PlayerCount h' w1 * 4" "2997 \<le> PlayerCount h' w3 * 4" "total_players h' ?A = 1000"
    unfolding W unfolding A by auto
  have "PlayerCount h' w1 + PlayerCount h' w3 = 1000" using b(5) assms(2) unfolding A by (simp add: total_players_def)
  with b(1-4) have "PlayerCount h' w1 = 250 \<and> PlayerCount h' w3 = 750" by linarith
  with h' show ?thesis by blast
qed

text \<open>The test passes for all orders of the ranges.\<close>

lemma testWeightedLoadBalancing_ok:
  assumes "\<And>k n i w1 w3. range_order (servers (two_servers w1 w3)) (ord k n i)"
  shows "adds PASS 4 (\<lambda>rs. fst (testWeightedLoadBalancing ord h rs)) \<and> snd (testWeightedLoadBalancing ord h rs) = None"
proof -
  let ?w1 = "srv_next h" and ?w3 = "Suc (srv_next h)"
  let ?lb = "GroupedLoadBalancer_FindServer [''lobby'']" and ?reg = "two_servers (srv_next h) (Suc (srv_next h))"
  obtain h0 where s1: "alloc_server (server_New ''w1'' ''127.0.0.1:1'' TransportRakNet ''lobby'' 1 False) h = (?w1, h0)"
    by (simp add: alloc_server_def)
  obtain h1 where s2: "alloc_server (server_New ''w3'' ''127.0.0.1:2'' TransportRakNet ''lobby'' 3 False) h0 = (?w3, h1)"
    using s1 by (auto simp: alloc_server_def)
  have "ToLower ''w1'' = ''w1''" "ToLower ''w3'' = ''w3''" by code_simp+
  then have reg: "AddServer h1 ?w3 (AddServer h0 ?w1 NewDefaultRegistry) = ?reg"
    using s1 s2 by (auto simp: AddServer_def alloc_server_def NewDefaultRegistry_def two_servers_def server_New_def)
  have st: "lobby_server h1 ?w1 1 0 True" "lobby_server h1 ?w3 3 0 True"
    using s1 s2 by (auto simp: lobby_server_def alloc_server_def server_New_def Weight_def PlayerCount_def available_def
        Draining_def Healthy_def)
  from place_on_both [where order = "ord 0", OF assms _ st] obtain h2 where
    h2: "place_all ?lb ?reg (ord 0) 1000 h1 = Some h2" "PlayerCount h2 ?w1 = 250" "PlayerCount h2 ?w3 = 750" by auto
  note st2 = lobby_server_ops [OF h2(1) st(1)] lobby_server_ops [OF h2(1) st(2)]
  let ?h2 = "SetDraining ?w3 True h2"
  have "lobby_server ?h2 ?w1 1 250 True" "lobby_server ?h2 ?w3 3 750 False"
    using st2 h2 by (auto simp: lobby_server_def Weight_def available_def SetDraining_def Draining_def Healthy_def PlayerCount_def)
  note st2' = this
  from place_on_one [where order = "ord 1" and n = 100, OF assms _ st2'] obtain h3 where
    h3: "place_all ?lb ?reg (ord 1) 100 ?h2 = Some h3" "PlayerCount h3 ?w1 = 350" "PlayerCount h3 ?w3 = 750" by auto
  note st3 = lobby_server_ops [OF h3(1) st2'(1)] lobby_server_ops [OF h3(1) st2'(2)]
  let ?h3 = "SetHealthy ?w3 False (SetDraining ?w3 False h3)"
  have "lobby_server ?h3 ?w1 1 350 True" "lobby_server ?h3 ?w3 3 750 False"
    using st3 h3 by (auto simp: lobby_server_def Weight_def available_def SetDraining_def SetHealthy_def Draining_def Healthy_def
        PlayerCount_def)
  from place_on_one [where order = "ord 2" and n = 50, OF assms _ this] obtain h4 where
    h4: "place_all ?lb ?reg (ord 2) 50 ?h3 = Some h4" "PlayerCount h4 ?w1 = 400" by auto
  have none: "?lb h4 NewDefaultRegistry (ord 3 0) = None"
    by (simp add: Grouped_single leastLoaded_None_iff ServersInGroup_def NewDefaultRegistry_def range_vals_def List.map_filter_def)
  have "testWeightedLoadBalancing ord h = (\<lambda>rs. (harness_check ''8-loadbalance'' ''no server -> nil'' True
      (harness_check ''8-loadbalance'' ''unhealthy excluded'' True (harness_check ''8-loadbalance'' ''draining excluded'' True
        (harness_check ''8-loadbalance'' ''1000 placements weighted'' True rs))), None))"
    unfolding testWeightedLoadBalancing_def s1 s2 Let_def prod.case reg NewGroupedLoadBalancer_groups_def append_Nil2
      h2(1) option.case h3(1) h4(1) none using h2 h3 h4 by simp
  then show ?thesis by (simp only: fst_conv snd_conv simp_thms) (intro adds_intros TrueI; simp)
qed

end
