(* ===== verification/HarnessHealth.thy ===== *)
theory HarnessHealth
  imports Harness
begin

text \<open>
  The test of the health checks in the integration test (\<^verbatim>\<open>testHealthCheck\<close> of \<^verbatim>\<open>tools/harness/main.go\<close>): a backend that
  answers pings, is stopped and is started again, watched by the loop of \<^verbatim>\<open>HealthChecker\<close>. What the RakNet library's ping
  gives in each round is an argument, as are the rounds that fall between two polls of the test.
\<close>

section \<open>The test\<close>

type_synonym watched = "hc_state \<times> string list"

text \<open>The rounds of the checker: each visits the registered servers in some order and pings them.\<close>

type_synonym pings = "(string \<Rightarrow> go_error option) list"

definition ticks :: "registry \<Rightarrow> string list \<Rightarrow> srv_heap \<Rightarrow> (string \<Rightarrow> go_error + int) \<Rightarrow> pings \<Rightarrow> hc_signal list" where
  "ticks reg keys h http_get ps =
     map (\<lambda>raknet_ping. let current = Servers reg keys
                        in Ticked current (map (\<lambda>r. (r, ping raknet_ping http_get (srv_at h r))) current)) ps"

definition watch :: "hc_signal list \<Rightarrow> watched \<Rightarrow> watched" where
  "watch sigs st = snd (HealthChecker_Start sigs st)"

text \<open>The attempts to listen again, with what happens in the sleep after a failed one; the error of the last attempt.\<close>

fun relisten :: "(go_error option \<times> (watched \<Rightarrow> watched)) list \<Rightarrow> go_error option \<Rightarrow> watched \<Rightarrow> go_error option \<times> watched" where
  "relisten [] err st = (err, st)"
| "relisten ((None, sleep) # attempts) err st = (None, st)"
| "relisten ((Some e, sleep) # attempts) err st = relisten attempts (Some e) (sleep st)"

record health_env =
  he_listen :: "go_error option"
  he_keys :: "string list"
  he_http :: "string \<Rightarrow> go_error + int"
  he_up :: pings
  he_down :: "pings list"
  he_relisten :: "(go_error option \<times> pings) list"
  he_back :: "pings list"

definition backend_addr :: string where
  "backend_addr = ''127.0.0.1:19271''"

definition testHealthCheck :: "health_env \<Rightarrow> srv_heap \<Rightarrow> results \<Rightarrow> results" where
  "testHealthCheck env h rs =
     (if he_listen env \<noteq> None then harness_rec ''7-health'' ''start fake backend'' FAIL rs
      else
        let (srv, h) = alloc_server (server_New ''backend'' backend_addr TransportRakNet '''' 1 False) h;
            reg = AddServer h srv NewDefaultRegistry;
            tick = (\<lambda>ps. watch (ticks reg (he_keys env) h (he_http env) ps));
            healthy = (\<lambda>st :: watched. Healthy (fst (snd (fst st))) srv);
            st = tick (he_up env) ((NewHealthChecker 3 False, h, []), []);
            rs = harness_check ''7-health'' ''healthy while up'' (healthy st) rs;
            (wentDown, st) = waitFor (\<lambda>st. \<not> healthy st) (map tick (he_down env)) st;
            rs = harness_check ''7-health'' ''unhealthy when down'' wentDown rs;
            rs = harness_check ''7-health'' ''unhealthy logged'' (list_ex (\<lambda>l. Contains l ''marking unhealthy'') (snd st)) rs;
            (err, st) = relisten (map (\<lambda>(e, ps). (e, tick ps)) (take 5 (he_relisten env))) None st
        in if err \<noteq> None then harness_rec ''7-health'' ''restart backend'' FAIL rs
           else
             let (recovered, st) = waitFor healthy (map tick (he_back env)) st;
                 rs = harness_check ''7-health'' ''recovers when back'' recovered rs
             in harness_check ''7-health'' ''recovery logged'' (list_ex (\<lambda>l. Contains l ''responding again'') (snd st)) rs)"

section \<open>What the checker logs\<close>

text \<open>A change of a server's health is logged.\<close>

definition logs_changes :: "srv_ref \<Rightarrow> srv_heap \<Rightarrow> srv_heap \<Rightarrow> string list \<Rightarrow> bool" where
  "logs_changes r h h' ls \<longleftrightarrow>
     (Healthy h r \<and> \<not> Healthy h' r \<longrightarrow> (\<exists>l \<in> set ls. Contains l ''marking unhealthy'')) \<and>
     (\<not> Healthy h r \<and> Healthy h' r \<longrightarrow> (\<exists>l \<in> set ls. Contains l ''responding again''))"

lemma logs_changes_trans: "logs_changes r h h1 ls \<Longrightarrow> logs_changes r h1 h2 ls' \<Longrightarrow> logs_changes r h h2 (ls @ ls')"
  by (auto simp: logs_changes_def)

lemma log_texts:
  "Contains (''server '' @ n @ '' failed '' @ k @ '' consecutive health checks, marking unhealthy: '' @ e) ''marking unhealthy''"
  "Contains (''server '' @ n @ '' is responding again, marking healthy'') ''responding again''"
  using Contains_parts [of "''server '' @ n @ '' failed '' @ k @ '' consecutive health checks, ''" "''marking unhealthy''" "'': '' @ e"]
    Contains_parts [of "''server '' @ n @ '' is ''" "''responding again''" "'', marking healthy''"]
  by (simp_all del: Contains.simps)

lemma check_logs: "logs_changes r (fst (snd st)) (fst (snd (check s e st))) (check_log s e st)"
proof -
  obtain hc h pub where st: "st = (hc, h, pub)" by (metis prod_cases3)
  have other: "s \<noteq> r \<Longrightarrow> Healthy (fst (snd (check s e st))) r = Healthy h r"
    by (auto simp: st check_def Let_def Healthy_def SetHealthy_def split: option.split)
  show ?thesis
  proof (cases "s = r")
    case False
    with other show ?thesis by (simp add: logs_changes_def st)
  next
    case True
    with log_texts(1) [of "Quote (Name h r)" "show_int (failures_of hc (Name h r) + 1)" "the e"] log_texts(2) [of "Quote (Name h r)"]
    show ?thesis
      by (cases e) (simp_all add: logs_changes_def st check_log_def check_def Let_def failures_of_set
          split: if_splits del: Contains.simps)
  qed
qed

lemma run_logs_changes: "logs_changes r (fst (snd st)) (fst (snd (run_checks sched st))) (run_logs sched st)"
proof (induction sched arbitrary: st)
  case (Cons p sched)
  obtain s e where p: "p = (s, e)" by fastforce
  show ?case using logs_changes_trans [OF check_logs Cons.IH [of "check s e st"]] by (simp add: p)
qed (simp add: logs_changes_def)

lemma watch_logs:
  "\<exists>ls. snd (watch sigs (st, logged)) = logged @ ls \<and> logs_changes r (fst (snd st)) (fst (snd (fst (watch sigs (st, logged))))) ls"
proof (induction sigs "(st, logged)" arbitrary: st logged rule: HealthChecker_Start.induct)
  case (3 current sched sigs st logged)
  have "logs_changes r (fst (snd st)) (fst (snd (checkAll current sched st))) (run_logs sched st)"
    using run_logs_changes [of r st sched] by (auto simp: checkAll_def split: prod.split)
  with 3 show ?case by (auto simp: watch_def intro: logs_changes_trans)
qed (simp_all add: watch_def logs_changes_def)

lemma ticks_append: "ticks reg keys h hg (ps @ qs) = ticks reg keys h hg ps @ ticks reg keys h hg qs"
  by (simp add: ticks_def)

lemma watch_append: "Cancelled \<notin> set sigs \<Longrightarrow> watch (sigs @ sigs2) st = watch sigs2 (watch sigs st)"
  unfolding watch_def by (induction sigs st rule: HealthChecker_Start.induct) auto

lemma watch_ticks_append: "watch (ticks reg keys h hg (ps @ qs)) st = watch (ticks reg keys h hg qs) (watch (ticks reg keys h hg ps) st)"
  by (simp add: ticks_append watch_append) (simp add: ticks_def watch_append Let_def image_iff)

lemma sleeps_are_ticks:
  "foldl (\<lambda>s f. f s) st (map (\<lambda>ps. watch (ticks reg keys h hg ps)) pss) = watch (ticks reg keys h hg (concat pss)) st"
proof (induction pss arbitrary: st)
  case Nil
  then show ?case by (simp add: ticks_def watch_def)
next
  case (Cons ps pss)
  then show ?case by (simp add: watch_ticks_append)
qed

lemma relisten_ticks:
  "\<exists>qs. snd (relisten (map (\<lambda>(e, ps). (e, watch (ticks reg keys h hg ps))) xs) err st) = watch (ticks reg keys h hg qs) st"
proof (induction xs arbitrary: err st)
  case Nil
  have "watch (ticks reg keys h hg []) st = st" by (simp add: ticks_def watch_def)
  then show ?case by (metis relisten.simps(1) list.map(1) snd_conv)
next
  case (Cons a xs)
  obtain e ps where a: "a = (e, ps)" by fastforce
  show ?case
  proof (cases e)
    case None
    have "watch (ticks reg keys h hg []) st = st" by (simp add: ticks_def watch_def)
    then show ?thesis using None by (auto simp: a intro!: exI [of _ "[]"])
  next
    case (Some x)
    from Cons.IH [of "Some x" "watch (ticks reg keys h hg ps) st"] show ?thesis
      by (auto simp: a Some watch_ticks_append [symmetric])
  qed
qed

lemma relisten_succeeds: "None \<in> fst ` set xs \<Longrightarrow> fst (relisten xs err st) = None"
  by (induction xs err st rule: relisten.induct) auto

section \<open>The test passes\<close>

text \<open>What the test relies on: the backend answers every ping before it is stopped; three pings in a row fail before the
  first deadline; one of the attempts to listen succeeds; and a ping is answered before the second deadline, the last one in
  any case.\<close>

definition answered :: "pings \<Rightarrow> go_error option list" where
  "answered ps = map (\<lambda>raknet_ping. raknet_ping backend_addr) ps"

definition backend_restarts :: "health_env \<Rightarrow> bool" where
  "backend_restarts env \<longleftrightarrow>
     he_listen env = None \<and> he_keys env = [''backend''] \<and> set (answered (he_up env)) \<subseteq> {None} \<and>
     3 \<le> trailing (answered (concat (he_down env))) \<and> None \<in> fst ` set (take 5 (he_relisten env)) \<and>
     concat (he_back env) \<noteq> [] \<and> last (answered (concat (he_back env))) = None"

lemma trailing_append_le: "trailing ys \<le> trailing (xs @ ys)"
  by (induction ys rule: rev_induct) (simp_all flip: append_assoc)

lemma trailing_answered: "set rs \<subseteq> {None} \<Longrightarrow> trailing rs = 0"
  by (cases rs rule: rev_cases) simp_all

lemma backend_lower: "ToLower ''backend'' = ''backend''"
  by code_simp

text \<open>After rounds of pings the backend is healthy exactly when fewer than three have failed since the last answer.\<close>

lemma watched_health:
  assumes "alloc_server (server_New ''backend'' backend_addr TransportRakNet '''' 1 False) h = (srv, h')"
    and "reg = AddServer h' srv NewDefaultRegistry"
  shows "Healthy (fst (snd (fst (watch (ticks reg [''backend''] h' hg ps) ((NewHealthChecker 3 False, h', []), []))))) srv \<longleftrightarrow>
    trailing (answered ps) < 3"
proof -
  have at: "srv_at h' srv = server_New ''backend'' backend_addr TransportRakNet '''' 1 False"
    using assms(1) by (auto simp: alloc_server_def)
  have n: "Name h' srv = ''backend''" by (simp add: at server_New_def)
  have cur: "Servers reg [''backend''] = [srv]"
    by (simp add: assms(2) AddServer_def Servers_def NewDefaultRegistry_def n backend_lower range_vals_def List.map_filter_def)
  have p: "ping rp hg (srv_at h' srv) = rp backend_addr" for rp
    by (simp add: at ping_def server_New_def TransportRakNet_def TransportNetherNet_def)
  have t: "ticks reg [''backend''] h' hg ps = map (\<lambda>rp. Ticked [srv] [(srv, rp backend_addr)]) ps"
    by (simp add: ticks_def cur p Let_def)
  have rounds: "rounds_of (ticks reg [''backend''] h' hg ps) = map (\<lambda>rp. ([srv], [(srv, rp backend_addr)])) ps"
    unfolding t by (induction ps) simp_all
  have res: "ping_results srv (ticks reg [''backend''] h' hg ps) = answered ps"
    unfolding ping_results_def rounds answered_def by (induction ps) (simp_all add: results_of_def)
  have st: "stays_registered h' srv (ticks reg [''backend''] h' hg ps)"
    unfolding stays_registered_def rounds by auto
  have "tracks h' srv 3 [] (NewHealthChecker 3 False, h', [])"
    by (simp add: tracks_def NewHealthChecker_def failures_of_def Healthy_def at server_New_def)
  from tracks_Start [OF this _ st, of "[]"] show ?thesis
    by (auto simp: res tracks_def watch_def split: prod.splits)
qed

lemma testHealthCheck_ok:
  assumes "backend_restarts env"
  shows "adds PASS 5 (testHealthCheck env h)"
proof -
  obtain srv h' where al: "alloc_server (server_New ''backend'' backend_addr TransportRakNet '''' 1 False) h = (srv, h')" by fastforce
  define reg where "reg = AddServer h' srv NewDefaultRegistry"
  define tick where "tick = (\<lambda>ps. watch (ticks reg [''backend''] h' (he_http env) ps))"
  define start where "start = ((NewHealthChecker 3 False, h', [] :: published), [] :: string list)"
  define healthy where "healthy = (\<lambda>st :: watched. Healthy (fst (snd (fst st))) srv)"
  note env = assms [unfolded backend_restarts_def]
  have H: "healthy (tick ps start) \<longleftrightarrow> trailing (answered ps) < 3" for ps
    unfolding healthy_def tick_def start_def by (rule watched_health [OF al reg_def])
  have app: "tick qs (tick ps st) = tick (ps @ qs) st" for ps qs st by (simp add: tick_def watch_ticks_append)
  have T: "foldl (\<lambda>s f. f s) st (map tick pss) = tick (concat pss) st" for st pss
    unfolding tick_def by (rule sleeps_are_ticks)
  have L: "\<exists>ls. snd (tick ps st) = snd st @ ls \<and> logs_changes srv (fst (snd (fst st))) (fst (snd (fst (tick ps st)))) ls" for ps st
    unfolding tick_def using watch_logs [of _ "fst st" "snd st"] by simp
  let ?st1 = "tick (he_up env) start"
  have up: "healthy ?st1" unfolding H using env trailing_answered by simp
  obtain ok st2 where w: "waitFor (\<lambda>st. \<not> healthy st) (map tick (he_down env)) ?st1 = (ok, st2)" by (metis surj_pair)
  have "\<not> healthy (foldl (\<lambda>s f. f s) ?st1 (map tick (he_down env)))"
    unfolding T app H using env trailing_append_le [of "answered (concat (he_down env))" "answered (he_up env)"]
    by (simp add: answered_def)
  from waitFor_in_time [OF w this] obtain n where st2: "ok" "\<not> healthy st2" "st2 = tick (concat (take n (he_down env))) ?st1"
    by (auto simp: take_map T)
  have "\<exists>l \<in> set (snd st2). Contains l ''marking unhealthy''"
    using L [of "concat (take n (he_down env))" ?st1] up st2(2) unfolding st2(3) healthy_def logs_changes_def by auto
  then have l2: "list_ex (\<lambda>l. Contains l ''marking unhealthy'') (snd st2)" by (simp add: list_ex_iff)
  obtain err st3 where re: "relisten (map (\<lambda>(e, ps). (e, tick ps)) (take 5 (he_relisten env))) None st2 = (err, st3)" by (metis surj_pair)
  have err: "err = None"
    using relisten_succeeds [of "map (\<lambda>(e, ps). (e, tick ps)) (take 5 (he_relisten env))" None st2] env re
    by (force simp: image_iff)
  from relisten_ticks [of reg "[''backend'']" h' "he_http env" "take 5 (he_relisten env)" None st2] re obtain qs where
    st3: "st3 = tick qs st2" by (auto simp: tick_def)
  obtain ok2 st4 where w2: "waitFor healthy (map tick (he_back env)) st3 = (ok2, st4)" by (metis surj_pair)
  have "answered (concat (he_back env)) = butlast (answered (concat (he_back env))) @ [None]"
    using env by (metis answered_def append_butlast_last_id map_is_Nil_conv)
  then have "trailing (xs @ answered (concat (he_back env))) = 0" for xs
    by (metis append.assoc trailing_snoc)
  then have "healthy (foldl (\<lambda>s f. f s) st3 (map tick (he_back env)))"
    unfolding T st3 st2(3) app H by (simp add: answered_def flip: append_assoc)
  from waitFor_in_time [OF w2 this] obtain m where st4: "ok2" "healthy st4" "st4 = tick (qs @ concat (take m (he_back env))) st2"
    by (auto simp: take_map T st3 app)
  have "\<exists>l \<in> set (snd st4). Contains l ''responding again''"
    using L [of "qs @ concat (take m (he_back env))" st2] st2(2) st4(2) unfolding st4(3) healthy_def logs_changes_def by auto
  then have l4: "list_ex (\<lambda>l. Contains l ''responding again'') (snd st4)" by (simp add: list_ex_iff)

  have listen: "he_listen env = None" "he_keys env = [''backend'']" using env by simp_all
  have "testHealthCheck env h rs = harness_check ''7-health'' ''recovery logged'' True
      (harness_check ''7-health'' ''recovers when back'' True (harness_check ''7-health'' ''unhealthy logged'' True
      (harness_check ''7-health'' ''unhealthy when down'' True (harness_check ''7-health'' ''healthy while up'' True rs))))" for rs
    using up st2(1) st4(1) l2 l4 w re w2 err unfolding tick_def healthy_def start_def reg_def
    by (simp add: testHealthCheck_def listen al Let_def del: Contains.simps)
  then have "testHealthCheck env h = (\<lambda>rs. harness_check ''7-health'' ''recovery logged'' True
      (harness_check ''7-health'' ''recovers when back'' True (harness_check ''7-health'' ''unhealthy logged'' True
      (harness_check ''7-health'' ''unhealthy when down'' True (harness_check ''7-health'' ''healthy while up'' True rs)))))"
    by (rule ext)
  then show ?thesis by (simp only:) (intro adds_intros TrueI; simp)
qed

end
