(* ===== verification/Backends.thy ===== *)
theory Backends
  imports SocketSteps
begin

text \<open>
  A backend at its end of the connection, as the tools of the repository drive it (\<^verbatim>\<open>dialClient\<close>, \<^verbatim>\<open>authClient\<close> and
  \<^verbatim>\<open>registerBackend\<close> of \<^verbatim>\<open>tools/harness/main.go\<close>): it uses the same \<^verbatim>\<open>socket.Client\<close> as the proxy. A conversation goes
  the whole way: the request is encoded, its bytes travel, the proxy's loop decodes and handles it, and the answer comes
  back the same way.

  The network between the two ends is \<open>to_proxy\<close> and \<open>to_backend\<close>: it delivers the bytes that were written, in order.
  One turn of the proxy's loop follows each request.
\<close>

section \<open>The network\<close>

definition to_proxy :: "client_ref \<Rightarrow> Client \<times> DefaultServer \<Rightarrow> Client \<times> DefaultServer" where
  "to_proxy c = (\<lambda>(b, s).
     (b\<lparr>cl_out := []\<rparr>,
      if cl_closed (ds_client s c) then s else upd_client c (\<lambda>cl. cl\<lparr>cl_in := cl_in cl @ cl_out b\<rparr>) s))"

definition to_backend :: "client_ref \<Rightarrow> Client \<times> DefaultServer \<Rightarrow> Client \<times> DefaultServer" where
  "to_backend c = (\<lambda>(b, s).
     (b\<lparr>cl_in := cl_in b @ cl_out (ds_client s c)\<rparr>, upd_client c (\<lambda>cl. cl\<lparr>cl_out := []\<rparr>) s))"

text \<open>A request: the error of the backend's write, if any, and otherwise what happens after it. A connection that the
  proxy has closed answers nothing.\<close>

definition exchange ::
  "sock_env \<Rightarrow> nat \<times> io_error option \<Rightarrow> packet \<Rightarrow> client_ref \<Rightarrow> Client \<times> DefaultServer \<Rightarrow>
   io_error option \<times> Client \<times> DefaultServer" where
  "exchange env sent pk c = (\<lambda>(b, s).
     case WritePacket (se_io env) pk sent b of
       (err, b) \<Rightarrow>
         (case to_proxy c (b, s) of
            (b, s) \<Rightarrow>
              if err \<noteq> None \<or> cl_closed (ds_client s c) then (err, b, s)
              else (None, to_backend c (b, snd (handleClient_turn env c s)))))"

section \<open>The backend's calls\<close>

text \<open>Dialling: the error of the network, or the connection with its address at the proxy.\<close>

definition dialClient ::
  "go_error + string \<Rightarrow> time \<Rightarrow> DefaultServer \<Rightarrow> (go_error + client_ref \<times> Client) \<times> DefaultServer" where
  "dialClient dialled now s =
     (case dialled of
        Inl err \<Rightarrow> (Inl err, s)
      | Inr addr \<Rightarrow>
          (case accept_client [] EOF addr s of
             (c, s) \<Rightarrow> (Inr (c, NewClient [] EOF), snd (handleClient_begin now c s))))"

definition authClient ::
  "sock_env \<Rightarrow> nat \<times> io_error option \<Rightarrow> string \<Rightarrow> string \<Rightarrow> client_ref \<Rightarrow> Client \<times> DefaultServer \<Rightarrow>
   (go_error + uint8) \<times> Client \<times> DefaultServer" where
  "authClient env sent sec name c bs =
     (case exchange env sent (AuthRequestPk \<lparr>aq_Protocol = ProtocolVersion, aq_Secret = sec, aq_Name = name\<rparr>) c bs of
        (Some err, bs) \<Rightarrow> (Inl (io_text err), bs)
      | (None, b, s) \<Rightarrow>
          (case ReadPacket (se_io env) b of
             (Inl err, b) \<Rightarrow> (Inl (read_error_text (se_panicText env) err), b, s)
           | (Inr (AuthResponsePk ar), b) \<Rightarrow> (Inr (ar_Status ar), b, s)
           | (Inr pk, b) \<Rightarrow> (Inl ''expected AuthResponse'', b, s)))"

text \<open>What the harness registers.\<close>

definition harness_register :: "string \<Rightarrow> uint32 \<Rightarrow> RegisterServer" where
  "harness_register grp weight = \<lparr>rs_Address = ''127.0.0.1:1'', rs_Transport = '''', rs_LegacyAuth = False,
     rs_Group = grp, rs_Weight = weight\<rparr>"

text \<open>\<open>env1\<close>, \<open>sent1\<close> are for the first request, \<open>env2\<close>, \<open>sent2\<close> for the second.\<close>

definition registerBackend ::
  "go_error + string \<Rightarrow> time \<Rightarrow> sock_env \<Rightarrow> nat \<times> io_error option \<Rightarrow> sock_env \<Rightarrow> nat \<times> io_error option \<Rightarrow>
   string \<Rightarrow> string \<Rightarrow> string \<Rightarrow> uint32 \<Rightarrow> DefaultServer \<Rightarrow> (go_error + client_ref \<times> Client) \<times> DefaultServer" where
  "registerBackend dialled now env1 sent1 env2 sent2 sec name grp weight s =
     (case dialClient dialled now s of
        (Inl err, s) \<Rightarrow> (Inl err, s)
      | (Inr (c, b), s) \<Rightarrow>
          (case authClient env1 sent1 sec name c (b, s) of
             (Inl err, b, s) \<Rightarrow> (Inl err, s)
           | (Inr status, b, s) \<Rightarrow>
               if status \<noteq> AuthResponseSuccess then (Inl (''auth status '' @ show_nat (unat status)), s)
               else (case exchange env2 sent2 (RegisterServerPk (harness_register grp weight)) c (b, s) of
                       (Some err, b, s) \<Rightarrow> (Inl (io_text err), s)
                     | (None, b, s) \<Rightarrow> (Inr (c, b), s))))"

section \<open>A connection at rest\<close>

text \<open>Nothing is under way in either direction, and both ends can decode every packet.\<close>

definition resting :: "Client \<Rightarrow> bool" where
  "resting cl \<longleftrightarrow> cl_in cl = [] \<and> cl_out cl = [] \<and> cl_buf cl = [] \<and> pool_wf (cl_pool cl)"

definition linked :: "client_ref \<Rightarrow> Client \<Rightarrow> DefaultServer \<Rightarrow> bool" where
  "linked c b s \<longleftrightarrow> resting b \<and> resting (ds_client s c) \<and> \<not> cl_closed (ds_client s c)"

text \<open>The whole frame of a packet goes out.\<close>

definition whole :: "wire \<Rightarrow> packet \<Rightarrow> nat \<times> io_error option \<Rightarrow> bool" where
  "whole io pk outcome \<longleftrightarrow> snd outcome = None \<and> 6 + length (Marshal io pk) \<le> fst outcome"

definition frame_of :: "wire \<Rightarrow> packet \<Rightarrow> byte list" where
  "frame_of io pk = framed (Header_Write \<lparr>PacketID = packet_ID pk\<rparr> @ Marshal io pk)"

text \<open>The proxy reads what comes before the deadline, from a host that is not blocked.\<close>

definition attentive :: "sock_env \<Rightarrow> client_ref \<Rightarrow> DefaultServer \<Rightarrow> bool" where
  "attentive env c s \<longleftrightarrow>
     (authenticated s c \<or> \<not> AuthBlocked c (se_now env) s) \<and> \<not> past (se_readAt env) (ds_deadline s c)"

lemma WritePacket_whole:
  assumes "cl_buf cl = []" "whole io pk outcome"
  shows "WritePacket io pk outcome cl =
    (None, cl\<lparr>cl_hdr := \<lparr>PacketID = packet_ID pk\<rparr>, cl_out := cl_out cl @ frame_of io pk, cl_buf := []\<rparr>)"
proof -
  have hdr: "(cl_hdr cl)\<lparr>PacketID := packet_ID pk\<rparr> = \<lparr>PacketID = packet_ID pk\<rparr>"
    by (cases "cl_hdr cl") simp
  have "length (frame_of io pk) \<le> fst outcome"
    using assms(2) by (simp add: frame_of_def framed_def Header_Write_def whole_def)
  with assms show ?thesis
    by (cases outcome) (simp add: WritePacket_def whole_def frame_of_def Let_def hdr)
qed

lemma read_payload_same:
  assumes "read_payload io data c = (r, c')"
  shows "\<exists>p. c' = c\<lparr>cl_pool := p\<rparr>"
proof -
  have "\<exists>p. cl = cl\<lparr>cl_pool := p\<rparr>" for cl :: Client by (rule exI [of _ "cl_pool cl"]) simp
  with assms show ?thesis
    by (auto simp: read_payload_def Let_def split: option.splits prod.splits if_splits)
qed

lemma ReadPacket_frame_of:
  assumes "wire_laws io" "sendable io pk" "pool_wf (cl_pool cl)" "cl_in cl = frame_of io pk"
  obtains pk' p where "ReadPacket io cl = (Inr pk', cl\<lparr>cl_in := [], cl_pool := p\<rparr>)" "pool_wf p"
    "packet_vis pk' = packet_vis pk"
proof -
  from ReadPacket_framed [OF assms(1-3), of "[]"] assms(4) obtain pk' cl' where
    r: "ReadPacket io cl = (Inr pk', cl')" "packet_vis pk' = packet_vis pk" "cl_in cl' = []" "pool_wf (cl_pool cl')"
    by (auto simp: frame_of_def)
  from r(1) have "\<exists>p. cl' = cl\<lparr>cl_in := [], cl_pool := p\<rparr>"
  proof (cases rule: ReadPacket_cases)
    case (payload bs data rest)
    from read_payload_same [OF payload(5)] obtain p where p: "cl' = cl\<lparr>cl_in := rest, cl_pool := p\<rparr>" by auto
    with r(3) have "rest = []" by simp
    with p show ?thesis by auto
  qed simp_all
  then obtain p where "cl' = cl\<lparr>cl_in := [], cl_pool := p\<rparr>" ..
  with r that [of pk' p] show thesis by simp
qed

section \<open>A request arrives\<close>

text \<open>Updating the connection's end twice.\<close>

lemma upd_client_twice: "upd_client c f (upd_client c g s) = upd_client c (\<lambda>cl. f (g cl)) s"
  by (simp add: upd_client_def)

lemma ds_client_upd [simp]: "ds_client (upd_client c f s) c' = (if c' = c then f (ds_client s c) else ds_client s c')"
  by (simp add: upd_client_def)

text \<open>The proxy's loop handles the very request, in the state before it but for the decoder's pool.\<close>

lemma turn_of_request:
  assumes "wire_laws (se_io env)" "sendable (se_io env) pk" "resting (ds_client s c)" "attentive env c s"
    and "s1 = upd_client c (\<lambda>cl. cl\<lparr>cl_in := cl_in cl @ frame_of (se_io env) pk\<rparr>) s"
  obtains pk' p where "pool_wf p" "packet_vis pk' = packet_vis pk"
    "handleClient_turn env c s1 = handle_packet env pk' c (upd_client c (\<lambda>cl. cl\<lparr>cl_pool := p\<rparr>) s)"
proof -
  let ?cl = "(ds_client s c)\<lparr>cl_in := frame_of (se_io env) pk\<rparr>"
  have empty: "cl_in (ds_client s c) = []" using assms(3) by (simp add: resting_def)
  then have cl: "ds_client s1 c = ?cl" by (simp add: assms(5))
  have "pool_wf (cl_pool ?cl)" "cl_in ?cl = frame_of (se_io env) pk" using assms(3) by (simp_all add: resting_def)
  from ReadPacket_frame_of [OF assms(1,2) this] obtain pk' p where
    r: "ReadPacket (se_io env) ?cl = (Inr pk', ?cl\<lparr>cl_in := [], cl_pool := p\<rparr>)" and p: "pool_wf p"
    and vis: "packet_vis pk' = packet_vis pk" .
  have "(ds_client s c)\<lparr>cl_in := [], cl_pool := p\<rparr> = (ds_client s c)\<lparr>cl_pool := p\<rparr>"
    using empty by (cases "ds_client s c") simp
  then have same: "upd_client c (\<lambda>_. (ds_client s c)\<lparr>cl_in := [], cl_pool := p\<rparr>) s1 =
      upd_client c (\<lambda>cl. cl\<lparr>cl_pool := p\<rparr>) s"
    unfolding assms(5) upd_client_twice by (simp add: upd_client_def)
  have now: "\<not> (\<not> authenticated s1 c \<and> AuthBlocked c (se_now env) s1)" "\<not> past (se_readAt env) (ds_deadline s1 c)"
    using assms(4) by (auto simp: attentive_def AuthBlocked_def assms(5) upd_client_def)
  have "handleClient_turn env c s1 = handle_packet env pk' c (upd_client c (\<lambda>cl. cl\<lparr>cl_pool := p\<rparr>) s)"
    using now by (auto simp: handleClient_turn_def read_packet_def cl r same)
  with p vis show thesis by (rule that)
qed

lemma exchange_linked:
  assumes "wire_laws (se_io env)" "sendable (se_io env) pk" "linked c b s" "attentive env c s"
    and "whole (se_io env) pk sent"
  obtains pk' p where "pool_wf p" "packet_vis pk' = packet_vis pk"
    "exchange env sent pk c (b, s) = (None, to_backend c (b\<lparr>cl_hdr := \<lparr>PacketID = packet_ID pk\<rparr>\<rparr>,
       snd (handle_packet env pk' c (upd_client c (\<lambda>cl. cl\<lparr>cl_pool := p\<rparr>) s))))"
proof -
  have rest: "resting b" "resting (ds_client s c)" "\<not> cl_closed (ds_client s c)"
    using assms(3) by (simp_all add: linked_def)
  let ?s1 = "upd_client c (\<lambda>cl. cl\<lparr>cl_in := cl_in cl @ frame_of (se_io env) pk\<rparr>) s"
  from turn_of_request [OF assms(1,2) rest(2) assms(4) refl] obtain pk' p where
    t: "pool_wf p" "packet_vis pk' = packet_vis pk"
      "handleClient_turn env c ?s1 = handle_packet env pk' c (upd_client c (\<lambda>cl. cl\<lparr>cl_pool := p\<rparr>) s)" .
  have "WritePacket (se_io env) pk sent b =
      (None, b\<lparr>cl_hdr := \<lparr>PacketID = packet_ID pk\<rparr>, cl_out := frame_of (se_io env) pk\<rparr>)"
    using WritePacket_whole [of b, OF _ assms(5)] rest(1) by (simp add: resting_def)
  moreover have keep: "b\<lparr>cl_hdr := h, cl_out := []\<rparr> = b\<lparr>cl_hdr := h\<rparr>" for h
    using rest(1) by (cases b) (simp add: resting_def)
  ultimately have "exchange env sent pk c (b, s) =
      (None, to_backend c (b\<lparr>cl_hdr := \<lparr>PacketID = packet_ID pk\<rparr>\<rparr>, snd (handleClient_turn env c ?s1)))"
    using rest by (simp add: exchange_def to_proxy_def resting_def keep)
  with t show thesis by (intro that) simp_all
qed

section \<open>The answer comes back\<close>

lemma reply_whole:
  assumes "resting (ds_client s c)" "whole (se_io env) pk (se_write env)"
  shows "reply env pk c s = (HandledOk, upd_client c
    (\<lambda>cl. cl\<lparr>cl_hdr := \<lparr>PacketID = packet_ID pk\<rparr>, cl_out := frame_of (se_io env) pk\<rparr>) s)"
proof -
  have keep: "(ds_client s c)\<lparr>cl_hdr := h, cl_out := out, cl_buf := []\<rparr> = (ds_client s c)\<lparr>cl_hdr := h, cl_out := out\<rparr>"
    for h out using assms(1) by (cases "ds_client s c") (simp add: resting_def)
  show ?thesis
    using WritePacket_whole [of "ds_client s c", OF _ assms(2)] assms(1)
    by (simp add: reply_def resting_def upd_client_def keep)
qed

lemma answer_received:
  assumes "wire_laws io" "sendable io pk" "resting b" "cl_out (ds_client s c) = frame_of io pk"
  obtains pk' p where "ReadPacket io (fst (to_backend c (b, s))) = (Inr pk', b\<lparr>cl_pool := p\<rparr>)"
    "pool_wf p" "packet_vis pk' = packet_vis pk"
proof -
  let ?b = "b\<lparr>cl_in := frame_of io pk\<rparr>"
  have b: "fst (to_backend c (b, s)) = ?b" using assms(3,4) by (simp add: to_backend_def resting_def)
  have "pool_wf (cl_pool ?b)" "cl_in ?b = frame_of io pk" using assms(3) by (simp_all add: resting_def)
  from ReadPacket_frame_of [OF assms(1,2) this] obtain pk' p where
    r: "ReadPacket io ?b = (Inr pk', ?b\<lparr>cl_in := [], cl_pool := p\<rparr>)" "pool_wf p" "packet_vis pk' = packet_vis pk" .
  have "?b\<lparr>cl_in := [], cl_pool := p\<rparr> = b\<lparr>cl_pool := p\<rparr>" using assms(3) by (cases b) (simp add: resting_def)
  with r b show thesis by (intro that [of pk' p]) simp_all
qed

section \<open>Logging in\<close>

definition auth_status :: "string \<Rightarrow> string \<Rightarrow> DefaultServer \<Rightarrow> uint8" where
  "auth_status sec name s =
     (if ds_secret s = '''' \<or> sec \<noteq> ds_secret s then AuthResponseIncorrectSecret
      else if ds_clients s (ToLower name) \<noteq> None then AuthResponseAlreadyConnected
      else AuthResponseSuccess)"

lemmas status_defs = AuthResponseSuccess_def AuthResponseIncorrectSecret_def AuthResponseAlreadyConnected_def
  AuthResponseUnsupportedProtocol_def AuthResponseUnauthenticated_def

lemma auth_status_iff [simp]:
  "auth_status sec name s = AuthResponseSuccess \<longleftrightarrow>
     ds_secret s \<noteq> '''' \<and> sec = ds_secret s \<and> ds_clients s (ToLower name) = None"
  "auth_status sec name s = AuthResponseIncorrectSecret \<longleftrightarrow> ds_secret s = '''' \<or> sec \<noteq> ds_secret s"
  by (auto simp: auth_status_def status_defs)

text \<open>What a login leaves: the rest of the proxy is as it was, the connection is at rest again, and it is
  authenticated exactly when the answer is success.\<close>

definition logged_in ::
  "sock_env \<Rightarrow> string \<Rightarrow> string \<Rightarrow> client_ref \<Rightarrow> DefaultServer \<Rightarrow> DefaultServer \<Rightarrow> bool" where
  "logged_in env sec name c s s' \<longleftrightarrow>
     (let ok = (auth_status sec name s = AuthResponseSuccess) in
      ds_secret s' = ds_secret s \<and> ds_registry s' = ds_registry s \<and> ds_world s' = ds_world s \<and>
      ds_addr s' = ds_addr s \<and> ds_next s' = ds_next s \<and> ds_listener s' = ds_listener s \<and>
      (\<forall>d. d \<noteq> c \<longrightarrow> ds_client s' d = ds_client s d) \<and>
      resting (ds_client s' c) \<and> \<not> cl_closed (ds_client s' c) \<and>
      authenticated s' c = ok \<and> (ok \<longrightarrow> client_name s' c = name) \<and>
      ds_clients s' = (if ok then (ds_clients s)(ToLower name \<mapsto> c) else ds_clients s) \<and>
      ds_unconnected s' = (if ok then ds_unconnected s - {c} else ds_unconnected s) \<and>
      ds_deadline s' = (if ok then (ds_deadline s)(c := None) else ds_deadline s) \<and>
      ds_throttle s' = (if auth_status sec name s = AuthResponseIncorrectSecret
        then RecordFailure (ds_addr s c) (se_readAt env) (ds_throttle s) else ds_throttle s))"

lemma handler_of_auth: "packet_handlers (packet_ID (AuthRequestPk pk)) = Some AuthRequestHandler"
  by (simp add: packet_handlers_def RegisterHandler_def ID_defs)

lemma resting_pool: "resting cl \<Longrightarrow> pool_wf p \<Longrightarrow> resting (cl\<lparr>cl_pool := p\<rparr>)"
  by (simp add: resting_def)

lemma handle_auth:
  assumes "resting (ds_client s c)" "\<not> cl_closed (ds_client s c)" "\<not> authenticated s c"
    and "\<And>status. whole (se_io env) (auth_response status) (se_write env)"
  shows "\<exists>s'. handle_packet env (AuthRequestPk \<lparr>aq_Protocol = ProtocolVersion, aq_Secret = sec, aq_Name = name\<rparr>) c s = (Again, s') \<and>
    cl_out (ds_client s' c) = frame_of (se_io env) (auth_response (auth_status sec name s)) \<and>
    logged_in env sec name c s (snd (to_backend c (b, s')))"
proof -
  let ?pk = "\<lparr>aq_Protocol = ProtocolVersion, aq_Secret = sec, aq_Name = name\<rparr>"
  have h: "handle_packet env (AuthRequestPk ?pk) c s =
      (case AuthRequest_Handle env ?pk c s of
         (HandlePanicked, s) \<Rightarrow> (Crashed, s) | (HandleFailed err, s) \<Rightarrow> (Again, s)
       | (HandledOk, s) \<Rightarrow> (Again, if authenticated s c then set_deadline c None s else s))"
    unfolding handle_packet_def handler_of_auth by (simp add: Handle_def RequiresAuth_def)
  consider (wrong) "ds_secret s = '''' \<or> sec \<noteq> ds_secret s"
    | (taken) "ds_secret s \<noteq> ''''" "sec = ds_secret s" "ds_clients s (ToLower name) \<noteq> None"
    | (good) "ds_secret s \<noteq> ''''" "sec = ds_secret s" "ds_clients s (ToLower name) = None" by blast
  then show ?thesis
  proof cases
    case wrong
    then have r: "AuthRequest_Handle env ?pk c s =
        reply env (auth_response (auth_status sec name s)) c (RecordAuthFailure c (se_readAt env) s)"
      using assms(3) by (auto simp: AuthRequest_Handle_def auth_status_def)
    have "resting (ds_client (RecordAuthFailure c (se_readAt env) s) c)"
      using assms(1) by (simp add: RecordAuthFailure_def)
    from reply_whole [OF this assms(4)] wrong assms(1-3) show ?thesis
      unfolding h r
      by (auto simp: logged_in_def to_backend_def upd_client_def RecordAuthFailure_def resting_def Let_def)
  next
    case taken
    then have r: "AuthRequest_Handle env ?pk c s = reply env (auth_response (auth_status sec name s)) c s"
      using assms(3) by (auto simp: AuthRequest_Handle_def auth_status_def TryAuthenticate_def)
    from reply_whole [OF assms(1,4)] taken assms(1-3) show ?thesis
      unfolding h r by (auto simp: logged_in_def to_backend_def upd_client_def resting_def Let_def)
  next
    case good
    let ?s = "snd (TryAuthenticate c name s)"
    have r: "AuthRequest_Handle env ?pk c s = reply env (auth_response (auth_status sec name s)) c ?s"
      using assms(3) good by (auto simp: AuthRequest_Handle_def auth_status_def TryAuthenticate_def)
    have "resting (ds_client ?s c)" using assms(1,3) good
      by (simp add: TryAuthenticate_def Authenticate_def resting_def)
    from reply_whole [OF this assms(4)] good assms(1-3) show ?thesis
      unfolding h r
      by (auto simp: logged_in_def to_backend_def upd_client_def resting_def Let_def TryAuthenticate_def
          Authenticate_def set_deadline_def)
  qed
qed

text \<open>The packets of a login fit their frames, and go out whole.\<close>

definition login_fits :: "sock_env \<Rightarrow> nat \<times> io_error option \<Rightarrow> string \<Rightarrow> string \<Rightarrow> bool" where
  "login_fits env sent sec name \<longleftrightarrow>
     (let pk = AuthRequestPk \<lparr>aq_Protocol = ProtocolVersion, aq_Secret = sec, aq_Name = name\<rparr> in
      sendable (se_io env) pk \<and> whole (se_io env) pk sent) \<and>
     (\<forall>status. sendable (se_io env) (auth_response status) \<and>
        whole (se_io env) (auth_response status) (se_write env))"

text \<open>A login gets its answer: a backend that sends its secret and its name over a connection at rest, from a host that is
  not blocked and before the deadline, reads back the status that the proxy's state calls for. The rest of the proxy is
  untouched, and the connection is at rest again.\<close>

lemma authClient_logs_in:
  assumes "wire_laws (se_io env)" "login_fits env sent sec name" "linked c b s" "attentive env c s" "\<not> authenticated s c"
  shows "\<exists>b' s'. authClient env sent sec name c (b, s) = (Inr (auth_status sec name s), b', s') \<and>
    linked c b' s' \<and> logged_in env sec name c s s'"
proof -
  let ?pk = "AuthRequestPk \<lparr>aq_Protocol = ProtocolVersion, aq_Secret = sec, aq_Name = name\<rparr>"
  let ?st = "auth_status sec name s"
  have fits: "sendable (se_io env) ?pk" "whole (se_io env) ?pk sent"
    "sendable (se_io env) (auth_response ?st)" "whole (se_io env) (auth_response status) (se_write env)" for status
    using assms(2) by (simp_all add: login_fits_def Let_def)
  from exchange_linked [OF assms(1) fits(1) assms(3,4) fits(2)] obtain pk' p where
    p: "pool_wf p" and vis: "packet_vis pk' = packet_vis ?pk"
    and ex: "exchange env sent ?pk c (b, s) = (None, to_backend c (b\<lparr>cl_hdr := \<lparr>PacketID = packet_ID ?pk\<rparr>\<rparr>,
       snd (handle_packet env pk' c (upd_client c (\<lambda>cl. cl\<lparr>cl_pool := p\<rparr>) s))))" .
  have pk': "pk' = ?pk" using vis by (cases pk') simp_all
  let ?s = "upd_client c (\<lambda>cl. cl\<lparr>cl_pool := p\<rparr>) s" and ?b = "b\<lparr>cl_hdr := \<lparr>PacketID = packet_ID ?pk\<rparr>\<rparr>"
  have rest: "resting (ds_client ?s c)" "\<not> cl_closed (ds_client ?s c)" "\<not> authenticated ?s c" "resting ?b"
    using assms(3,5) p by (simp_all add: linked_def resting_def)
  have st: "auth_status sec name ?s = ?st" by (simp add: auth_status_def upd_client_def)
  from handle_auth [OF rest(1-3) fits(4)] st obtain s' where
    h: "handle_packet env ?pk c ?s = (Again, s')" "cl_out (ds_client s' c) = frame_of (se_io env) (auth_response ?st)"
      "logged_in env sec name c ?s (snd (to_backend c (?b, s')))" by metis
  from answer_received [OF assms(1) fits(3) rest(4) h(2)] obtain ans q where
    r: "ReadPacket (se_io env) (fst (to_backend c (?b, s'))) = (Inr ans, ?b\<lparr>cl_pool := q\<rparr>)" "pool_wf q"
      "packet_vis ans = packet_vis (auth_response ?st)" .
  have ans: "ans = auth_response ?st" using r(3) by (cases ans) (simp_all add: auth_response_def)
  have "logged_in env sec name c s (snd (to_backend c (?b, s')))"
    using h(3) unfolding logged_in_def st by (auto simp: upd_client_def Let_def)
  moreover from this have "linked c (?b\<lparr>cl_pool := q\<rparr>) (snd (to_backend c (?b, s')))"
    using rest(4) r(2) by (simp add: linked_def logged_in_def resting_def Let_def)
  moreover have "authClient env sent sec name c (b, s) =
      (Inr ?st, ?b\<lparr>cl_pool := q\<rparr>, snd (to_backend c (?b, s')))"
    unfolding authClient_def ex pk' h(1) using r(1) ans
    by (cases "to_backend c (?b, s')") (simp add: auth_response_def)
  ultimately show ?thesis by blast
qed

section \<open>Dialling and registering\<close>

lemma NewClient_resting: "resting (NewClient [] e)"
  by (simp add: resting_def NewClient_def pool_wf_NewPool)

text \<open>Where a dialled connection begins.\<close>

definition dialled_in :: "string \<Rightarrow> time \<Rightarrow> DefaultServer \<Rightarrow> DefaultServer \<Rightarrow> bool" where
  "dialled_in addr now s s' \<longleftrightarrow>
     (let c = ds_next s in
      resting (ds_client s' c) \<and> \<not> cl_closed (ds_client s' c) \<and> \<not> authenticated s' c \<and>
      ds_deadline s' = (ds_deadline s)(c := Some (now + authTimeout)) \<and>
      ds_unconnected s' = insert c (ds_unconnected s) \<and> ds_next s' = Suc c \<and>
      ds_addr s' = (ds_addr s)(c := addr) \<and> (\<forall>d. d \<noteq> c \<longrightarrow> ds_client s' d = ds_client s d) \<and>
      ds_throttle s' = ds_throttle s \<and> ds_secret s' = ds_secret s \<and> ds_clients s' = ds_clients s \<and>
      ds_registry s' = ds_registry s \<and> ds_world s' = ds_world s \<and> ds_listener s' = ds_listener s)"

lemma dialClient_opens:
  assumes "\<not> Blocked addr now (ds_throttle s)"
  shows "\<exists>s'. dialClient (Inr addr) now s = (Inr (ds_next s, NewClient [] EOF), s') \<and> dialled_in addr now s s'"
  using assms NewClient_resting [of EOF]
  by (simp add: dialClient_def accept_client_def handleClient_begin_def AuthBlocked_def Let_def
      set_deadline_def dialled_in_def) (simp add: NewClient_def)

lemma dialled_in_linked: "dialled_in addr now s s' \<Longrightarrow> linked (ds_next s) (NewClient [] EOF) s'"
  by (simp add: dialled_in_def linked_def NewClient_resting Let_def)

text \<open>A blocked host: the connection is closed at once.\<close>

lemma dialClient_blocked:
  assumes "Blocked addr now (ds_throttle s)"
  shows "\<exists>s'. dialClient (Inr addr) now s = (Inr (ds_next s, NewClient [] EOF), s') \<and>
    cl_closed (ds_client s' (ds_next s)) \<and> ds_clients s' = ds_clients s \<and> ds_throttle s' = ds_throttle s \<and>
    ds_unconnected s' = ds_unconnected s \<and> ds_registry s' = ds_registry s \<and> ds_world s' = ds_world s"
  using assms
  by (simp add: dialClient_def accept_client_def handleClient_begin_def AuthBlocked_def Let_def close_client_def
      upd_client_def Client_Close_def)

text \<open>On a closed connection a login fails.\<close>

lemma authClient_closed:
  assumes "cl_closed (ds_client s c)" "resting b" "cl_inErr b = EOF"
  shows "\<exists>err b'. authClient env sent sec name c (b, s) = (Inl err, b', s)"
proof -
  let ?pk = "AuthRequestPk \<lparr>aq_Protocol = ProtocolVersion, aq_Secret = sec, aq_Name = name\<rparr>"
  obtain e b1 where w: "WritePacket (se_io env) ?pk sent b = (e, b1)" by fastforce
  have b1: "cl_in b1 = []" "cl_inErr b1 = EOF"
    using w assms(2,3) by (auto simp: WritePacket_def Let_def resting_def split: prod.splits)
  have ex: "exchange env sent ?pk c (b, s) = (e, b1\<lparr>cl_out := []\<rparr>, s)"
    using assms(1) by (simp add: exchange_def w to_proxy_def)
  show ?thesis
  proof (cases e)
    case None
    have "ReadPacket (se_io env) (b1\<lparr>cl_out := []\<rparr>) = (Inl (ReadIO EOF), b1\<lparr>cl_out := [], cl_in := []\<rparr>)"
      using b1 by (simp add: ReadPacket_def ReadFull_def)
    with ex None show ?thesis by (simp add: authClient_def)
  qed (simp add: authClient_def ex)
qed

text \<open>A request of an authenticated backend that its handler accepts without an answer.\<close>

lemma exchange_silent:
  assumes "wire_laws (se_io env)" "sendable (se_io env) pk" "linked c b s" "attentive env c s" "whole (se_io env) pk sent"
    and "authenticated s c" "packet_handlers (packet_ID pk) = Some h" "packet_vis pk = pk"
    and "\<And>pk'. packet_vis pk' = pk \<Longrightarrow> pk' = pk"
    and "\<And>p. Handle h env pk c (upd_client c (\<lambda>cl. cl\<lparr>cl_pool := p\<rparr>) s) =
      (HandledOk, upd_client c (\<lambda>cl. cl\<lparr>cl_pool := p\<rparr>) s1)"
    and "ds_client s1 = ds_client s" "ds_deadline s1 = ds_deadline s"
  shows "\<exists>b' s' f. exchange env sent pk c (b, s) = (None, b', s') \<and> linked c b' s' \<and>
    s' = set_deadline c None (upd_client c f s1) \<and> authenticated s' c \<and> client_name s' c = client_name s c"
proof -
  from exchange_linked [OF assms(1-5)] obtain pk' p where
    p: "pool_wf p" and vis: "packet_vis pk' = packet_vis pk"
    and ex: "exchange env sent pk c (b, s) = (None, to_backend c (b\<lparr>cl_hdr := \<lparr>PacketID = packet_ID pk\<rparr>\<rparr>,
       snd (handle_packet env pk' c (upd_client c (\<lambda>cl. cl\<lparr>cl_pool := p\<rparr>) s))))" .
  let ?f = "\<lambda>cl. cl\<lparr>cl_pool := p\<rparr> :: Client" and ?b = "b\<lparr>cl_hdr := \<lparr>PacketID = packet_ID pk\<rparr>\<rparr>"
  have pk': "pk' = pk" using vis assms(8,9) by simp
  note h = assms(10) [of p]
  have "handle_packet env pk c (upd_client c ?f s) = (Again, set_deadline c None (upd_client c ?f s1))"
    unfolding handle_packet_def assms(7) using assms(6,11) by (simp add: h)
  then have e: "exchange env sent pk c (b, s) = (None, to_backend c (?b, set_deadline c None (upd_client c ?f s1)))"
    unfolding ex pk' by simp
  have out: "cl_out (ds_client s c) = []" "cl_in b = []" using assms(3) by (simp_all add: linked_def resting_def)
  have keep: "?b\<lparr>cl_in := []\<rparr> = ?b" using out(2) by (cases b) simp
  have t: "to_backend c (?b, set_deadline c None (upd_client c ?f s1)) =
      (?b, set_deadline c None (upd_client c (\<lambda>cl. cl\<lparr>cl_pool := p, cl_out := []\<rparr>) s1))"
    using out keep assms(11) by (simp add: to_backend_def set_deadline_def upd_client_def)
  have "linked c ?b (set_deadline c None (upd_client c (\<lambda>cl. cl\<lparr>cl_pool := p, cl_out := []\<rparr>) s1))"
    using assms(3,11) p by (simp add: linked_def resting_def set_deadline_def)
  then show ?thesis using e t assms(6,11) by (fastforce simp: set_deadline_def)
qed

lemma register_server_upd: "register_server pk tr name (upd_client c f s) = upd_client c f (register_server pk tr name s)"
  by (simp add: register_server_def upd_client_def Let_def split: prod.split)

lemma handler_of_register: "packet_handlers (packet_ID (RegisterServerPk pk)) = Some RegisterServerHandler"
  by (simp add: packet_handlers_def RegisterHandler_def ID_defs)

lemma vis_plain:
  "packet_vis pk' = RegisterServerPk pk \<Longrightarrow> pk' = RegisterServerPk pk"
  "packet_vis pk' = SetServerDrainingPk pk2 \<Longrightarrow> pk' = SetServerDrainingPk pk2"
  by (cases pk'; simp)+

lemma exchange_register:
  assumes "wire_laws (se_io env)" "sendable (se_io env) (RegisterServerPk pk)" "linked c b s" "attentive env c s"
    and "whole (se_io env) (RegisterServerPk pk) sent" "authenticated s c" "rs_Transport pk = ''''" "rs_Address pk \<noteq> ''''"
  shows "\<exists>b' s' f. exchange env sent (RegisterServerPk pk) c (b, s) = (None, b', s') \<and> linked c b' s' \<and>
    s' = set_deadline c None (upd_client c f (register_server pk TransportRakNet (client_name s c) s)) \<and>
    authenticated s' c \<and> client_name s' c = client_name s c"
proof (rule exchange_silent [OF assms(1-6) handler_of_register])
  show "Handle RegisterServerHandler env (RegisterServerPk pk) c (upd_client c (\<lambda>cl. cl\<lparr>cl_pool := p\<rparr>) s) =
      (HandledOk, upd_client c (\<lambda>cl. cl\<lparr>cl_pool := p\<rparr>) (register_server pk TransportRakNet (client_name s c) s))" for p
    using assms(7,8)
    by (simp add: Handle_def RegisterServer_Handle_def parseTransport_def validateAddress_def register_server_upd
        TransportRakNet_def TransportNetherNet_def)
  show "packet_vis (RegisterServerPk pk) = RegisterServerPk pk" by simp
  show "\<And>pk'. packet_vis pk' = RegisterServerPk pk \<Longrightarrow> pk' = RegisterServerPk pk" by (rule vis_plain)
qed (simp_all add: register_server_def Let_def split: prod.split)

text \<open>A backend sets whether its server drains.\<close>

lemma handler_of_draining: "packet_handlers (packet_ID (SetServerDrainingPk pk)) = Some SetServerDrainingHandler"
  by (simp add: packet_handlers_def RegisterHandler_def ID_defs)

lemma exchange_draining:
  assumes "wire_laws (se_io env)" "sendable (se_io env) (SetServerDrainingPk pk)" "linked c b s" "attentive env c s"
    and "whole (se_io env) (SetServerDrainingPk pk) sent" "authenticated s c"
    and "Registry_Server (ds_registry s) (client_name s c) = Some r"
    and "s1 = s\<lparr>ds_world := (ds_world s)\<lparr>w_srv := SetDraining r (sd_Draining pk) (w_srv (ds_world s))\<rparr>\<rparr>"
  shows "\<exists>b' s' f. exchange env sent (SetServerDrainingPk pk) c (b, s) = (None, b', s') \<and> linked c b' s' \<and>
    s' = set_deadline c None (upd_client c f s1) \<and> authenticated s' c \<and> client_name s' c = client_name s c"
proof (rule exchange_silent [OF assms(1-6) handler_of_draining])
  show "Handle SetServerDrainingHandler env (SetServerDrainingPk pk) c (upd_client c (\<lambda>cl. cl\<lparr>cl_pool := p\<rparr>) s) =
      (HandledOk, upd_client c (\<lambda>cl. cl\<lparr>cl_pool := p\<rparr>) s1)" for p
    using assms(7,8) by (simp add: Handle_def SetServerDraining_Handle_def upd_client_def)
  show "packet_vis (SetServerDrainingPk pk) = SetServerDrainingPk pk" by simp
  show "\<And>pk'. packet_vis pk' = SetServerDrainingPk pk \<Longrightarrow> pk' = SetServerDrainingPk pk" by (rule vis_plain)
qed (simp_all add: assms(8))

text \<open>A registration depends on the registry and the world only.\<close>

lemma register_server_cong:
  assumes "ds_registry s' = ds_registry s" "ds_world s' = ds_world s"
  shows "ds_registry (register_server pk tr name s') = ds_registry (register_server pk tr name s)"
    and "ds_world (register_server pk tr name s') = ds_world (register_server pk tr name s)"
  by (simp_all add: register_server_def assms Let_def split: prod.split)

lemma register_server_rest:
  "ds_clients (register_server pk tr name s) = ds_clients s" "ds_throttle (register_server pk tr name s) = ds_throttle s"
  "ds_secret (register_server pk tr name s) = ds_secret s" "ds_next (register_server pk tr name s) = ds_next s"
  "ds_client (register_server pk tr name s) = ds_client s" "ds_listener (register_server pk tr name s) = ds_listener s"
  by (simp_all add: register_server_def Let_def split: prod.split)

text \<open>The state that a registration leaves.\<close>

definition registered_as ::
  "string \<Rightarrow> RegisterServer \<Rightarrow> Client \<Rightarrow> DefaultServer \<Rightarrow> DefaultServer \<Rightarrow> bool" where
  "registered_as name pk b s s' \<longleftrightarrow>
     (let c = ds_next s in
      linked c b s' \<and> authenticated s' c \<and> client_name s' c = name \<and> ds_deadline s' c = None \<and>
      ds_clients s' = (ds_clients s)(ToLower name \<mapsto> c) \<and> ds_throttle s' = ds_throttle s \<and> ds_secret s' = ds_secret s \<and>
      ds_next s' = Suc c \<and> ds_listener s' = ds_listener s \<and>
      ds_registry s' = ds_registry (register_server pk TransportRakNet name s) \<and>
      ds_world s' = ds_world (register_server pk TransportRakNet name s))"

lemma registerBackend_state:
  assumes "wire_laws (se_io env1)" "login_fits env1 sent1 (ds_secret s) name" "\<not> Blocked addr now (ds_throttle s)"
    and "\<not> Blocked addr (se_now env1) (ds_throttle s)" "se_readAt env1 \<le> now + authTimeout"
    and "ds_secret s \<noteq> ''''" "ds_clients s (ToLower name) = None"
    and "wire_laws (se_io env2)" "sendable (se_io env2) (RegisterServerPk (harness_register grp weight))"
    and "whole (se_io env2) (RegisterServerPk (harness_register grp weight)) sent2"
  shows "\<exists>b s'. registerBackend (Inr addr) now env1 sent1 env2 sent2 (ds_secret s) name grp weight s =
      (Inr (ds_next s, b), s') \<and> registered_as name (harness_register grp weight) b s s'"
proof -
  let ?c = "ds_next s" and ?pk = "harness_register grp weight"
  from dialClient_opens [OF assms(3)] obtain s1 where
    d: "dialClient (Inr addr) now s = (Inr (?c, NewClient [] EOF), s1)" "dialled_in addr now s s1" by blast
  from d(2) have s1: "\<not> authenticated s1 ?c" "ds_secret s1 = ds_secret s" "ds_clients s1 = ds_clients s"
    "ds_registry s1 = ds_registry s" "ds_world s1 = ds_world s" "ds_throttle s1 = ds_throttle s" "ds_next s1 = Suc ?c"
    "ds_listener s1 = ds_listener s"
    by (simp_all add: dialled_in_def Let_def)
  have att: "attentive env1 ?c s1"
    using d(2) assms(4,5) by (simp add: attentive_def AuthBlocked_def past_def dialled_in_def Let_def)
  from authClient_logs_in [OF assms(1,2) dialled_in_linked [OF d(2)] att s1(1)] obtain b2 s2 where
    a: "authClient env1 sent1 (ds_secret s) name ?c (NewClient [] EOF, s1) = (Inr (auth_status (ds_secret s) name s1), b2, s2)"
      "linked ?c b2 s2" "logged_in env1 (ds_secret s) name ?c s1 s2" by blast
  have ok: "auth_status (ds_secret s) name s1 = AuthResponseSuccess" using assms(6,7) s1 by simp
  have s2: "authenticated s2 ?c" "client_name s2 ?c = name" "ds_clients s2 = (ds_clients s)(ToLower name \<mapsto> ?c)"
    "ds_registry s2 = ds_registry s" "ds_world s2 = ds_world s" "ds_deadline s2 ?c = None" "ds_secret s2 = ds_secret s"
    "ds_next s2 = Suc ?c" "ds_listener s2 = ds_listener s" "ds_throttle s2 = ds_throttle s"
    using a(3) s1 unfolding logged_in_def ok by (simp_all add: Let_def status_defs)
  have att2: "attentive env2 ?c s2" using s2 by (simp add: attentive_def past_def)
  have pk: "rs_Transport ?pk = ''''" "rs_Address ?pk \<noteq> ''''" by (simp_all add: harness_register_def)
  from exchange_register [OF assms(8,9) a(2) att2 assms(10) s2(1) pk]
  obtain b' s' f where e: "exchange env2 sent2 (RegisterServerPk ?pk) ?c (b2, s2) = (None, b', s')" "linked ?c b' s'"
    "s' = set_deadline ?c None (upd_client ?c f (register_server ?pk TransportRakNet name s2))"
    "authenticated s' ?c" "client_name s' ?c = name"
    unfolding s2(2) by auto
  have "registerBackend (Inr addr) now env1 sent1 env2 sent2 (ds_secret s) name grp weight s = (Inr (?c, b'), s')"
    using e(1) by (simp add: registerBackend_def d(1) a(1) ok del: auth_status_iff)
  moreover have "registered_as name ?pk b' s s'"
    using e(2,4,5) register_server_cong [OF s2(4,5)] register_server_rest
    by (simp add: registered_as_def e(3) set_deadline_def upd_client_def s2 Let_def)
  ultimately show ?thesis by blast
qed

section \<open>Properties\<close>

text \<open>C31: a backend that dials, logs in with the secret under a free name and registers is registered: the registry finds
  under its name a server with the name, address, group and weight it sent (one for no weight), the name
  belongs to its connection, and the registration has been published.\<close>

theorem registerBackend_registers:
  assumes "wire_laws (se_io env1)" "login_fits env1 sent1 (ds_secret s) name" "\<not> Blocked addr now (ds_throttle s)"
    and "\<not> Blocked addr (se_now env1) (ds_throttle s)" "se_readAt env1 \<le> now + authTimeout"
    and "ds_secret s \<noteq> ''''" "ds_clients s (ToLower name) = None"
    and "reg = RegisterServerPk \<lparr>rs_Address = ''127.0.0.1:1'', rs_Transport = '''', rs_LegacyAuth = False,
      rs_Group = grp, rs_Weight = weight\<rparr>"
    and "wire_laws (se_io env2)" "sendable (se_io env2) reg" "whole (se_io env2) reg sent2"
  shows "\<exists>b s' r. registerBackend (Inr addr) now env1 sent1 env2 sent2 (ds_secret s) name grp weight s =
      (Inr (ds_next s, b), s') \<and> linked (ds_next s) b s' \<and>
    Server_Client s' name = Some (ds_next s) \<and> Registry_Server (ds_registry s') name = Some r \<and>
    (let sv = srv_at (w_srv (ds_world s')) r in
     sv_name sv = name \<and> sv_address sv = ''127.0.0.1:1'' \<and> sv_transport sv = TransportRakNet \<and>
     sv_group sv = grp \<and> sv_weight sv = (if weight = 0 then 1 else weight)) \<and>
    w_published (ds_world s') = w_published (ds_world s) @
      (if w_hasBus (ds_world s) then [(TopicServerRegistered, ServerPayload name ''127.0.0.1:1'')] else [])"
proof -
  have pk: "reg = RegisterServerPk (harness_register grp weight)" by (simp add: assms(8) harness_register_def)
  from registerBackend_state [OF assms(1-7,9) assms(10,11) [unfolded pk]] obtain b s' where
    r: "registerBackend (Inr addr) now env1 sent1 env2 sent2 (ds_secret s) name grp weight s = (Inr (ds_next s, b), s')"
      "registered_as name (harness_register grp weight) b s s'" by blast
  have "Registry_Server (ds_registry s') name = Some (srv_next (w_srv (ds_world s)))" "Server_Client s' name = Some (ds_next s)"
    using r(2) by (simp_all add: registered_as_def Registry_Server_def Server_Client_def register_server_simps(2) Let_def)
  moreover have "w_published (ds_world s') = w_published (ds_world s) @
      (if w_hasBus (ds_world s) then [(TopicServerRegistered, ServerPayload name ''127.0.0.1:1'')] else [])"
    using r(2) by (simp add: registered_as_def register_server_def harness_register_def bus_Publish_def Let_def split: prod.split)
  moreover have "w_srv (ds_world s') = w_srv (ds_world (register_server (harness_register grp weight) TransportRakNet name s))"
    "linked (ds_next s) b s'" using r(2) by (simp_all add: registered_as_def Let_def)
  ultimately show ?thesis using r(1)
    by (simp add: register_server_simps(1) take_over_def alloc_server_def server_op_defs server_New_def harness_register_def
        TransportRakNet_def Let_def split: option.split)
qed

section \<open>A network that carries everything\<close>

text \<open>Secrets, names and groups of ordinary length fit, and frames go out whole.\<close>

definition short :: "string \<Rightarrow> bool" where
  "short s \<longleftrightarrow> str_ok s \<and> length s \<le> 64"

definition carries :: "sock_env \<Rightarrow> nat \<times> io_error option \<Rightarrow> bool" where
  "carries env sent \<longleftrightarrow>
     wire_laws (se_io env) \<and>
     (\<forall>sec name. short sec \<and> short name \<longrightarrow> login_fits env sent sec name) \<and>
     (\<forall>pk. short (rs_Address pk) \<and> short (rs_Transport pk) \<and> short (rs_Group pk) \<longrightarrow>
        sendable (se_io env) (RegisterServerPk pk) \<and> whole (se_io env) (RegisterServerPk pk) sent) \<and>
     (\<forall>pk. sendable (se_io env) (SetServerDrainingPk pk) \<and> whole (se_io env) (SetServerDrainingPk pk) sent)"

definition ex_carrier :: sock_env where
  "ex_carrier = ex_sock_env\<lparr>se_write := (1000, None)\<rparr>"

lemma length_put_string: "length (put_string s) \<le> 5 + length s"
  using length_put_var [of 5 "length s"] by (simp add: put_string_def)

lemma ex_carrier_simps: "se_io ex_carrier = bedrock_wire" "se_write ex_carrier = (1000, None)"
  "se_now ex_carrier = 1" "se_readAt ex_carrier = 2"
  by (simp_all add: ex_carrier_def ex_sock_env_def)

lemma ex_carries: "carries ex_carrier (1000, None)"
proof -
  have login: "login_fits ex_carrier (1000, None) sec name" if "short sec" "short name" for sec name
    using that length_put_string [of sec] length_put_string [of name]
    by (simp add: login_fits_def ex_carrier_simps sendable_def whole_def unat_maxPacketSize AuthRequest_fits_def
        short_def AuthRequest_Marshal_def AuthResponse_Marshal_def auth_response_def bedrock_wire_def Let_def)
  have reg: "sendable bedrock_wire (RegisterServerPk pk) \<and> whole bedrock_wire (RegisterServerPk pk) (1000, None)"
    if "short (rs_Address pk)" "short (rs_Transport pk)" "short (rs_Group pk)" for pk
    using that length_put_string [of "rs_Address pk"] length_put_string [of "rs_Transport pk"]
      length_put_string [of "rs_Group pk"] length_put_var [of 5 "unat (rs_Weight pk)"]
    by (simp add: sendable_def whole_def unat_maxPacketSize RegisterServer_fits_def short_def
        RegisterServer_Marshal_def bedrock_wire_def)
  have "sendable bedrock_wire (SetServerDrainingPk pk) \<and> whole bedrock_wire (SetServerDrainingPk pk) (1000, None)" for pk
    by (simp add: sendable_def whole_def unat_maxPacketSize SetServerDraining_Marshal_def bedrock_wire_def)
  with login reg bedrock_wire_laws show ?thesis by (simp add: carries_def ex_carrier_simps)
qed

section \<open>Witnesses\<close>

definition ex_fresh :: DefaultServer where
  "ex_fresh = NewDefaultServer ''s3cret'' NewDefaultRegistry ex_world"

lemma ex_fresh_simps:
  "ds_secret ex_fresh = ''s3cret''" "ds_clients ex_fresh = Map.empty" "ds_next ex_fresh = 0"
  "\<not> Blocked addr now (ds_throttle ex_fresh)" "ds_world ex_fresh = ex_world"
  by (simp_all add: ex_fresh_def NewDefaultServer_def newAuthThrottle_def Blocked_def)

lemma short_ex: "short ''s3cret''" "short ''Lobby-1''" "short ''lobby''" "short ''127.0.0.1:1''" "short ''''"
  by (simp_all add: short_def str_ok_def)

theorem registerBackend_registers_witness:
  "\<exists>b s' r. registerBackend (Inr ''10.0.0.7:5000'') 0 ex_carrier (1000, None) ex_carrier (1000, None) ''s3cret'' ''Lobby-1''
     ''lobby'' 3 ex_fresh = (Inr (0, b), s') \<and> Registry_Server (ds_registry s') ''Lobby-1'' = Some r \<and>
     sv_weight (srv_at (w_srv (ds_world s')) r) = 3"
proof -
  have fits: "wire_laws (se_io ex_carrier)" "login_fits ex_carrier (1000, None) (ds_secret ex_fresh) ''Lobby-1''"
    using ex_carries short_ex by (simp_all add: carries_def ex_fresh_simps)
  have ex: "se_readAt ex_carrier \<le> 0 + authTimeout" "ds_secret ex_fresh \<noteq> ''''" "ds_clients ex_fresh (ToLower ''Lobby-1'') = None"
    by (simp_all add: ex_carrier_simps ex_fresh_simps authTimeout_def Second_def)
  let ?pk = "RegisterServerPk \<lparr>rs_Address = ''127.0.0.1:1'', rs_Transport = '''', rs_LegacyAuth = False,
      rs_Group = ''lobby'', rs_Weight = 3\<rparr>"
  have reg: "sendable (se_io ex_carrier) ?pk" "whole (se_io ex_carrier) ?pk (1000, None)"
    using ex_carries short_ex by (simp_all add: carries_def)
  show ?thesis
    using registerBackend_registers [OF fits ex_fresh_simps(4,4) ex refl fits(1) reg]
    by (fastforce simp: ex_fresh_simps Let_def)
qed

end
