(* ===== verification/Transport.thy ===== *)
theory Transport
  imports Servers Decimals
begin

text \<open>
  The player-facing transport (\<^verbatim>\<open>transport.go\<close>): the range of UDP ports of a NetherNet listener, and the sockets
  that building one opens and that an error on the way or \<^verbatim>\<open>Close\<close> closes.

  Sockets are handles, and the open ones a set. The outcomes of the operating system and of the libraries (a mux
  for a port, a TCP listener, a certificate) are arguments: an error, or the new handle.
\<close>

section \<open>Port ranges\<close>

text \<open>\<^verbatim>\<open>strconv.ParseUint\<close> with base 10 and 16 bits. The scan stops at the first character that is no digit or that
  takes the number out of range.\<close>

definition digit :: "char \<Rightarrow> nat option" where
  "digit c = (let n = of_char c :: nat in if 48 \<le> n \<and> n \<le> 57 then Some (n - 48) else None)"

fun ParseUint_loop :: "string \<Rightarrow> nat \<Rightarrow> string + nat" where
  "ParseUint_loop [] n = Inr n"
| "ParseUint_loop (c # cs) n =
     (case digit c of
        None \<Rightarrow> Inl ''invalid syntax''
      | Some d \<Rightarrow> if 10 * n + d > 65535 then Inl ''value out of range'' else ParseUint_loop cs (10 * n + d))"

definition ParseUint :: "string \<Rightarrow> go_error + nat" where
  "ParseUint s =
     (case (if s = [] then Inl ''invalid syntax'' else ParseUint_loop s 0) of
        Inl why \<Rightarrow> Inl (''strconv.ParseUint: parsing '' @ Quote s @ '': '' @ why)
      | Inr n \<Rightarrow> Inr n)"

record netherNetPortRange =
  pr_Min :: uint16
  pr_Max :: uint16

definition parseNetherNetPortRange :: "string \<Rightarrow> go_error + netherNetPortRange" where
  "parseNetherNetPortRange s =
     (if s = [] then Inr \<lparr>pr_Min = 0, pr_Max = 0\<rparr>
      else (case Cut s CHR ''-'' of (min_, max_, ok) \<Rightarrow>
        if \<not> ok then
          (case ParseUint s of
             Inl err \<Rightarrow> Inl (''parse port: '' @ err)
           | Inr v \<Rightarrow> Inr \<lparr>pr_Min = of_nat v, pr_Max = of_nat v\<rparr>)
        else (case ParseUint min_ of
          Inl err \<Rightarrow> Inl (''parse minimum port: '' @ err)
        | Inr minV \<Rightarrow>
            (case ParseUint max_ of
               Inl err \<Rightarrow> Inl (''parse maximum port: '' @ err)
             | Inr maxV \<Rightarrow>
                 if minV > maxV then Inl (''invalid port range: '' @ show_nat minV @ ''-'' @ show_nat maxV)
                 else Inr \<lparr>pr_Min = of_nat minV, pr_Max = of_nat maxV\<rparr>))))"

section \<open>The listener\<close>

record NetherNetOptions =
  no_TLSCertFile :: string
  no_TLSKeyFile :: string
  no_UDPPorts :: string

record netherNetListener =
  nl_l :: handle
  nl_udpMux :: "handle option"

text \<open>What the system and the libraries answer: for a mux on a port, a range of ephemeral ports, the TCP listener
  on an address, and a certificate and its key.\<close>

record net_env =
  ne_mux :: "uint16 \<Rightarrow> go_error + handle"
  ne_range :: "uint16 \<Rightarrow> uint16 \<Rightarrow> go_error option"
  ne_listen :: "string \<Rightarrow> go_error + handle"
  ne_cert :: "string \<Rightarrow> string \<Rightarrow> go_error option"

text \<open>The ports: a single port gets a mux, a wider range is set in the engine.\<close>

definition open_ports ::
  "net_env \<Rightarrow> netherNetPortRange \<Rightarrow> handle set \<Rightarrow> (go_error + handle option) \<times> handle set" where
  "open_ports env ports H =
     (if pr_Min ports \<noteq> 0 \<and> pr_Min ports = pr_Max ports then
        (case ne_mux env (pr_Min ports) of
           Inl err \<Rightarrow> (Inl (''allocate nethernet udp mux on port '' @ show_nat (unat (pr_Min ports)) @ '': '' @ err), H)
         | Inr m \<Rightarrow> (Inr (Some m), insert m H))
      else if pr_Min ports \<noteq> 0 \<or> pr_Max ports \<noteq> 0 then
        (case ne_range env (pr_Min ports) (pr_Max ports) of
           Some err \<Rightarrow> (Inl (''configure nethernet ephemeral udp port range: '' @ err), H)
         | None \<Rightarrow> (Inr None, H))
      else (Inr None, H))"

definition close_mux :: "handle option \<Rightarrow> handle set \<Rightarrow> handle set" where
  "close_mux m H = (case m of None \<Rightarrow> H | Some m \<Rightarrow> H - {m})"

text \<open>The rest of \<^verbatim>\<open>newNetherNetNetwork\<close>, whose deferred functions close the TCP listener and then the mux when an
  error is returned.\<close>

definition open_endpoint ::
  "net_env \<Rightarrow> string \<Rightarrow> NetherNetOptions \<Rightarrow> handle option \<Rightarrow> handle set \<Rightarrow>
   (go_error + netherNetListener) \<times> handle set" where
  "open_endpoint env address opts udpMux H =
     (case ne_listen env address of
        Inl err \<Rightarrow> (Inl (''listen nethernet endpoint: '' @ err), close_mux udpMux H)
      | Inr l \<Rightarrow>
          let H = insert l H in
          if no_TLSCertFile opts \<noteq> [] \<or> no_TLSKeyFile opts \<noteq> [] then
            (case ne_cert env (no_TLSCertFile opts) (no_TLSKeyFile opts) of
               Some err \<Rightarrow> (Inl (''load nethernet tls certificate: '' @ err), close_mux udpMux (H - {l}))
             | None \<Rightarrow> (Inr \<lparr>nl_l = l, nl_udpMux = udpMux\<rparr>, H))
          else (Inr \<lparr>nl_l = l, nl_udpMux = udpMux\<rparr>, H))"

definition newNetherNetNetwork ::
  "net_env \<Rightarrow> string \<Rightarrow> NetherNetOptions \<Rightarrow> handle set \<Rightarrow> (go_error + netherNetListener) \<times> handle set" where
  "newNetherNetNetwork env address opts H =
     (case parseNetherNetPortRange (no_UDPPorts opts) of
        Inl err \<Rightarrow> (Inl (''parse nethernet udp_ports: '' @ err), H)
      | Inr ports \<Rightarrow>
          (case open_ports env ports H of
             (Inl err, H) \<Rightarrow> (Inl err, H)
           | (Inr udpMux, H) \<Rightarrow> open_endpoint env address opts udpMux H))"

text \<open>\<^verbatim>\<open>errors.Join\<close>: the texts of the errors that are not nil, one to a line.\<close>

fun errors_Join :: "go_error option \<Rightarrow> go_error option \<Rightarrow> go_error option" where
  "errors_Join None f = f"
| "errors_Join e None = e"
| "errors_Join (Some e) (Some f) = Some (e @ [char_of (10 :: nat)] @ f)"

text \<open>Closing: the errors of the server, of the listener (where \<^verbatim>\<open>net.ErrClosed\<close> is not one) and of the mux. The
  handles are released whatever closing them returns.\<close>

record close_env =
  ce_server :: "go_error option"
  ce_listener :: "go_error option"
  ce_errClosed :: bool
  ce_mux :: "go_error option"

definition netherNetListener_Close ::
  "close_env \<Rightarrow> netherNetListener \<Rightarrow> handle set \<Rightarrow> go_error option \<times> handle set" where
  "netherNetListener_Close env n H =
     (let err = ce_server env;
          err = (if ce_listener env \<noteq> None \<and> \<not> ce_errClosed env then errors_Join err (ce_listener env) else err);
          err = (if nl_udpMux n \<noteq> None then errors_Join err (ce_mux env) else err)
      in (err, close_mux (nl_udpMux n) (H - {nl_l n})))"

section \<open>Ports\<close>

lemma digit_char [simp]: "d < 10 \<Longrightarrow> digit (char_of (48 + d)) = Some d"
  by (simp add: digit_def)

lemma ParseUint_loop_show:
  "ParseUint_loop (show_nat n @ t) 0 = (if n > 65535 then Inl ''value out of range'' else ParseUint_loop t n)"
proof (induction n arbitrary: t rule: show_nat.induct)
  case (1 n)
  show ?case
  proof (cases "n < 10")
    case True
    then show ?thesis by (subst show_nat.simps) simp
  next
    case False
    have n: "10 * (n div 10) + n mod 10 = n" by simp
    from False have "show_nat n @ t = show_nat (n div 10) @ char_of (48 + n mod 10) # t"
      by (subst show_nat.simps) simp
    then have "ParseUint_loop (show_nat n @ t) 0 = ParseUint_loop (show_nat (n div 10) @ char_of (48 + n mod 10) # t) 0"
      by simp
    also from False have "\<dots> = (if n div 10 > 65535 then Inl ''value out of range''
        else ParseUint_loop (char_of (48 + n mod 10) # t) (n div 10))"
      by (rule 1)
    also have "\<dots> = (if n > 65535 then Inl ''value out of range'' else ParseUint_loop t n)"
      using n by (cases "n div 10 > 65535") (auto simp del: mult_div_mod_eq)
    finally show ?thesis .
  qed
qed

lemma ParseUint_show:
  "ParseUint (show_nat n) =
     (if n > 65535 then Inl (''strconv.ParseUint: parsing '' @ Quote (show_nat n) @ '': value out of range'') else Inr n)"
  using ParseUint_loop_show [of n "[]"] by (simp add: ParseUint_def)

lemma ParseUint_loop_bound: "ParseUint_loop cs n = Inr v \<Longrightarrow> n \<le> 65535 \<Longrightarrow> v \<le> 65535"
  by (induction cs n rule: ParseUint_loop.induct) (auto split: option.splits if_splits)

lemma ParseUint_bound: "ParseUint s = Inr v \<Longrightarrow> v \<le> 65535"
  by (auto simp: ParseUint_def split: sum.splits if_splits dest: ParseUint_loop_bound)


lemma Cut_show: "Cut (show_nat m @ ''-'' @ t) CHR ''-'' = (show_nat m, t, True)"
  by (simp add: Cut_append show_nat_no_minus)

lemma of_nat_port_le: "m \<le> n \<Longrightarrow> n \<le> 65535 \<Longrightarrow> (of_nat m :: uint16) \<le> of_nat n"
  by (simp add: word_le_nat_alt unat_of_nat)

text \<open>C33: the ports of a range are read back exactly. The text \<^verbatim>\<open>lo-hi\<close> is accepted when, and only when,
  \<^verbatim>\<open>lo\<close> is at most \<^verbatim>\<open>hi\<close> and \<^verbatim>\<open>hi\<close> fits 16 bits, and then it is these two numbers.\<close>

theorem port_range_roundtrip:
  "parseNetherNetPortRange (show_nat lo @ ''-'' @ show_nat hi) = Inr r \<longleftrightarrow>
     lo \<le> hi \<and> hi \<le> 65535 \<and> r = \<lparr>pr_Min = of_nat lo, pr_Max = of_nat hi\<rparr>"
  using Cut_show [of lo "show_nat hi"] by (auto simp: parseNetherNetPortRange_def ParseUint_show)

lemma port_range_ordered:
  assumes "parseNetherNetPortRange s = Inr r"
  shows "pr_Min r \<le> pr_Max r"
  using assms by (auto simp: parseNetherNetPortRange_def of_nat_port_le ParseUint_bound
      split: if_splits prod.splits sum.splits)

section \<open>Sockets\<close>

text \<open>A new socket is not one that is open already.\<close>

definition fresh_handles :: "net_env \<Rightarrow> handle set \<Rightarrow> bool" where
  "fresh_handles env H \<longleftrightarrow>
     (\<forall>p m. ne_mux env p = Inr m \<longrightarrow> m \<notin> H) \<and> (\<forall>a l. ne_listen env a = Inr l \<longrightarrow> l \<notin> H) \<and>
     (\<forall>p m a l. ne_mux env p = Inr m \<longrightarrow> ne_listen env a = Inr l \<longrightarrow> m \<noteq> l)"

lemma open_ports_handles:
  assumes "open_ports env ports H = (r, H')"
  shows "(\<exists>err. r = Inl err \<and> H' = H) \<or> (r = Inr None \<and> H' = H) \<or>
     (\<exists>m. r = Inr (Some m) \<and> H' = insert m H \<and> (\<exists>p. ne_mux env p = Inr m))"
  using assms by (auto simp: open_ports_def split: if_splits sum.splits option.splits)

lemma open_endpoint_error:
  assumes "open_endpoint env address opts m H = (Inl err, H')"
    and "\<And>l. ne_listen env address = Inr l \<Longrightarrow> l \<notin> H"
  shows "H' = close_mux m H"
  using assms by (auto simp: open_endpoint_def Let_def split: if_splits sum.splits option.splits)

lemma open_endpoint_ok:
  assumes "open_endpoint env address opts m H = (Inr n, H')"
  shows "nl_udpMux n = m" "H' = insert (nl_l n) H" "ne_listen env address = Inr (nl_l n)"
  using assms by (auto simp: open_endpoint_def Let_def split: if_splits sum.splits option.splits)

lemma newNetherNetNetwork_error:
  assumes "fresh_handles env H" "newNetherNetNetwork env address opts H = (Inl err, H')"
  shows "H' = H"
  using assms unfolding newNetherNetNetwork_def fresh_handles_def
  by (fastforce simp: close_mux_def split: sum.splits prod.splits option.splits
      dest!: open_ports_handles open_endpoint_error)

lemma newNetherNetNetwork_ok:
  assumes "fresh_handles env H" "newNetherNetNetwork env address opts H = (Inr n, H')"
  shows "nl_l n \<in> H'" "H' - {nl_l n} - set_option (nl_udpMux n) = H"
proof -
  from assms obtain ports m H1 where
    ports: "open_ports env ports H = (Inr m, H1)" and ep: "open_endpoint env address opts m H1 = (Inr n, H')"
    by (auto simp: newNetherNetNetwork_def split: sum.splits prod.splits)
  note ok = open_endpoint_ok [OF ep]
  show "nl_l n \<in> H'" using ok by simp
  from open_ports_handles [OF ports] ok assms(1)
  show "H' - {nl_l n} - set_option (nl_udpMux n) = H"
    unfolding fresh_handles_def by (cases m) fastforce+
qed

end
