(* ===== verification/Portal.thy ===== *)
theory Portal
  imports LoadBalancer Admission Transport SessionSteps
begin

text \<open>
  The proxy itself (\<^verbatim>\<open>portal.go\<close>, \<^verbatim>\<open>options.go\<close>, \<^verbatim>\<open>status_provider.go\<close>): its options and their defaults, listening
  and closing, and the way of a player from the listener past the IP guard, the whitelist and the load balancer into a
  session.

  The interfaces of the options are datatypes of the implementations that the repository has; the balancers read the
  registry of the proxy they are installed in, as \<^verbatim>\<open>New\<close> and \<^verbatim>\<open>examples/main.go\<close> set them up. What the listener of
  \<^verbatim>\<open>gophertunnel\<close> does is an argument: listening, the next connection, closing, and \<open>disc\<close>, which disconnects a
  connection with a message.
\<close>

section \<open>Interfaces\<close>

datatype IPGuard = NopIPGuard | GuardedBy SimpleIPGuard

fun Allow :: "(string \<Rightarrow> string) \<Rightarrow> net_addr \<Rightarrow> time \<Rightarrow> IPGuard \<Rightarrow> (bool \<times> string) \<times> IPGuard" where
  "Allow C addr now NopIPGuard = (NopIPGuard_Allow addr, NopIPGuard)"
| "Allow C addr now (GuardedBy g) =
     (case SimpleIPGuard_Allow C addr now g of (r, g) \<Rightarrow> (r, GuardedBy g))"

datatype LoadBalancer = SplitLoadBalancer | GroupedLoadBalancer "string list"

fun FindServer :: "LoadBalancer \<Rightarrow> srv_heap \<Rightarrow> registry \<Rightarrow> (nat \<Rightarrow> string list) \<Rightarrow> srv_ref option" where
  "FindServer SplitLoadBalancer h reg order = SplitLoadBalancer_FindServer h reg (order 0)"
| "FindServer (GroupedLoadBalancer groups) h reg order = GroupedLoadBalancer_FindServer groups h reg order"

fun serves :: "LoadBalancer \<Rightarrow> srv_heap \<Rightarrow> srv_ref \<Rightarrow> bool" where
  "serves SplitLoadBalancer h s = True"
| "serves (GroupedLoadBalancer groups) h s = (sv_group (srv_at h s) \<in> set groups)"

interpretation any_lb: load_balancer "FindServer lb"
  "\<lambda>reg order. \<forall>i. range_order (servers reg) (order i)" "serves lb" for lb
proof
  fix reg h s and order :: "nat \<Rightarrow> string list"
  assume "\<forall>i. range_order (servers reg) (order i)" "FindServer lb h reg order = Some s"
  then show "s \<in> ran (servers reg) \<and> available h s \<and> serves lb h s"
    by (cases lb) (auto dest!: split_lb.find_Some grouped_lb.find_Some [rotated])
next
  fix reg h s and order :: "nat \<Rightarrow> string list"
  assume "\<forall>i. range_order (servers reg) (order i)" "FindServer lb h reg order = None"
    "s \<in> ran (servers reg)" "serves lb h s"
  then show "\<not> available h s"
    by (cases lb) (auto dest: split_lb.find_None grouped_lb.find_None)
qed

section \<open>Options\<close>

record Options =
  op_Address :: string
  op_Transport :: transport
  op_NetherNet :: NetherNetOptions
  op_LoadBalancer :: "LoadBalancer option"
  op_Whitelist :: "SimpleWhitelist option"
  op_IPGuard :: "IPGuard option"

record Portal =
  po_address :: string
  po_transport :: transport
  po_netherNetOpts :: NetherNetOptions
  po_listener :: "handle option"
  po_netherNet :: "netherNetListener option"
  po_serverRegistry :: registry
  po_loadBalancer :: LoadBalancer
  po_whitelist :: SimpleWhitelist
  po_ipGuard :: IPGuard
  po_world :: world

text \<open>\<^verbatim>\<open>New\<close>: the proxy makes its own registry, store and event bus.\<close>

definition portal_New :: "Options \<Rightarrow> world \<Rightarrow> Portal" where
  "portal_New opts w =
     \<lparr>po_address = op_Address opts,
      po_transport = (if op_Transport opts = '''' then TransportNetherNet else op_Transport opts),
      po_netherNetOpts = op_NetherNet opts, po_listener = None, po_netherNet = None,
      po_serverRegistry = NewDefaultRegistry,
      po_loadBalancer = (case op_LoadBalancer opts of None \<Rightarrow> SplitLoadBalancer | Some lb \<Rightarrow> lb),
      po_whitelist = (case op_Whitelist opts of None \<Rightarrow> NewSimpleWhitelist False [] | Some wl \<Rightarrow> wl),
      po_ipGuard = (case op_IPGuard opts of None \<Rightarrow> NopIPGuard | Some g \<Rightarrow> g),
      po_world = w\<lparr>w_store := NewDefaultStore, w_hasBus := True, w_published := []\<rparr>\<rparr>"

definition SetLoadBalancer :: "LoadBalancer \<Rightarrow> Portal \<Rightarrow> Portal" where
  "SetLoadBalancer lb p = p\<lparr>po_loadBalancer := lb\<rparr>"

section \<open>Listening\<close>

record listen_env =
  li_net :: net_env
  li_raknet :: "string \<Rightarrow> go_error + handle"
  li_network :: "string \<Rightarrow> go_error + handle"
  li_close :: close_env

definition Listen_nethernet :: "listen_env \<Rightarrow> Portal \<Rightarrow> handle set \<Rightarrow> (go_error option \<times> Portal) \<times> handle set" where
  "Listen_nethernet env p H =
     (case newNetherNetNetwork (li_net env) (po_address p) (po_netherNetOpts p) H of
        (Inl err, H) \<Rightarrow> ((Some err, p), H)
      | (Inr nn, H) \<Rightarrow>
          (case li_network env (po_address p) of
             Inl err \<Rightarrow> ((Some err, p), snd (netherNetListener_Close (li_close env) nn H))
           | Inr l \<Rightarrow> ((None, p\<lparr>po_listener := Some l, po_netherNet := Some nn\<rparr>), insert l H)))"

definition Listen :: "listen_env \<Rightarrow> Portal \<Rightarrow> handle set \<Rightarrow> (go_error option \<times> Portal) \<times> handle set" where
  "Listen env p H =
     (if po_transport p = TransportRakNet then
        (case li_raknet env (po_address p) of
           Inl err \<Rightarrow> ((Some err, p), H)
         | Inr l \<Rightarrow> ((None, p\<lparr>po_listener := Some l\<rparr>), insert l H))
      else if po_transport p = TransportNetherNet then Listen_nethernet env p H
      else ((Some (''portal: unknown transport '' @ Quote (po_transport p) @ '', must be '' @
              Quote TransportNetherNet @ '' or '' @ Quote TransportRakNet), p), H))"

definition Portal_Close ::
  "go_error option \<Rightarrow> close_env \<Rightarrow> Portal \<Rightarrow> handle set \<Rightarrow> go_error option \<times> handle set" where
  "Portal_Close lerr env p H =
     (case po_listener p of
        None \<Rightarrow> (None, H)
      | Some l \<Rightarrow>
          (case po_netherNet p of
             None \<Rightarrow> (lerr, H - {l})
           | Some nn \<Rightarrow>
               (case netherNetListener_Close env nn (H - {l}) of (err, H) \<Rightarrow> (errors_Join lerr err, H))))"

section \<open>Accepting players\<close>

text \<open>A connection that the listener has accepted; \<open>in_uuid\<close> is the parsed \<^verbatim>\<open>Identity\<close> of its identity data.\<close>

record incoming =
  in_conn :: conn_ref
  in_addr :: net_addr
  in_uuid :: uuid
  in_identity :: IdentityData
  in_client :: ClientData

text \<open>What \<^verbatim>\<open>Accept\<close> returns: an error and no session, an error and a session, or a session.\<close>

datatype accept_result =
    AcceptFailed go_error
  | NoServer go_error sess_ref
  | Accepted sess_ref

type_synonym disconnecter = "conn_ref \<Rightarrow> string \<Rightarrow> world \<Rightarrow> go_error option \<times> world"

definition Portal_Disconnect :: "disconnecter \<Rightarrow> conn_ref \<Rightarrow> string \<Rightarrow> Portal \<Rightarrow> go_error option \<times> Portal" where
  "Portal_Disconnect disc conn message p =
     (if po_listener p = None then (Some ''no listener to disconnect connection'', p)
      else (case disc conn message (po_world p) of (err, w) \<Rightarrow> (err, p\<lparr>po_world := w\<rparr>)))"

text \<open>The last line of \<^verbatim>\<open>Accept\<close>, and what comes before it.\<close>

definition start_session :: "(nat \<Rightarrow> string list) \<Rightarrow> incoming \<Rightarrow> Portal \<Rightarrow> accept_result \<times> Portal" where
  "start_session order c p =
     (case session_New (\<lambda>w. FindServer (po_loadBalancer p) (w_srv w) (po_serverRegistry p) order)
             (in_uuid c) (in_identity c) (in_client c) (in_conn c) (po_world p) of
        ((Some err, i), w) \<Rightarrow> (NoServer err i, p\<lparr>po_world := w\<rparr>)
      | ((None, i), w) \<Rightarrow> (Accepted i, p\<lparr>po_world := w\<rparr>))"

definition refuse :: "disconnecter \<Rightarrow> incoming \<Rightarrow> string \<Rightarrow> string \<Rightarrow> Portal \<Rightarrow> accept_result \<times> Portal" where
  "refuse disc c why m p = (AcceptFailed (why @ m), snd (Portal_Disconnect disc (in_conn c) m p))"

definition Accept ::
  "disconnecter \<Rightarrow> (string \<Rightarrow> string) \<Rightarrow> time \<Rightarrow> (nat \<Rightarrow> string list) \<Rightarrow> go_error + incoming \<Rightarrow> Portal \<Rightarrow>
   accept_result \<times> Portal" where
  "Accept disc C now order next p =
     (if po_listener p = None then (AcceptFailed ''no active listener'', p)
      else (case next of
        Inl err \<Rightarrow> (AcceptFailed err, p)
      | Inr c \<Rightarrow>
          (case Allow C (in_addr c) now (po_ipGuard p) of ((ok, m), g) \<Rightarrow>
             let p = p\<lparr>po_ipGuard := g\<rparr> in
             if \<not> ok then refuse disc c ''connection rejected by IP guard: '' m p
             else (case SimpleWhitelist_Authorize C (po_whitelist p) (id_DisplayName (in_identity c)) of (ok, m) \<Rightarrow>
               if \<not> ok then refuse disc c ''player is not whitelisted: '' m p
               else start_session order c p))))"

text \<open>The accept loop of \<^verbatim>\<open>examples/main.go\<close>: one round. A session that got no server is disconnected with the error.\<close>

definition accept_round ::
  "disconnecter \<Rightarrow> (string \<Rightarrow> string) \<Rightarrow> time \<Rightarrow> (nat \<Rightarrow> string list) \<Rightarrow> go_error + incoming \<Rightarrow> Portal \<Rightarrow> Portal" where
  "accept_round disc C now order next p =
     (case Accept disc C now order next p of
        (NoServer err i, p) \<Rightarrow>
          p\<lparr>po_world := Session_Disconnect (C (''<red>'' @ err @ ''</red>'')) now i (po_world p)\<rparr>
      | (_, p) \<Rightarrow> p)"

section \<open>The server list\<close>

record MOTDStatusProvider =
  mp_motd :: string
  mp_subMotd :: string

record ServerStatus =
  ss_ServerName :: string
  ss_ServerSubName :: string
  ss_PlayerCount :: int
  ss_MaxPlayers :: int

definition NewMOTDStatusProvider :: "string \<Rightarrow> MOTDStatusProvider" where
  "NewMOTDStatusProvider motd = \<lparr>mp_motd = motd, mp_subMotd = ''''\<rparr>"

definition MOTD :: "string \<Rightarrow> MOTDStatusProvider \<Rightarrow> MOTDStatusProvider" where
  "MOTD v p = p\<lparr>mp_motd := v\<rparr>"

definition SubMOTD :: "string \<Rightarrow> MOTDStatusProvider \<Rightarrow> MOTDStatusProvider" where
  "SubMOTD v p = p\<lparr>mp_subMotd := v\<rparr>"

definition ServerStatus_of :: "int \<Rightarrow> int \<Rightarrow> MOTDStatusProvider \<Rightarrow> ServerStatus" where
  "ServerStatus_of playerCount maxPlayers p =
     \<lparr>ss_ServerName = mp_motd p, ss_ServerSubName = mp_subMotd p, ss_PlayerCount = playerCount,
      ss_MaxPlayers = maxPlayers\<rparr>"

section \<open>Sockets of the proxy\<close>

text \<open>New sockets are new, also those of the listeners.\<close>

definition fresh_listen :: "listen_env \<Rightarrow> handle set \<Rightarrow> bool" where
  "fresh_listen env H \<longleftrightarrow> fresh_handles (li_net env) H \<and>
     (\<forall>a l. li_raknet env a = Inr l \<longrightarrow> l \<notin> H) \<and>
     (\<forall>a l. li_network env a = Inr l \<longrightarrow>
        l \<notin> H \<and> (\<forall>b. ne_listen (li_net env) b \<noteq> Inr l) \<and> (\<forall>q. ne_mux (li_net env) q \<noteq> Inr l))"

lemma close_mux_eq: "close_mux m H = H - set_option m"
  by (cases m) (auto simp: close_mux_def)

lemma newNetherNetNetwork_handles:
  assumes "newNetherNetNetwork env address opts H = (Inr n, H')"
  shows "H' \<subseteq> H \<union> {l. \<exists>a. ne_listen env a = Inr l} \<union> {m. \<exists>q. ne_mux env q = Inr m}"
proof -
  from assms obtain ports m H1 where
    ports: "open_ports env ports H = (Inr m, H1)" and ep: "open_endpoint env address opts m H1 = (Inr n, H')"
    by (auto simp: newNetherNetNetwork_def split: sum.splits prod.splits)
  from open_ports_handles [OF ports] open_endpoint_ok(2,3) [OF ep] show ?thesis by auto
qed

lemma Listen_nethernet_cases:
  assumes "fresh_listen env H" "Listen_nethernet env p H = ((r, p'), H')"
  shows "(r \<noteq> None \<and> p' = p \<and> H' = H) \<or>
    (r = None \<and> (\<exists>l nn. p' = p\<lparr>po_listener := Some l, po_netherNet := Some nn\<rparr> \<and>
       H' - {l} - {nl_l nn} - set_option (nl_udpMux nn) = H))"
proof (cases "newNetherNetNetwork (li_net env) (po_address p) (po_netherNetOpts p) H")
  case (Pair q H1)
  from assms(1) have fresh: "fresh_handles (li_net env) H" by (simp add: fresh_listen_def)
  show ?thesis
  proof (cases q)
    case (Inl err)
    with Pair newNetherNetNetwork_error [OF fresh, of "po_address p" "po_netherNetOpts p" err H1] assms(2)
    show ?thesis by (auto simp: Listen_nethernet_def)
  next
    case (Inr nn)
    note ok = newNetherNetNetwork_ok [OF fresh Pair [unfolded Inr]]
    show ?thesis
    proof (cases "li_network env (po_address p)")
      case (Inl err)
      with Pair Inr ok assms(2) show ?thesis
        by (auto simp: Listen_nethernet_def netherNetListener_Close_def close_mux_eq Let_def)
    next
      case (Inr l)
      with assms(1) newNetherNetNetwork_handles [OF Pair [unfolded \<open>q = Inr nn\<close>]] have "l \<notin> H1"
        by (auto simp: fresh_listen_def)
      with Inr Pair \<open>q = Inr nn\<close> ok assms(2) show ?thesis
        by (auto simp: Listen_nethernet_def)
    qed
  qed
qed

text \<open>C26: listening leaks no socket. When \<^verbatim>\<open>Listen\<close> returns an error, from whatever step, the proxy and the set of
  open sockets are as before; when it succeeds, closing the proxy, whatever errors that meets, closes every socket
  that listening opened.\<close>

theorem Listen_leaks_nothing:
  assumes "fresh_listen env H" "po_listener p = None" "po_netherNet p = None"
    and "Listen env p H = ((r, p'), H')"
  shows "(if r = None then snd (Portal_Close lerr cenv p' H') = H else p' = p \<and> H' = H) \<and>
    (r = None \<longrightarrow> po_listener p' \<noteq> None)"
proof (cases "po_transport p = TransportNetherNet")
  case True
  then have "Listen env p H = Listen_nethernet env p H"
    by (simp add: Listen_def TransportRakNet_def TransportNetherNet_def)
  with Listen_nethernet_cases [OF assms(1)] assms(4) show ?thesis
    by (fastforce simp: Portal_Close_def netherNetListener_Close_def close_mux_eq Let_def split: prod.splits)
next
  case False
  with assms show ?thesis
    by (auto simp: Listen_def Portal_Close_def fresh_listen_def split: if_splits sum.splits)
qed

section \<open>Admission\<close>

lemma start_session_Accepted:
  assumes "\<forall>k. range_order (servers (po_serverRegistry p)) (order k)"
  shows "(\<exists>i. fst (start_session order c p) = Accepted i) \<longleftrightarrow>
    (\<exists>s \<in> ran (servers (po_serverRegistry p)).
       available (w_srv (po_world p)) s \<and> serves (po_loadBalancer p) (w_srv (po_world p)) s)"
proof -
  have srv: "w_srv (New_stored u ident cd k w) = w_srv w" for u ident cd k w
    by (simp add: New_stored_def Let_def)
  show ?thesis
  proof (cases "FindServer (po_loadBalancer p) (w_srv (po_world p)) (po_serverRegistry p) order")
    case None
    with any_lb.find_None [OF assms None] show ?thesis
      by (auto simp: start_session_def session_New_def Let_def srv)
  next
    case (Some s)
    with any_lb.find_Some [OF assms Some] show ?thesis
      by (auto simp: start_session_def session_New_def Let_def srv)
  qed
qed

lemma Accept_open:
  assumes "po_listener p \<noteq> None"
  shows "Accept disc C now order (Inr c) p =
    (let p' = p\<lparr>po_ipGuard := snd (Allow C (in_addr c) now (po_ipGuard p))\<rparr>;
         (ok, m) = fst (Allow C (in_addr c) now (po_ipGuard p));
         (ok', m') = SimpleWhitelist_Authorize C (po_whitelist p) (id_DisplayName (in_identity c)) in
     if \<not> ok then refuse disc c ''connection rejected by IP guard: '' m p'
     else if \<not> ok' then refuse disc c ''player is not whitelisted: '' m' p'
     else start_session order c p')"
  using assms by (auto simp: Accept_def Let_def split: prod.splits)

text \<open>C14: who gets in. While the proxy listens, a connection becomes a session exactly when the IP guard allows its
  address, the whitelist its name, and some registered server that the load balancer serves is available, that is,
  healthy and not draining.\<close>

theorem Accept_admits_exactly:
  assumes "po_listener p \<noteq> None" "\<forall>k. range_order (servers (po_serverRegistry p)) (order k)"
  shows "(\<exists>i. fst (Accept disc C now order (Inr c) p) = Accepted i) \<longleftrightarrow>
    fst (fst (Allow C (in_addr c) now (po_ipGuard p))) \<and>
    fst (SimpleWhitelist_Authorize C (po_whitelist p) (id_DisplayName (in_identity c))) \<and>
    (\<exists>s \<in> ran (servers (po_serverRegistry p)).
       available (w_srv (po_world p)) s \<and> serves (po_loadBalancer p) (w_srv (po_world p)) s)"
  using assms start_session_Accepted [of "p\<lparr>po_ipGuard := snd (Allow C (in_addr c) now (po_ipGuard p))\<rparr>" order c]
  by (auto simp: Accept_open refuse_def Let_def split: prod.splits)

text \<open>The world after a connection was accepted.\<close>

lemma Accept_world:
  assumes "Accept disc C now order (Inr c) p = (Accepted i, p')"
  obtains s where
    "FindServer (po_loadBalancer p) (w_srv (po_world p)) (po_serverRegistry p) order = Some s"
    "i = w_next (po_world p)"
    "po_world p' = upd_sess i (s_server_update (\<lambda>_. Some s))
       ((New_stored (in_uuid c) (in_identity c) (in_client c) (in_conn c) (po_world p))
          \<lparr>w_srv := IncrementPlayerCount s (w_srv (po_world p))\<rparr>)"
proof -
  from assms have "po_listener p \<noteq> None" by (auto simp: Accept_def split: if_splits)
  with assms have "start_session order c (p\<lparr>po_ipGuard := snd (Allow C (in_addr c) now (po_ipGuard p))\<rparr>) = (Accepted i, p')"
    by (auto simp: Accept_open refuse_def Let_def split: prod.splits if_splits)
  moreover have "w_srv (New_stored u ident cd k w) = w_srv w" for u ident cd k w
    by (simp add: New_stored_def Let_def)
  ultimately show ?thesis
    using that by (auto simp: start_session_def session_New_def Let_def split: option.splits)
qed

lemma Accept_stored:
  assumes "Accept disc C now order (Inr c) p = (Accepted i, p')"
  shows "Store_Load (w_store (po_world p')) (in_uuid c) = Some i"
    "Store_LoadFromName (w_store (po_world p')) (id_DisplayName (in_identity c)) = Some i"
    "w_next (po_world p') = i + 1"
  by (rule Accept_world [OF assms]; simp add: New_stored_def Store_Store_def Store_Load_def Store_LoadFromName_def
      fresh_session_def upd_sess_def Let_def)+

text \<open>Where a player lands. A connection that is accepted becomes a session that the store finds under the
  player's UUID and name, on a registered server that is available; that server counts one player more and every
  other server as many as before.\<close>

lemma Accept_starts_session:
  assumes "\<forall>k. range_order (servers (po_serverRegistry p)) (order k)"
    and "Accept disc C now order (Inr c) p = (Accepted i, p')"
  shows "Store_Load (w_store (po_world p')) (in_uuid c) = Some i \<and>
    Store_LoadFromName (w_store (po_world p')) (id_DisplayName (in_identity c)) = Some i \<and>
    (\<exists>s \<in> ran (servers (po_serverRegistry p)).
       s_server (w_sess (po_world p') i) = Some s \<and> available (w_srv (po_world p)) s \<and>
       (\<forall>r. PlayerCount (w_srv (po_world p')) r = PlayerCount (w_srv (po_world p)) r + of_bool (r = s)))"
proof -
  obtain s where s: "FindServer (po_loadBalancer p) (w_srv (po_world p)) (po_serverRegistry p) order = Some s"
      "po_world p' = upd_sess i (s_server_update (\<lambda>_. Some s))
         ((New_stored (in_uuid c) (in_identity c) (in_client c) (in_conn c) (po_world p))
            \<lparr>w_srv := IncrementPlayerCount s (w_srv (po_world p))\<rparr>)"
    by (rule Accept_world [OF assms(2)])
  have "PlayerCount (IncrementPlayerCount s h) r = PlayerCount h r + of_bool (r = s)" for h r
    by (simp add: PlayerCount_def IncrementPlayerCount_def upd_server_def)
  with s Accept_stored [OF assms(2)] any_lb.find_Some [OF assms(1) s(1)] show ?thesis
    by (auto simp: upd_sess_def)
qed

text \<open>C40: a join that finds no server hides the session the player already has. When a player who is connected
  connects again and the load balancer has no server, the new session takes the old one's place in the store and is
  then deleted from it: the old session goes on as it was, open and on its server, but neither its UUID nor its name
  finds it.\<close>

theorem failed_join_hides_the_first_session:
  assumes "Store_Load (w_store (po_world p)) (in_uuid c) = Some j" "j < w_next (po_world p)"
    and "Accept disc C now order (Inr c) p = (NoServer err i, p')"
  shows "Store_Load (w_store (po_world p')) (in_uuid c) = None \<and>
    Store_LoadFromName (w_store (po_world p')) (id_DisplayName (in_identity c)) = None \<and>
    w_sess (po_world p') j = w_sess (po_world p) j \<and> w_srv (po_world p') = w_srv (po_world p)"
proof -
  define p1 where "p1 = p\<lparr>po_ipGuard := snd (Allow C (in_addr c) now (po_ipGuard p))\<rparr>"
  from assms(3) have "po_listener p \<noteq> None" by (auto simp: Accept_def split: if_splits)
  with assms(3) have start: "start_session order c p1 = (NoServer err i, p')"
    by (auto simp: Accept_open refuse_def p1_def Let_def split: prod.splits if_splits)
  then have "po_world p' = store_Delete (w_next (po_world p))
      (New_stored (in_uuid c) (in_identity c) (in_client c) (in_conn c) (po_world p))"
    by (auto simp: start_session_def session_New_def p1_def Let_def split: option.splits)
  with assms(2) show ?thesis
    by (simp add: store_Delete_def New_stored_def Store_Store_def Store_Delete_def Store_Load_def
        Store_LoadFromName_def fresh_session_def Let_def)
qed

section \<open>Witnesses\<close>

text \<open>A proxy that guards against one address and admits one player; its server is the lobby of \<open>ex_world\<close>.\<close>

definition ex_options :: Options where
  "ex_options = \<lparr>op_Address = '':19132'', op_Transport = '''',
     op_NetherNet = \<lparr>no_TLSCertFile = [], no_TLSKeyFile = [], no_UDPPorts = ''19133''\<rparr>,
     op_LoadBalancer = None, op_Whitelist = Some (NewSimpleWhitelist True [''Steve'']),
     op_IPGuard = Some (GuardedBy (NewSimpleIPGuard [''10.0.0.9''] False 0 0))\<rparr>"

definition ex_listen :: listen_env where
  "ex_listen = \<lparr>li_net = \<lparr>ne_mux = (\<lambda>p. Inr 11), ne_range = (\<lambda>a b. None), ne_listen = (\<lambda>a. Inr 12),
       ne_cert = (\<lambda>c k. None)\<rparr>,
     li_raknet = (\<lambda>a. Inr 13), li_network = (\<lambda>a. Inr 14),
     li_close = \<lparr>ce_server = None, ce_listener = None, ce_errClosed = False, ce_mux = None\<rparr>\<rparr>"

definition ex_portal :: Portal where
  "ex_portal = (portal_New ex_options ex_world)
     \<lparr>po_listener := Some 14, po_serverRegistry := \<lparr>servers = [''lobby'' \<mapsto> 0]\<rparr>\<rparr>"

definition ex_incoming :: incoming where
  "ex_incoming = \<lparr>in_conn = 100, in_addr = OtherAddr ''10.0.0.1:4000'', in_uuid = 7,
     in_identity = \<lparr>id_XUID = ''253'', id_DisplayName = ''Steve''\<rparr>,
     in_client = \<lparr>cd_PlatformOnlineID = [], cd_PlatformOfflineID = [], cd_PlayFabID = [], cd_ThirdPartyName = []\<rparr>\<rparr>"

lemma portal_New_listener [simp]: "po_listener (portal_New opts w) = None" "po_netherNet (portal_New opts w) = None"
  by (simp_all add: portal_New_def)

lemma ex_Listen:
  "Listen ex_listen (portal_New ex_options ex_world) {} =
     ((None, (portal_New ex_options ex_world)\<lparr>po_listener := Some 14, po_netherNet := Some \<lparr>nl_l = 12, nl_udpMux = Some 11\<rparr>\<rparr>),
      {11, 12, 14})"
proof -
  have "ParseUint ''19133'' = Inr 19133" "Cut ''19133'' CHR ''-'' = (''19133'', [], False)"
    by (simp_all add: ParseUint_def digit_def)
  then have "newNetherNetNetwork (li_net ex_listen) '':19132'' (op_NetherNet ex_options) {} =
      (Inr \<lparr>nl_l = 12, nl_udpMux = Some 11\<rparr>, {11, 12})"
    by (auto simp: newNetherNetNetwork_def parseNetherNetPortRange_def open_ports_def open_endpoint_def ex_listen_def
        ex_options_def)
  then show ?thesis
    by (auto simp: Listen_def Listen_nethernet_def portal_New_def ex_options_def ex_listen_def TransportNetherNet_def
        TransportRakNet_def)
qed

theorem Listen_leaks_nothing_witness:
  "fst (fst (Listen ex_listen (portal_New ex_options ex_world) {})) = None \<and>
   snd (Portal_Close None (li_close ex_listen) (snd (fst (Listen ex_listen (portal_New ex_options ex_world) {})))
     (snd (Listen ex_listen (portal_New ex_options ex_world) {}))) = {}"
proof -
  have "fresh_listen ex_listen {}" by (simp add: fresh_listen_def fresh_handles_def ex_listen_def)
  from Listen_leaks_nothing [OF this _ _ ex_Listen, of None "li_close ex_listen"] show ?thesis
    by (simp add: ex_Listen)
qed

lemma ex_order: "\<forall>k :: nat. range_order (servers (po_serverRegistry ex_portal)) [''lobby'']"
  by (simp add: ex_portal_def range_order_def)

lemma ex_admission:
  "po_listener ex_portal \<noteq> None"
  "fst (Allow (\<lambda>s. s) (in_addr ex_incoming) 0 (po_ipGuard ex_portal)) = (True, '''')"
  "SimpleWhitelist_Authorize (\<lambda>s. s) (po_whitelist ex_portal) (id_DisplayName (in_identity ex_incoming)) = (True, '''')"
proof -
  have "fst (Allow (\<lambda>s. s) (OtherAddr ''10.0.0.1:4000'') 0 (GuardedBy (NewSimpleIPGuard [''10.0.0.9''] False 0 0))) = (True, '''')"
    by code_simp
  then show "fst (Allow (\<lambda>s. s) (in_addr ex_incoming) 0 (po_ipGuard ex_portal)) = (True, '''')"
    by (simp add: ex_portal_def portal_New_def ex_options_def ex_incoming_def)
  have "SimpleWhitelist_Authorize (\<lambda>s. s) (NewSimpleWhitelist True [''Steve'']) ''Steve'' = (True, '''')"
    by code_simp
  then show "SimpleWhitelist_Authorize (\<lambda>s. s) (po_whitelist ex_portal) (id_DisplayName (in_identity ex_incoming)) = (True, '''')"
    by (simp add: ex_portal_def portal_New_def ex_options_def ex_incoming_def)
qed (simp add: ex_portal_def)

lemma ex_lobby: "0 \<in> ran (servers (po_serverRegistry ex_portal))" "available (w_srv (po_world ex_portal)) 0"
  "serves (po_loadBalancer ex_portal) (w_srv (po_world ex_portal)) 0"
  by (simp_all add: ex_portal_def portal_New_def ex_options_def ex_world_def available_def Draining_def Healthy_def
      server_New_def)

theorem Accept_admits_exactly_witness:
  "\<exists>i. fst (Accept (\<lambda>_ _ w. (None, w)) (\<lambda>s. s) 0 (\<lambda>_. [''lobby'']) (Inr ex_incoming) ex_portal) = Accepted i"
proof -
  have "fst (fst (Allow (\<lambda>s. s) (in_addr ex_incoming) 0 (po_ipGuard ex_portal)))" using ex_admission(2) by simp
  moreover have "fst (SimpleWhitelist_Authorize (\<lambda>s. s) (po_whitelist ex_portal) (id_DisplayName (in_identity ex_incoming)))"
    using ex_admission(3) by simp
  ultimately show ?thesis
    unfolding Accept_admits_exactly [OF ex_admission(1) ex_order] using ex_lobby by blast
qed

text \<open>The second connection of the player, once the lobby drains.\<close>

definition ex_accepted_portal :: Portal where
  "ex_accepted_portal = snd (Accept (\<lambda>_ _ w. (None, w)) (\<lambda>s. s) 0 (\<lambda>_. [''lobby'']) (Inr ex_incoming) ex_portal)"

lemma ex_Accept:
  "Accept (\<lambda>_ _ w. (None, w)) (\<lambda>s. s) 0 (\<lambda>_. [''lobby'']) (Inr ex_incoming) ex_portal = (Accepted 0, ex_accepted_portal)"
proof -
  have "FindServer (po_loadBalancer ex_portal) (w_srv (po_world ex_portal)) (po_serverRegistry ex_portal) (\<lambda>_. [''lobby'']) = Some 0"
  proof (rule any_lb.find_total [OF ex_order ex_lobby])
    fix t
    assume t: "FindServer (po_loadBalancer ex_portal) (w_srv (po_world ex_portal)) (po_serverRegistry ex_portal) (\<lambda>_. [''lobby'']) = Some t"
    from any_lb.find_Some [OF ex_order t] have "t = 0" by (simp add: ex_portal_def)
    with t show ?thesis by simp
  qed
  then have "fst (start_session (\<lambda>_. [''lobby'']) ex_incoming
      (ex_portal\<lparr>po_ipGuard := snd (Allow (\<lambda>s. s) (in_addr ex_incoming) 0 (po_ipGuard ex_portal))\<rparr>)) = Accepted 0"
    by (simp add: start_session_def session_New_def New_stored_def Let_def)
       (simp add: ex_portal_def portal_New_def ex_world_def)
  then show ?thesis
    by (simp add: ex_accepted_portal_def Accept_open [OF ex_admission(1)] ex_admission(2,3) prod_eq_iff)
qed

definition ex_draining_portal :: Portal where
  "ex_draining_portal = ex_accepted_portal\<lparr>po_world := (po_world ex_accepted_portal)
     \<lparr>w_srv := SetDraining 0 True (w_srv (po_world ex_accepted_portal))\<rparr>\<rparr>"

lemma ex_accepted_portal_fields:
  "po_listener ex_accepted_portal = Some 14" "po_whitelist ex_accepted_portal = po_whitelist ex_portal"
  "po_ipGuard ex_accepted_portal = po_ipGuard ex_portal" "po_serverRegistry ex_accepted_portal = po_serverRegistry ex_portal"
  "po_loadBalancer ex_accepted_portal = SplitLoadBalancer"
proof -
  have guard: "snd (Allow C a t (po_ipGuard ex_portal)) = po_ipGuard ex_portal" for C a t
    by (simp add: ex_portal_def portal_New_def ex_options_def SimpleIPGuard_Allow_def NewSimpleIPGuard_def Let_def)
  have "\<exists>w. ex_accepted_portal = ex_portal\<lparr>po_world := w\<rparr>"
    by (auto simp: ex_accepted_portal_def Accept_open [OF ex_admission(1)] ex_admission(2,3) guard start_session_def
        split: prod.split option.split)
  then obtain w where e: "ex_accepted_portal = ex_portal\<lparr>po_world := w\<rparr>" by blast
  show "po_listener ex_accepted_portal = Some 14" "po_whitelist ex_accepted_portal = po_whitelist ex_portal"
    "po_ipGuard ex_accepted_portal = po_ipGuard ex_portal" "po_serverRegistry ex_accepted_portal = po_serverRegistry ex_portal"
    "po_loadBalancer ex_accepted_portal = SplitLoadBalancer"
    unfolding e by (simp_all add: ex_portal_def portal_New_def ex_options_def)
qed

lemma ex_Accept_again:
  obtains err i p' where
    "Accept (\<lambda>_ _ w. (None, w)) (\<lambda>s. s) 0 (\<lambda>_. [''lobby'']) (Inr ex_incoming) ex_draining_portal = (NoServer err i, p')"
proof -
  note f = ex_accepted_portal_fields
  let ?p = "ex_draining_portal\<lparr>po_ipGuard := snd (Allow (\<lambda>s. s) (in_addr ex_incoming) 0 (po_ipGuard ex_draining_portal))\<rparr>"
  have "Accept (\<lambda>_ _ w. (None, w)) (\<lambda>s. s) 0 (\<lambda>_. [''lobby'']) (Inr ex_incoming) ex_draining_portal =
      start_session (\<lambda>_. [''lobby'']) ex_incoming ?p"
    using ex_admission(2,3) by (simp add: Accept_open f ex_draining_portal_def)
  moreover have "SplitLoadBalancer_FindServer (SetDraining 0 True h) (po_serverRegistry ex_portal) [''lobby''] = None" for h
    by (simp add: SplitLoadBalancer_FindServer_def ex_portal_def Servers_def range_vals_def leastLoaded_def
        Draining_def SetDraining_def upd_server_def List.map_filter_def)
  ultimately show ?thesis
    using that by (simp add: start_session_def session_New_def New_stored_def Let_def f ex_draining_portal_def)
qed

theorem failed_join_hides_the_first_session_witness:
  "\<exists>err i p'. Accept (\<lambda>_ _ w. (None, w)) (\<lambda>s. s) 0 (\<lambda>_. [''lobby'']) (Inr ex_incoming) ex_draining_portal =
      (NoServer err i, p') \<and>
    Store_Load (w_store (po_world ex_draining_portal)) 7 = Some 0 \<and> Store_Load (w_store (po_world p')) 7 = None"
proof -
  obtain err i p' where a: "Accept (\<lambda>_ _ w. (None, w)) (\<lambda>s. s) 0 (\<lambda>_. [''lobby'']) (Inr ex_incoming) ex_draining_portal =
      (NoServer err i, p')" by (rule ex_Accept_again)
  have u: "in_uuid ex_incoming = 7" by (simp add: ex_incoming_def)
  show ?thesis
    using failed_join_hides_the_first_session [OF _ _ a, of 0] a Accept_stored [OF ex_Accept]
    by (auto simp: u ex_draining_portal_def)
qed

end
