(* ===== verification/StoreSteps.thy ===== *)
theory StoreSteps
  imports SessionSteps
begin

text \<open>
  The session store in the running system: whatever the sessions do, the store holds only open sessions, each under
  its own UUID. A session leaves the store when it closes, unless another session of the player has taken its place.
\<close>

section \<open>Closing\<close>

lemma close_parts_store [simp]:
  "w_store (close_transfer now i w) = w_store w" "w_store (announce_quit i w) = w_store w"
  "w_store (close_conns i w) = w_store w" "w_store (leave_server i w) = w_store w"
  by (simp_all add: close_transfer_def announce_quit_def close_conns_def leave_server_def split: option.split)

lemma close_parts_sent [simp]:
  "w_sent (completeTransfer err now i w) = w_sent w" "w_sent (close_transfer now i w) = w_sent w"
  "w_sent (announce_quit i w) = w_sent w" "w_sent (store_Delete i w) = w_sent w"
  "w_sent (close_conns i w) = w_sent w" "w_sent (leave_server i w) = w_sent w"
  by (simp_all add: completeTransfer_def publishTransfer_def close_transfer_def announce_quit_def store_Delete_def
      close_conns_def close_opt_def leave_server_def split: option.split)

lemma close_parts_closed [simp]:
  "w_closed (completeTransfer err now i w) = w_closed w" "w_closed (close_transfer now i w) = w_closed w"
  "w_closed (announce_quit i w) = w_closed w" "w_closed (store_Delete i w) = w_closed w"
  "w_closed (leave_server i w) = w_closed w"
  by (simp_all add: completeTransfer_def publishTransfer_def close_transfer_def announce_quit_def store_Delete_def
      leave_server_def split: option.split)

lemma Close_sent: "w_sent (Close now i w) = w_sent w"
  by (simp add: Close_def)

lemma Store_Delete_cong: "u i = u' i \<Longrightarrow> n i = n' i \<Longrightarrow> Store_Delete u n i st = Store_Delete u' n' i st"
  by (simp add: Store_Delete_def)

lemma Close_store:
  "w_store (Close now i w) =
     (if s_once (w_sess w i) then w_store w else Store_Delete (uuid_of w) (displayName w) i (w_store w))"
  by (auto simp: Close_def store_Delete_def intro!: Store_Delete_cong)

lemma close_conns_closed:
  "w_closed (close_conns i w) = insert (s_conn (w_sess w i))
     (set_option (s_serverConn (w_sess w i)) \<union> set_option (s_tempServerConn (w_sess w i)) \<union> w_closed w)"
  by (auto simp: close_conns_def close_opt_def close_conn_def split: option.split)

lemma Close_closed:
  "\<not> s_once (w_sess w i) \<Longrightarrow> w_closed (Close now i w) = insert (s_conn (w_sess w i))
     (set_option (s_serverConn (w_sess w i)) \<union> set_option (s_tempServerConn (w_sess w i)) \<union> w_closed w)"
  by (simp add: Close_def close_conns_closed)

section \<open>What a step does to the store\<close>

text \<open>A step of session \<open>i\<close> keeps the store and whether the session is closed, or it closes the session and deletes it
  from the store.\<close>

definition released :: "sess_ref \<Rightarrow> world \<Rightarrow> world \<Rightarrow> bool" where
  "released i w w' \<longleftrightarrow>
     w_next w' = w_next w \<and>
     (\<exists>s'. w_sess w' = (w_sess w)(i := s') \<and> s_uuid s' = uuid_of w i \<and> s_identity s' = s_identity (w_sess w i) \<and>
        (w_store w' = w_store w \<and> s_once s' = s_once (w_sess w i) \<or>
         w_store w' = Store_Delete (uuid_of w) (displayName w) i (w_store w) \<and> s_once s'))"

lemma releasedI:
  assumes "w_next w' = w_next w" "w_sess w' = (w_sess w)(i := s')" "s_uuid s' = uuid_of w i"
    "s_identity s' = s_identity (w_sess w i)" "w_store w' = w_store w" "s_once s' = s_once (w_sess w i)"
  shows "released i w w'"
  using assms unfolding released_def by blast

lemma released_refl: "released i w w"
  by (rule releasedI [where s' = "w_sess w i"]) simp_all

lemma Store_Delete_idem: "Store_Delete u n i (Store_Delete u n i st) = Store_Delete u n i st"
  by (simp add: Store_Delete_def)

lemma released_trans:
  assumes "released i w w'" "released i w' w''"
  shows "released i w w''"
proof -
  obtain s' where w': "w_next w' = w_next w" "w_sess w' = (w_sess w)(i := s')" "s_uuid s' = uuid_of w i"
    "s_identity s' = s_identity (w_sess w i)"
    "w_store w' = w_store w \<and> s_once s' = s_once (w_sess w i) \<or>
     w_store w' = Store_Delete (uuid_of w) (displayName w) i (w_store w) \<and> s_once s'"
    using assms(1) unfolding released_def by blast
  obtain s'' where w'': "w_next w'' = w_next w'" "w_sess w'' = (w_sess w')(i := s'')" "s_uuid s'' = uuid_of w' i"
    "s_identity s'' = s_identity (w_sess w' i)"
    "w_store w'' = w_store w' \<and> s_once s'' = s_once (w_sess w' i) \<or>
     w_store w'' = Store_Delete (uuid_of w') (displayName w') i (w_store w') \<and> s_once s''"
    using assms(2) unfolding released_def by blast
  have del: "Store_Delete (uuid_of w') (displayName w') i st = Store_Delete (uuid_of w) (displayName w) i st" for st
    by (rule Store_Delete_cong) (simp_all add: w'(2-4))
  have "w_store w'' = w_store w \<and> s_once s'' = s_once (w_sess w i) \<or>
      w_store w'' = Store_Delete (uuid_of w) (displayName w) i (w_store w) \<and> s_once s''"
  proof -
    have "w_sess w' i = s'" using w'(2) by simp
    with w'(5) w''(5) [unfolded del] show ?thesis by (auto simp only: Store_Delete_idem)
  qed
  moreover have "w_sess w'' = (w_sess w)(i := s'')" "s_uuid s'' = uuid_of w i" "s_identity s'' = s_identity (w_sess w i)"
    "w_next w'' = w_next w"
    using w' w'' by simp_all
  ultimately show ?thesis unfolding released_def by blast
qed

lemmas released_then = released_trans [rotated]

lemma released_upd:
  "(\<And>s. s_once (f s) = s_once s) \<Longrightarrow> (\<And>s. s_uuid (f s) = s_uuid s) \<Longrightarrow> (\<And>s. s_identity (f s) = s_identity s) \<Longrightarrow>
   released i w (upd_sess i f w)"
  by (rule releasedI [where s' = "f (w_sess w i)"]) simp_all

lemma released_silent:
  "w_next w' = w_next w \<Longrightarrow> w_sess w' = w_sess w \<Longrightarrow> w_store w' = w_store w \<Longrightarrow> released i w w'"
  by (rule releasedI [where s' = "w_sess w i"]) simp_all

named_theorems rel_intros \<open>steps of a session keep or release its entry in the store\<close>

lemma released_write [rel_intros]: "released i w (write_conn c pk w)" by (rule released_silent) simp_all
lemma released_write_all [rel_intros]: "released i w (write_all c pks w)" by (rule released_silent) simp_all
lemma released_close_conn [rel_intros]: "released i w (close_conn c w)" by (rule released_silent) simp_all
lemma released_bus [rel_intros]: "released i w (bus_Publish t p w)" by (rule released_silent) simp_all
lemma released_PreTransfer [rel_intros]: "released i w (PreTransfer srv i w)"
  by (rule released_silent) (simp_all add: PreTransfer_def)

lemma released_complete [rel_intros]: "released i w (completeTransfer err now i w)"
  by (rule releasedI [where s' = "(w_sess w i)\<lparr>s_transferDone := None\<rparr>"]) simp_all

lemma released_setTransferring [rel_intros]: "released i w (setTransferring v i w)"
  unfolding setTransferring_def by (rule released_upd) simp_all

lemma released_Close [rel_intros]: "released i w (Close now i w)"
  unfolding released_def using Close_sess [of now i w] Close_store [of now i w]
  by (intro conjI exI [of _ "closed_session (w_sess w i)"]) (auto simp: closed_session_def)

lemma released_Disconnect [rel_intros]: "released i w (Session_Disconnect m now i w)"
  unfolding Session_Disconnect_def by (rule released_then [OF released_Close released_write])

lemma released_fail [rel_intros]: "released i w (snd (fail_transfer err now i w))"
  unfolding fail_transfer_def snd_conv by (rule released_then [OF released_complete released_setTransferring])

lemma released_finish [rel_intros]: "released i w (snd (finishTransferDimensionChange sched co f i w))"
proof (cases "s_tempServerConn (w_sess w i)")
  case None
  then show ?thesis by (simp add: finishTransferDimensionChange_def released_refl)
next
  case (Some temp)
  obtain g w' where w': "finishTransferDimensionChange sched co f i w = (g, w')" by fastforce
  note eff = finish_effects [OF Some w']
  have "w_store w' = w_store w"
    using w' Some
    by (auto simp: finishTransferDimensionChange_def finish_servers_def finish_client_def Let_def split: option.splits prod.splits)
  then have "released i w w'"
    by (intro releasedI [OF eff(2,5)]) (simp_all add: finished_session_def)
  with w' show ?thesis by simp
qed

lemma released_begin [rel_intros]: "released i w (snd (Transfer_begin srv start i w))"
  by (auto simp: Transfer_begin_def Let_def released_refl split: option.split
      intro!: released_then [OF released_upd] released_upd)

lemma released_connected [rel_intros]: "released i w (snd (Transfer_connected env srv conn i w))"
  by (auto simp: Transfer_connected_def Let_def split: option.split
      intro!: released_upd released_then [OF released_write_all])

lemma released_before_dial [rel_intros]: "released i w (before_dial srv i w)"
  by (auto simp: before_dial_def intro!: released_then [OF released_PreTransfer] released_then [OF released_write]
      released_upd released_refl)

lemma released_fold_close [rel_intros]: "released i w (fold close_conn cs w)"
  by (induction cs arbitrary: w) (auto intro: released_refl released_then [OF _ released_close_conn])

lemma released_continue [rel_intros]: "released i w (snd (Transfer_continue env srv i w))"
proof (cases rule: Transfer_continue_cases [of env srv i w])
  case (fail err conns)
  show ?thesis unfolding fail
    by (rule released_then [OF released_fail released_then [OF released_fold_close released_before_dial]])
next
  case (connected conn)
  show ?thesis unfolding connected by (rule released_then [OF released_connected released_before_dial])
qed

lemma released_abort [rel_intros]: "released i w (abortStuckTransfer srv now i w)"
  by (auto simp: abortStuckTransfer_def Let_def split: option.split
      intro!: released_then [OF released_Disconnect] released_then [OF released_complete]
        released_then [OF released_setTransferring] released_then [OF released_close_conn] released_upd)

lemma released_forward [rel_intros]: "released i w (forward_to_server c pk i w)"
  by (auto simp: forward_to_server_def released_refl released_write split: option.split)

lemma released_dimension_change_done [rel_intros]: "released i w (snd (dimension_change_done env i w))"
proof -
  obtain g w' where f: "finishTransferDimensionChange (tu_sched env) (tu_orders env) (tu_toInt32 env) i w = (g, w')" by fastforce
  with released_finish [of i w "tu_sched env" "tu_orders env" "tu_toInt32 env"] have "released i w w'" by simp
  with f show ?thesis
    by (auto simp: dimension_change_done_def released_refl split: option.split
        intro!: released_then [OF released_complete] released_then [OF released_upd] released_upd)
qed

lemma released_client_turn [rel_intros]: "released i w (client_turn env pk i w)"
  using released_dimension_change_done [of i w env]
  by (auto simp: client_turn_def Let_def released_forward split: prod.split bool.split
      intro: released_then [OF released_forward])

lemma released_server_turn [rel_intros]: "released i w (server_turn c conn pk i w)"
proof -
  have "s_once (track p s) = s_once s" "s_uuid (track p s) = s_uuid s" "s_identity (track p s) = s_identity s" for p s
    by (simp_all add: track_def split: mc_packet.split)
  then have "released i w (upd_sess i (track p) w)" for p by (intro released_upd)
  then show ?thesis
    by (auto simp: server_turn_def Let_def split: option.split intro: released_then [OF released_write])
qed

lemma released_server_error [rel_intros]: "released i w (snd (server_error c d now conn i w))"
  by (auto simp: server_error_def released_refl released_Close split: option.split
      intro: released_then [OF released_Close released_write])

lemma released_login [rel_intros]: "released i w (New_login d e now i w)"
  by (auto simp: New_login_def Let_def split: sum.split option.split
      intro!: released_then [OF released_Close] released_then [OF released_bus] released_upd released_then [OF released_upd])

section \<open>The store holds open sessions\<close>

definition store_ok :: "world \<Rightarrow> bool" where
  "store_ok w \<longleftrightarrow> (\<forall>k i. st_sessions (w_store w) k = Some i \<longrightarrow>
     i < w_next w \<and> uuid_of w i = k \<and> \<not> s_once (w_sess w i))"

lemma store_ok_released:
  assumes "store_ok w" "released i w w'"
  shows "store_ok w'"
proof -
  obtain s' where w': "w_next w' = w_next w" "w_sess w' = (w_sess w)(i := s')" "s_uuid s' = uuid_of w i"
    "w_store w' = w_store w \<and> s_once s' = s_once (w_sess w i) \<or>
     w_store w' = Store_Delete (uuid_of w) (displayName w) i (w_store w) \<and> s_once s'"
    using assms(2) unfolding released_def by blast
  have "j < w_next w' \<and> uuid_of w' j = k \<and> \<not> s_once (w_sess w' j)"
    if j: "st_sessions (w_store w') k = Some j" for k j
  proof -
    from j w'(4) have old: "st_sessions (w_store w) k = Some j"
      by (auto simp: Store_Delete_def split: if_splits)
    with assms(1) have *: "j < w_next w" "uuid_of w j = k" "\<not> s_once (w_sess w j)" unfolding store_ok_def by blast+
    show ?thesis
    proof (cases "j = i")
      case True
      with j old *(2) w'(4) have "s_once s' = s_once (w_sess w i)"
        by (auto simp: Store_Delete_def split: if_splits)
      with True * w' show ?thesis by simp
    qed (use * w' in simp)
  qed
  then show ?thesis unfolding store_ok_def by blast
qed

lemma store_ok_Delete: "store_ok w \<Longrightarrow> store_ok (store_Delete i w)"
proof -
  assume ok: "store_ok w"
  have "st_sessions (w_store (store_Delete i w)) k = Some j \<Longrightarrow> st_sessions (w_store w) k = Some j" for k j
    by (auto simp: store_Delete_def Store_Delete_def split: if_splits)
  with ok show ?thesis unfolding store_ok_def by (simp del: not_None_eq) blast
qed

lemma store_ok_New: "store_ok w \<Longrightarrow> store_ok (snd (session_New f u ident cd c w))"
proof -
  assume ok: "store_ok w"
  let ?v = "New_stored u ident cd c w"
  have eqs: "st_sessions (w_store ?v) = (st_sessions (w_store w))(u \<mapsto> w_next w)" "w_next ?v = w_next w + 1"
    "w_sess ?v = (w_sess w)(w_next w := fresh_session u ident cd c)"
    by (simp_all add: New_stored_def Let_def Store_Store_def fresh_session_def)
  have v: "store_ok ?v"
    unfolding store_ok_def eqs
  proof (intro allI impI)
    fix k i assume k: "((st_sessions (w_store w))(u \<mapsto> w_next w)) k = Some i"
    show "i < w_next w + 1 \<and> s_uuid (((w_sess w)(w_next w := fresh_session u ident cd c)) i) = k \<and>
        \<not> s_once (((w_sess w)(w_next w := fresh_session u ident cd c)) i)"
    proof (cases "k = u")
      case True
      with k show ?thesis by (simp add: fresh_session_def)
    next
      case False
      with k ok have "i < w_next w" "uuid_of w i = k" "\<not> s_once (w_sess w i)" by (auto simp: store_ok_def)
      then show ?thesis by simp
    qed
  qed
  show ?thesis
  proof (cases "f ?v")
    case None
    from v have "store_ok (store_Delete (w_next w) ?v)" by (rule store_ok_Delete)
    with None show ?thesis by (simp add: session_New_def Let_def)
  next
    case (Some srv)
    have "released (w_next w) (?v\<lparr>w_srv := h\<rparr>) (upd_sess (w_next w) (s_server_update (\<lambda>_. Some srv)) (?v\<lparr>w_srv := h\<rparr>))" for h
      by (rule released_upd) simp_all
    moreover have "store_ok (?v\<lparr>w_srv := h\<rparr>)" for h using v by (simp add: store_ok_def)
    ultimately have "store_ok (upd_sess (w_next w) (s_server_update (\<lambda>_. Some srv)) (?v\<lparr>w_srv := h\<rparr>))" for h
      by (metis store_ok_released)
    with Some show ?thesis by (simp add: session_New_def Let_def)
  qed
qed

lemma store_ok_step:
  assumes "sys_step (w, T, n) (w', T', n')" "store_ok w"
  shows "store_ok w'"
proof -
  have begun: "store_ok w'" if "Transfer_begin srv start i w = (r, w')" for srv start i r
    using store_ok_released [OF assms(2) released_begin [of i w srv start]] that by simp
  from assms(1) show ?thesis
    by cases (auto intro: store_ok_New [OF assms(2)] begun store_ok_released [OF assms(2)] rel_intros)
qed

lemma store_ok_reachable:
  assumes "reachable w0 x" "st_sessions (w_store w0) = Map.empty"
  shows "store_ok (fst x)"
  using assms(1)
proof induction
  case start
  with assms(2) show ?case by (simp add: store_ok_def)
next
  case (next_step x y)
  then show ?case by (cases x; cases y) (auto dest: store_ok_step)
qed

text \<open>C17: the store holds only open sessions. However the steps of the sessions interleave, a session that the store
  finds under a UUID is one that has been created, has that UUID, and is not closed.\<close>

theorem stored_sessions_are_open:
  assumes "reachable w0 (w, T, n)" "w_store w0 = NewDefaultStore" "Store_Load (w_store w) u = Some i"
  shows "i < w_next w \<and> uuid_of w i = u \<and> \<not> s_once (w_sess w i)"
  using store_ok_reachable [OF assms(1)] assms(2,3)
  by (auto simp: store_ok_def Store_Load_def NewDefaultStore_def)

theorem stored_sessions_are_open_witness:
  "Store_Load (w_store ex_pending) 7 = Some 0 \<and> \<not> s_once (w_sess ex_pending 0)"
proof -
  have "w_store ex_joined = Store_Store (uuid_of ex_joined) (displayName ex_joined) 0 NewDefaultStore"
    by (auto simp: ex_defs Store_Store_def upd_sess_def)
  moreover have "uuid_of ex_joined 0 = 7" by (simp add: ex_defs)
  ultimately have "Store_Load (w_store ex_joined) 7 = Some 0" by (simp add: Store_Load_def Store_Store_def)
  moreover have "w_store ex_pending = w_store ex_joined"
    by (simp add: ex_pending_eq Transfer_connected_def before_dial_def PreTransfer_def ex_dialing_def Transfer_begin_def
        ex_online_def New_login_def Let_def split: option.split)
  ultimately have "Store_Load (w_store ex_pending) 7 = Some 0" by simp
  with stored_sessions_are_open [OF ex_reachable(4), of 7 0] show ?thesis by (simp add: ex_world_def)
qed

end
