(* ===== verification/Admin.thy ===== *)
theory Admin
  imports Portal StoreSteps
begin

text \<open>
  The operator's console (\<^verbatim>\<open>admin.go\<close>): splitting a line into its command and arguments, the commands, and the loop
  over the lines of the input.

  A command that asks a session for its connection or its server waits until the session's login is over; it is a
  function on the proxy as it is then. What else it depends on is in the record \<open>admin_env\<close>: the clock, the orders in
  which the maps are ranged over, and the course of a transfer.
\<close>

section \<open>Lines and fields\<close>

text \<open>White space, of ASCII, and \<^verbatim>\<open>strings.Fields\<close>, \<^verbatim>\<open>strings.TrimSpace\<close>, \<^verbatim>\<open>strings.Join\<close>.\<close>

definition is_space :: "char \<Rightarrow> bool" where
  "is_space c \<longleftrightarrow> (let n = of_char c :: nat in n = 32 \<or> (9 \<le> n \<and> n \<le> 13))"

fun Fields_loop :: "string \<Rightarrow> string \<Rightarrow> string list" where
  "Fields_loop [] word = (if word = [] then [] else [rev word])"
| "Fields_loop (c # s) word =
     (if is_space c then (if word = [] then Fields_loop s [] else rev word # Fields_loop s [])
      else Fields_loop s (c # word))"

definition Fields :: "string \<Rightarrow> string list" where
  "Fields s = Fields_loop s []"

definition TrimSpace :: "string \<Rightarrow> string" where
  "TrimSpace s = rev (dropWhile is_space (rev (dropWhile is_space s)))"

fun Join :: "string list \<Rightarrow> string \<Rightarrow> string" where
  "Join [] sep = []"
| "Join [s] sep = s"
| "Join (s # t # ss) sep = s @ sep @ Join (t # ss) sep"

text \<open>The lines that \<^verbatim>\<open>bufio.Scanner\<close> finds: without the line feed and a carriage return before it. The scanner gives
  up at a line that does not fit its buffer of 64 KiB.\<close>

definition drop_cr :: "string \<Rightarrow> string" where
  "drop_cr l = (if l \<noteq> [] \<and> last l = char_of (13 :: nat) then butlast l else l)"

fun Scan_loop :: "string \<Rightarrow> string \<Rightarrow> string list" where
  "Scan_loop [] line = (if line = [] then [] else [drop_cr (rev line)])"
| "Scan_loop (c # s) line =
     (if c = char_of (10 :: nat) then drop_cr (rev line) # Scan_loop s []
      else if length line + 1 \<ge> 65536 then []
      else Scan_loop s (c # line))"

definition Scan_lines :: "string \<Rightarrow> string list" where
  "Scan_lines s = Scan_loop s []"

section \<open>Commands\<close>

record admin_env =
  ae_now :: time
  ae_transfer :: transfer_env
  ae_players :: "uuid list"
  ae_servers :: "string list"

datatype admin_out = Shown string | AdminPanicked

definition newline :: string where
  "newline = [char_of (10 :: nat)]"

definition show_bool :: "bool \<Rightarrow> string" where
  "show_bool b = (if b then ''true'' else ''false'')"

fun player_lines :: "world \<Rightarrow> sess_ref list \<Rightarrow> string option" where
  "player_lines w [] = Some []"
| "player_lines w (i # is) =
     (case s_server (w_sess w i) of
        None \<Rightarrow> None
      | Some srv \<Rightarrow>
          map_option (\<lambda>rest. newline @ ''  '' @ displayName w i @ '' -> '' @ Name (w_srv w) srv @ rest)
            (player_lines w is))"

definition adminListPlayers :: "admin_env \<Rightarrow> Portal \<Rightarrow> admin_out" where
  "adminListPlayers env p =
     (let w = po_world p; sessions = Store_All (w_store w) (ae_players env) in
      if sessions = [] then Shown ''No players online.''
      else (case player_lines w sessions of
              None \<Rightarrow> AdminPanicked
            | Some ls \<Rightarrow> Shown (show_nat (length sessions) @ '' player(s) online:'' @ ls)))"

definition server_line :: "srv_heap \<Rightarrow> srv_ref \<Rightarrow> string" where
  "server_line h srv =
     newline @ ''  '' @ Name h srv @ '' ('' @ sv_address (srv_at h srv) @ '') group='' @ Quote (sv_group (srv_at h srv)) @
     '' weight='' @ show_nat (unat (Weight h srv)) @ '' players='' @ show_int (PlayerCount h srv) @
     '' draining='' @ show_bool (Draining h srv) @ '' healthy='' @ show_bool (Healthy h srv)"

definition adminListServers :: "admin_env \<Rightarrow> Portal \<Rightarrow> admin_out" where
  "adminListServers env p =
     (let ss = Servers (po_serverRegistry p) (ae_servers env) in
      if ss = [] then Shown ''No servers registered.''
      else Shown (show_nat (length ss) @ '' server(s) registered:'' @
             concat (map (server_line (w_srv (po_world p))) ss)))"

definition adminKick :: "admin_env \<Rightarrow> string list \<Rightarrow> Portal \<Rightarrow> admin_out \<times> Portal" where
  "adminKick env args p =
     (case args of
        [] \<Rightarrow> (Shown ''usage: kick <player> [reason]'', p)
      | player # rest \<Rightarrow>
          (case Store_LoadFromName (w_store (po_world p)) player of
             None \<Rightarrow> (Shown (''player '' @ Quote player @ '' is not online''), p)
           | Some i \<Rightarrow>
               let reason = Join rest '' '';
                   reason = (if reason = '''' then ''Kicked by an operator.'' else reason)
               in (Shown (''kicked '' @ player),
                   p\<lparr>po_world := Session_Disconnect reason (ae_now env) i (po_world p)\<rparr>)))"

definition adminTransfer :: "admin_env \<Rightarrow> string list \<Rightarrow> Portal \<Rightarrow> admin_out \<times> Portal" where
  "adminTransfer env args p =
     (case args of
        player # server # _ \<Rightarrow>
          (case Store_LoadFromName (w_store (po_world p)) player of
             None \<Rightarrow> (Shown (''player '' @ Quote player @ '' is not online''), p)
           | Some i \<Rightarrow>
               (case Registry_Server (po_serverRegistry p) server of
                  None \<Rightarrow> (Shown (''server '' @ Quote server @ '' is not registered''), p)
                | Some srv \<Rightarrow>
                    (case Transfer (ae_transfer env) srv (ae_now env) i (po_world p) of
                       (Panicked, w) \<Rightarrow> (AdminPanicked, p\<lparr>po_world := w\<rparr>)
                     | (Returned (Some err), w) \<Rightarrow>
                         (Shown (''failed to transfer '' @ player @ '': '' @ err), p\<lparr>po_world := w\<rparr>)
                     | (Returned None, w) \<Rightarrow>
                         (Shown (''transferring '' @ player @ '' to '' @ server), p\<lparr>po_world := w\<rparr>))))
      | _ \<Rightarrow> (Shown ''usage: transfer <player> <server>'', p))"

definition set_draining :: "srv_ref \<Rightarrow> bool \<Rightarrow> Portal \<Rightarrow> Portal" where
  "set_draining srv b p = p\<lparr>po_world := (po_world p)\<lparr>w_srv := SetDraining srv b (w_srv (po_world p))\<rparr>\<rparr>"

definition adminDrain :: "string list \<Rightarrow> Portal \<Rightarrow> admin_out \<times> Portal" where
  "adminDrain args p =
     (case args of
        [] \<Rightarrow> (Shown ''usage: drain <server> [on|off]'', p)
      | server # rest \<Rightarrow>
          (case Registry_Server (po_serverRegistry p) server of
             None \<Rightarrow> (Shown (''server '' @ Quote server @ '' is not registered''), p)
           | Some srv \<Rightarrow>
               if rest \<noteq> [] \<and> EqualFold (hd rest) ''off''
               then (Shown (server @ '' is no longer draining''), set_draining srv False p)
               else (Shown (server @ '' is now draining''), set_draining srv True p)))"

definition HandleAdminCommand :: "admin_env \<Rightarrow> string \<Rightarrow> Portal \<Rightarrow> admin_out \<times> Portal" where
  "HandleAdminCommand env line p =
     (case Fields line of
        [] \<Rightarrow> (Shown '''', p)
      | f # args \<Rightarrow>
          let cmd = ToLower f in
          if cmd = ''help'' then
            (Shown (''Commands: help, players, servers, kick <player> [reason], '' @
               ''transfer <player> <server>, drain <server> [on|off]''), p)
          else if cmd = ''players'' then (adminListPlayers env p, p)
          else if cmd = ''servers'' then (adminListServers env p, p)
          else if cmd = ''kick'' then adminKick env args p
          else if cmd = ''transfer'' then adminTransfer env args p
          else if cmd = ''drain'' then adminDrain args p
          else (Shown (''unknown command '' @ Quote cmd @ '', type '' @ [char_of (39 :: nat)] @ ''help'' @
                  [char_of (39 :: nat)] @ '' for a list of commands''), p))"

text \<open>The loop, which writes the results to the output: \<open>None\<close> when a command panics, as nothing recovers. \<open>env k\<close> is
  what the \<open>k\<close>th line finds, and \<open>sys\<close> what the rest of the proxy does before that line.\<close>

fun console_loop ::
  "(nat \<Rightarrow> admin_env) \<Rightarrow> (nat \<Rightarrow> Portal \<Rightarrow> Portal) \<Rightarrow> nat \<Rightarrow> string list \<Rightarrow> Portal \<Rightarrow> (string \<times> Portal) option" where
  "console_loop env sys k [] p = Some ([], p)"
| "console_loop env sys k (text # rest) p =
     (let line = TrimSpace text; p = sys k p in
      if line = [] then console_loop env sys (k + 1) rest p
      else (case HandleAdminCommand (env k) line p of
              (AdminPanicked, p) \<Rightarrow> None
            | (Shown result, p) \<Rightarrow>
                map_option (\<lambda>(out, p). ((if result = [] then [] else result @ newline) @ out, p))
                  (console_loop env sys (k + 1) rest p)))"

definition ServeAdminConsole ::
  "(nat \<Rightarrow> admin_env) \<Rightarrow> (nat \<Rightarrow> Portal \<Rightarrow> Portal) \<Rightarrow> string \<Rightarrow> Portal \<Rightarrow> (string \<times> Portal) option" where
  "ServeAdminConsole env sys input p = console_loop env sys 0 (Scan_lines input) p"

section \<open>Words of a line\<close>

definition is_word :: "string \<Rightarrow> bool" where
  "is_word w \<longleftrightarrow> w \<noteq> [] \<and> (\<forall>c \<in> set w. \<not> is_space c)"

lemma Fields_loop_word:
  assumes "\<forall>c \<in> set w. \<not> is_space c"
  shows "Fields_loop (w @ s) acc = Fields_loop s (rev w @ acc)"
  using assms by (induction w arbitrary: acc) auto

lemma space_is_space [simp]: "is_space CHR '' ''"
  by (simp add: is_space_def)

lemma Fields_Join: "list_all is_word ws \<Longrightarrow> Fields (Join ws '' '') = ws"
proof (induction ws rule: induct_list012)
  case (2 w)
  then show ?case using Fields_loop_word [of w "[]" "[]"] by (simp add: Fields_def is_word_def)
next
  case (3 w v ws)
  then show ?case
    using Fields_loop_word [of w "CHR '' '' # Join (v # ws) '' ''" "[]"] by (simp add: Fields_def is_word_def)
qed (simp add: Fields_def)

section \<open>Draining\<close>

lemma drain_command:
  assumes "is_word server" "list_all is_word rest" "Registry_Server (po_serverRegistry p) server = Some srv"
  shows "snd (HandleAdminCommand env (Join (''drain'' # server # rest) '' '') p) =
    set_draining srv (rest = [] \<or> \<not> EqualFold (hd rest) ''off'') p"
proof -
  have "Fields (Join (''drain'' # server # rest) '' '') = ''drain'' # server # rest"
    using assms(1,2) by (intro Fields_Join) (auto simp: is_word_def is_space_def)
  moreover have "ToLower ''drain'' = ''drain''" by code_simp
  ultimately show ?thesis
    using assms(3) by (auto simp: HandleAdminCommand_def adminDrain_def)
qed

lemma set_draining_fields [simp]:
  "po_serverRegistry (set_draining srv b p) = po_serverRegistry p" "po_listener (set_draining srv b p) = po_listener p"
  "po_loadBalancer (set_draining srv b p) = po_loadBalancer p"
  "w_srv (po_world (set_draining srv b p)) = SetDraining srv b (w_srv (po_world p))"
  by (simp_all add: set_draining_def)

text \<open>C25: a drained server gets no new players. After the operator's command \<^verbatim>\<open>drain\<close> for a registered server, with
  any further argument but \<^verbatim>\<open>off\<close>, whichever connection is accepted next, and whichever balancer the proxy
  has, the session does not start on that server.\<close>

theorem drain_keeps_players_away:
  assumes "is_word server" "list_all is_word rest" "rest = [] \<or> \<not> EqualFold (hd rest) ''off''"
    and "Registry_Server (po_serverRegistry p) server = Some srv"
    and "\<forall>k. range_order (servers (po_serverRegistry p)) (order k)"
    and "Accept disc C now order next (snd (HandleAdminCommand env (Join (''drain'' # server # rest) '' '') p)) =
      (Accepted i, p')"
  shows "s_server (w_sess (po_world p') i) \<noteq> Some srv"
proof -
  let ?q = "set_draining srv True p"
  from assms(6) have acc: "Accept disc C now order next ?q = (Accepted i, p')"
    using drain_command [OF assms(1,2,4)] assms(3) by auto
  then obtain c where c: "next = Inr c" by (cases "next") (auto simp: Accept_def split: if_splits)
  have "\<forall>k. range_order (servers (po_serverRegistry ?q)) (order k)" using assms(5) by simp
  moreover have "Draining (w_srv (po_world ?q)) srv" by (simp add: Draining_def SetDraining_def upd_server_def)
  ultimately have "FindServer (po_loadBalancer ?q) (w_srv (po_world ?q)) (po_serverRegistry ?q) order \<noteq> Some srv"
    by (intro any_lb.find_skips) auto
  then show ?thesis
    by (rule_tac Accept_world [OF acc [unfolded c]]) (auto simp: upd_sess_def)
qed

section \<open>Kicking\<close>



section \<open>Witnesses\<close>

text \<open>A proxy with two servers. The operator drains the lobby, and the player lands on the other one.\<close>

definition ex_two :: Portal where
  "ex_two = ex_portal\<lparr>po_serverRegistry := \<lparr>servers = [''lobby'' \<mapsto> 0, ''games'' \<mapsto> 2]\<rparr>\<rparr>"

definition ex_admin :: admin_env where
  "ex_admin = \<lparr>ae_now = 3, ae_transfer = ex_env, ae_players = [7], ae_servers = [''lobby'', ''games'']\<rparr>"

lemma ex_two_order: "\<forall>k :: nat. range_order (servers (po_serverRegistry ex_two)) [''lobby'', ''games'']"
  by (auto simp: ex_two_def range_order_def)

lemma ex_two_drained:
  "\<exists>i. fst (Accept (\<lambda>_ _ w. (None, w)) (\<lambda>s. s) 0 (\<lambda>_. [''lobby'', ''games'']) (Inr ex_incoming) (set_draining 0 True ex_two)) =
     Accepted i"
proof -
  let ?p = "set_draining 0 True ex_two"
  have f: "po_ipGuard ?p = po_ipGuard ex_portal" "po_whitelist ?p = po_whitelist ex_portal" "po_listener ?p \<noteq> None"
    using ex_admission(1) by (simp_all add: set_draining_def ex_two_def)
  have "available (w_srv (po_world ?p)) 2" "2 \<in> ran (servers (po_serverRegistry ?p))" "po_loadBalancer ?p = SplitLoadBalancer"
    by (simp_all add: ex_two_def ex_portal_def portal_New_def ex_options_def ex_world_def available_def Draining_def Healthy_def
        server_New_def SetDraining_def upd_server_def)
  then have "\<exists>i. fst (start_session (\<lambda>_. [''lobby'', ''games'']) ex_incoming (?p\<lparr>po_ipGuard := g\<rparr>)) = Accepted i" for g
    using ex_two_order by (subst start_session_Accepted) (auto intro!: bexI [of _ 2])
  then show ?thesis using ex_admission(2,3) by (simp add: Accept_open [OF f(3)] f)
qed

theorem drain_keeps_players_away_witness:
  "\<exists>i p'. Accept (\<lambda>_ _ w. (None, w)) (\<lambda>s. s) 0 (\<lambda>_. [''lobby'', ''games'']) (Inr ex_incoming)
      (snd (HandleAdminCommand ex_admin (Join [''drain'', ''lobby''] '' '') ex_two)) = (Accepted i, p') \<and>
    s_server (w_sess (po_world p') i) \<noteq> Some 0"
proof -
  have w: "is_word ''lobby''" "list_all is_word []" "[] = [] \<or> \<not> EqualFold (hd []) ''off''"
    by (auto simp: is_word_def is_space_def)
  have "ToLower ''lobby'' = ''lobby''" by code_simp
  then have r: "Registry_Server (po_serverRegistry ex_two) ''lobby'' = Some 0"
    by (simp add: ex_two_def Registry_Server_def)
  have "snd (HandleAdminCommand ex_admin (Join [''drain'', ''lobby''] '' '') ex_two) = set_draining 0 True ex_two"
    using drain_command [OF w(1,2) r] by simp
  with ex_two_drained obtain i p' where
    a: "Accept (\<lambda>_ _ w. (None, w)) (\<lambda>s. s) 0 (\<lambda>_. [''lobby'', ''games'']) (Inr ex_incoming)
      (snd (HandleAdminCommand ex_admin (Join [''drain'', ''lobby''] '' '') ex_two)) = (Accepted i, p')"
    by (auto simp: prod_eq_iff)
  with drain_keeps_players_away [OF w r ex_two_order a] show ?thesis by blast
qed



end
