(* ===== verification/Config.thy ===== *)
theory Config
  imports Admin
begin

text \<open>
  The configuration (\<^verbatim>\<open>config.go\<close>) and how \<^verbatim>\<open>examples/main.go\<close> reads it and sets up the proxy from it: the defaults,
  the first start that writes \<^verbatim>\<open>config.json\<close> with a random secret, the checks, and the options of the proxy.

  Nested structs are flattened, with the path in the field's name. The encoder and the decoder of JSON are the record
  \<open>json\<close>: \<open>encode\<close> of a configuration, and \<open>decode\<close> of a text onto a configuration; \<open>json_laws\<close> says that
  decoding an encoded configuration gives it back. \<^verbatim>\<open>logger.Fatalf\<close> ends the program.
\<close>

section \<open>The configuration\<close>

record ICEServerConfig =
  is_URLs :: "string list"
  is_Username :: string
  is_Password :: string

record Config =
  c_Network_Address :: string
  c_Network_Transport :: string
  c_NetherNet_TLS_CertFile :: string
  c_NetherNet_TLS_KeyFile :: string
  c_NetherNet_ICEServers :: "ICEServerConfig list"
  c_NetherNet_UDPPorts :: string
  c_Network_FlushRateMS :: int
  c_Communication_Address :: string
  c_Communication_Secret :: string
  c_Communication_TLS_Enabled :: bool
  c_Communication_TLS_CertFile :: string
  c_Communication_TLS_KeyFile :: string
  c_Network_ReaderLimits :: bool
  c_Logger_File :: string
  c_Logger_Level :: string
  c_PlayerLatency_Report :: bool
  c_PlayerLatency_UpdateInterval :: int
  c_Cluster_Enabled :: bool
  c_Cluster_ProxyID :: string
  c_Cluster_TTLSeconds :: int
  c_Redis_Address :: string
  c_Redis_Password :: string
  c_Redis_DB :: int
  c_Metrics_Enabled :: bool
  c_Metrics_Address :: string
  c_Security_BannedIPs :: "string list"
  c_RateLimit_Enabled :: bool
  c_RateLimit_WindowSeconds :: int
  c_RateLimit_MaxAttempts :: int
  c_HealthCheck_Enabled :: bool
  c_HealthCheck_IntervalSeconds :: int
  c_HealthCheck_TimeoutSeconds :: int
  c_HealthCheck_FailureThreshold :: int
  c_Routing_DefaultGroup :: string
  c_Routing_FallbackGroups :: "string list"
  c_Whitelist_Enabled :: bool
  c_Whitelist_Players :: "string list"
  c_ResourcePacks_Required :: bool
  c_ResourcePacks_Directory :: string
  c_ResourcePacks_EncryptionKeys :: "string \<rightharpoonup> string"
  c_HotReload_Enabled :: bool
  c_HotReload_Interval :: int
  c_MOTD :: string
  c_SubMOTD :: string

definition DefaultConfig :: Config where
  "DefaultConfig =
     \<lparr>c_Network_Address = '':19132'', c_Network_Transport = ''nethernet'', c_NetherNet_TLS_CertFile = '''',
      c_NetherNet_TLS_KeyFile = '''', c_NetherNet_ICEServers = [], c_NetherNet_UDPPorts = ''19133'',
      c_Network_FlushRateMS = 20, c_Communication_Address = '':19131'', c_Communication_Secret = '''',
      c_Communication_TLS_Enabled = False, c_Communication_TLS_CertFile = '''', c_Communication_TLS_KeyFile = '''',
      c_Network_ReaderLimits = True, c_Logger_File = ''proxy.log'', c_Logger_Level = ''debug'',
      c_PlayerLatency_Report = True, c_PlayerLatency_UpdateInterval = 5, c_Cluster_Enabled = False,
      c_Cluster_ProxyID = '''', c_Cluster_TTLSeconds = 300, c_Redis_Address = ''localhost:6379'', c_Redis_Password = '''',
      c_Redis_DB = 0, c_Metrics_Enabled = False, c_Metrics_Address = '':9131'', c_Security_BannedIPs = [],
      c_RateLimit_Enabled = True, c_RateLimit_WindowSeconds = 10, c_RateLimit_MaxAttempts = 5,
      c_HealthCheck_Enabled = True, c_HealthCheck_IntervalSeconds = 10, c_HealthCheck_TimeoutSeconds = 3,
      c_HealthCheck_FailureThreshold = 3, c_Routing_DefaultGroup = '''', c_Routing_FallbackGroups = [],
      c_Whitelist_Enabled = False, c_Whitelist_Players = [], c_ResourcePacks_Required = False,
      c_ResourcePacks_Directory = ''resource_packs'', c_ResourcePacks_EncryptionKeys = Map.empty,
      c_HotReload_Enabled = False, c_HotReload_Interval = 30, c_MOTD = ''Portal'', c_SubMOTD = ''Transfer Proxy''\<rparr>"

section \<open>Reading it\<close>

record json =
  encode :: "Config \<Rightarrow> go_error + string"
  decode :: "string \<Rightarrow> Config \<Rightarrow> go_error + Config"


text \<open>The outcomes of the calls to the system. \<open>cs_Rand\<close> gives 32 random bytes.\<close>

record config_sys =
  cs_Rand :: "go_error + byte list"
  cs_OpenFile :: "go_error option"
  cs_Write :: "go_error option"
  cs_ReadFile :: "go_error option"

definition hex_byte :: "byte \<Rightarrow> string" where
  "hex_byte b = [hex_digit (unat b div 16), hex_digit (unat b mod 16)]"

definition generateSecret :: "config_sys \<Rightarrow> go_error + string" where
  "generateSecret sys =
     (case cs_Rand sys of
        Inl err \<Rightarrow> Inl (''error generating communication secret: '' @ err)
      | Inr b \<Rightarrow> Inr (concat (map hex_byte b)))"

text \<open>The first start: \<^verbatim>\<open>config.json\<close> is created with the defaults and a new secret.\<close>

definition create_config :: "json \<Rightarrow> config_sys \<Rightarrow> Config \<Rightarrow> go_error + Config \<times> string" where
  "create_config j sys c =
     (case generateSecret sys of
        Inl err \<Rightarrow> Inl err
      | Inr secret \<Rightarrow>
          let c = c\<lparr>c_Communication_Secret := secret\<rparr> in
          (case cs_OpenFile sys of
             Some err \<Rightarrow> Inl (''error creating config: '' @ err)
           | None \<Rightarrow>
               (case encode j c of
                  Inl err \<Rightarrow> Inl (''error encoding default config: '' @ err)
                | Inr data \<Rightarrow>
                    (case cs_Write sys of
                       Some err \<Rightarrow> Inl (''error writing encoded default config: '' @ err)
                     | None \<Rightarrow> Inr (c, data)))))"

definition decode_config :: "json \<Rightarrow> config_sys \<Rightarrow> string \<Rightarrow> Config \<Rightarrow> go_error + Config" where
  "decode_config j sys data c =
     (case cs_ReadFile sys of
        Some err \<Rightarrow> Inl (''error reading config: '' @ err)
      | None \<Rightarrow>
          (case decode j data c of
             Inl err \<Rightarrow> Inl (''error decoding config: '' @ err)
           | Inr c \<Rightarrow>
               if c_Network_FlushRateMS c < 0 then Inl ''network.flush_rate_ms must not be negative''
               else if c_Communication_Secret c = '''' then Inl ''network.communication.secret must be set''
               else Inr c))"

text \<open>\<open>file\<close> is \<^verbatim>\<open>config.json\<close>, if it exists; the result is the fatal error or the configuration, and the file.\<close>

definition readConfig :: "json \<Rightarrow> config_sys \<Rightarrow> string option \<Rightarrow> go_error + Config \<times> string" where
  "readConfig j sys file =
     (case (case file of None \<Rightarrow> create_config j sys DefaultConfig | Some data \<Rightarrow> Inr (DefaultConfig, data)) of
        Inl err \<Rightarrow> Inl err
      | Inr (c, data) \<Rightarrow>
          (case decode_config j sys data c of Inl err \<Rightarrow> Inl err | Inr c \<Rightarrow> Inr (c, data)))"

section \<open>Setting up the proxy\<close>

text \<open>\<^verbatim>\<open>time.Duration(n) * time.Second\<close>, at 64 bits.\<close>

definition Seconds :: "int \<Rightarrow> duration" where
  "Seconds n = sint (of_int (n * Second) :: int64)"

definition options_of :: "Config \<Rightarrow> Options" where
  "options_of c =
     \<lparr>op_Address = c_Network_Address c, op_Transport = c_Network_Transport c,
      op_NetherNet = \<lparr>no_TLSCertFile = c_NetherNet_TLS_CertFile c, no_TLSKeyFile = c_NetherNet_TLS_KeyFile c,
        no_UDPPorts = c_NetherNet_UDPPorts c\<rparr>,
      op_LoadBalancer = None,
      op_Whitelist = Some (NewSimpleWhitelist (c_Whitelist_Enabled c) (c_Whitelist_Players c)),
      op_IPGuard = Some (GuardedBy (NewSimpleIPGuard (c_Security_BannedIPs c) (c_RateLimit_Enabled c)
        (Seconds (c_RateLimit_WindowSeconds c)) (c_RateLimit_MaxAttempts c)))\<rparr>"

definition status_of :: "Config \<Rightarrow> MOTDStatusProvider" where
  "status_of c = SubMOTD (c_SubMOTD c) (NewMOTDStatusProvider (c_MOTD c))"

definition proxy_of :: "Config \<Rightarrow> world \<Rightarrow> Portal" where
  "proxy_of c w =
     (let p = portal_New (options_of c) w in
      if c_Routing_DefaultGroup c \<noteq> ''''
      then SetLoadBalancer (GroupedLoadBalancer
             (NewGroupedLoadBalancer_groups (c_Routing_DefaultGroup c) (c_Routing_FallbackGroups c))) p
      else p)"

text \<open>The interval at which resource packs are looked at.\<close>

definition hot_reload_seconds :: "Config \<Rightarrow> duration" where
  "hot_reload_seconds c =
     (let interval = Seconds (c_HotReload_Interval c) in if interval \<le> 0 then 30 * Second else interval)"

section \<open>Properties\<close>

lemma Seconds_small: "0 \<le> n \<Longrightarrow> n < 9000000000 \<Longrightarrow> Seconds n = n * Second"
proof -
  assume "0 \<le> n" "n < 9000000000"
  then have "signed_take_bit 63 (n * Second) = n * Second"
    by (intro signed_take_bit_int_eq_self) (simp_all add: Second_def)
  then show ?thesis unfolding Seconds_def by (simp only: sint_sbintrunc') simp
qed




lemma decode_config_ok:
  "decode_config j sys data c0 = Inr c \<Longrightarrow>
     decode j data c0 = Inr c \<and> cs_ReadFile sys = None \<and> c_Communication_Secret c \<noteq> '''' \<and> 0 \<le> c_Network_FlushRateMS c"
  by (auto simp: decode_config_def split: option.splits sum.splits if_splits)



lemma readConfig_validates:
  "readConfig j sys file = Inr (c, data) \<Longrightarrow> c_Communication_Secret c \<noteq> '''' \<and> 0 \<le> c_Network_FlushRateMS c"
  by (auto simp: readConfig_def split: sum.splits dest: decode_config_ok)




end
