(* ===== verification/Cluster.thy ===== *)
theory Cluster
  imports SocketSteps
begin

text \<open>
  Player presence across proxies (\<^verbatim>\<open>cluster/cluster.go\<close>, \<^verbatim>\<open>cluster/redis.go\<close>). The Redis server is a parameter, the
  record \<open>redis\<close> of its commands \<^verbatim>\<open>GET\<close>, \<^verbatim>\<open>SET\<close> with a time to live, and \<^verbatim>\<open>DEL\<close> on a database at a time;
  \<open>redis_laws\<close> is what its documentation says of them. The script that removes a record is code of the repository
  and runs on the server as one step.

  A request that fails may have been lost on its way, or its answer may have been.
\<close>

section \<open>The server\<close>

record 'db redis =
  rd_get :: "time \<Rightarrow> string \<Rightarrow> 'db \<Rightarrow> string option"
  rd_set :: "time \<Rightarrow> string \<Rightarrow> string \<Rightarrow> duration \<Rightarrow> 'db \<Rightarrow> 'db"
  rd_del :: "time \<Rightarrow> string \<Rightarrow> 'db \<Rightarrow> 'db"

definition redis_laws :: "'db redis \<Rightarrow> bool" where
  "redis_laws rd \<longleftrightarrow>
     (\<forall>t k v ttl db t' k'. ttl > 0 \<longrightarrow> rd_get rd t' k' (rd_set rd t k v ttl db) =
        (if k' = k then (if t' < t + ttl then Some v else None) else rd_get rd t' k' db)) \<and>
     (\<forall>t k db t' k'. rd_get rd t' k' (rd_del rd t k db) = (if k' = k then None else rd_get rd t' k' db))"

datatype request = Answered | Lost go_error | Unanswered go_error

fun effect :: "request \<Rightarrow> ('db \<Rightarrow> 'db) \<Rightarrow> 'db \<Rightarrow> go_error option \<times> 'db" where
  "effect Answered f db = (None, f db)"
| "effect (Lost err) f db = (Some err, db)"
| "effect (Unanswered err) f db = (Some err, f db)"

section \<open>The backend\<close>

record RedisBackend =
  rb_ttl :: duration

definition NewRedisBackend :: "go_error option \<Rightarrow> duration \<Rightarrow> go_error + RedisBackend" where
  "NewRedisBackend ping ttl = (case ping of Some err \<Rightarrow> Inl err | None \<Rightarrow> Inr \<lparr>rb_ttl = ttl\<rparr>)"

definition playerKey :: "string \<Rightarrow> string" where
  "playerKey playerName = ''portal:player:'' @ ToLower playerName"

definition Announce ::
  "'db redis \<Rightarrow> RedisBackend \<Rightarrow> time \<Rightarrow> request \<Rightarrow> string \<Rightarrow> string \<Rightarrow> string \<Rightarrow> 'db \<Rightarrow> go_error option \<times> 'db" where
  "Announce rd b now req proxyID playerName serverName =
     effect req (rd_set rd now (playerKey playerName) (proxyID @ ''|'' @ serverName) (rb_ttl b))"

text \<open>The script: the record goes if its value starts with the argument.\<close>

definition removeScript :: "'db redis \<Rightarrow> time \<Rightarrow> string \<Rightarrow> string \<Rightarrow> 'db \<Rightarrow> 'db" where
  "removeScript rd now key arg db =
     (case rd_get rd now key db of
        None \<Rightarrow> db
      | Some v \<Rightarrow> if HasPrefix v arg then rd_del rd now key db else db)"

definition Remove ::
  "'db redis \<Rightarrow> time \<Rightarrow> request \<Rightarrow> string \<Rightarrow> string \<Rightarrow> 'db \<Rightarrow> go_error option \<times> 'db" where
  "Remove rd now req proxyID playerName =
     effect req (removeScript rd now (playerKey playerName) (proxyID @ ''|''))"

text \<open>\<^verbatim>\<open>Lookup\<close>: an error of the request other than \<^verbatim>\<open>redis.Nil\<close>, or the proxy, the server and whether found.\<close>

definition Lookup ::
  "'db redis \<Rightarrow> time \<Rightarrow> go_error option \<Rightarrow> string \<Rightarrow> 'db \<Rightarrow> go_error + string \<times> string \<times> bool" where
  "Lookup rd now failed playerName db =
     (case failed of
        Some err \<Rightarrow> Inl err
      | None \<Rightarrow>
          (case rd_get rd now (playerKey playerName) db of
             None \<Rightarrow> Inr ('''', '''', False)
           | Some val \<Rightarrow>
               (case Cut val CHR ''|'' of (proxyID, serverName, ok) \<Rightarrow>
                  if \<not> ok then Inr ('''', '''', False) else Inr (proxyID, serverName, True))))"

section \<open>The abstract directory\<close>

text \<open>What the proxies do, in the order in which it reaches the server, and the directory it should make: for each
  player, up to case, the proxy and the server announced last, until the record expires or the proxy that made it
  removes it.\<close>

datatype cluster_op =
    OpAnnounce time request string string string
  | OpRemove time request string string

fun run_op :: "'db redis \<Rightarrow> RedisBackend \<Rightarrow> cluster_op \<Rightarrow> 'db \<Rightarrow> 'db" where
  "run_op rd b (OpAnnounce t req proxy player server) db = snd (Announce rd b t req proxy player server db)"
| "run_op rd b (OpRemove t req proxy player) db = snd (Remove rd t req proxy player db)"

type_synonym directory = "string \<rightharpoonup> string \<times> string \<times> time"

fun dir_op :: "duration \<Rightarrow> cluster_op \<Rightarrow> directory \<Rightarrow> directory" where
  "dir_op ttl (OpAnnounce t req proxy player server) m =
     snd (effect req (\<lambda>m. m(ToLower player \<mapsto> (proxy, server, t + ttl))) m)"
| "dir_op ttl (OpRemove t req proxy player) m =
     snd (effect req (\<lambda>m. case m (ToLower player) of
        Some (q, s, e) \<Rightarrow> if q = proxy \<and> t < e then m(ToLower player := None) else m
      | None \<Rightarrow> m) m)"

definition dir_lookup :: "time \<Rightarrow> string \<Rightarrow> directory \<Rightarrow> string \<times> string \<times> bool" where
  "dir_lookup t player m =
     (case m (ToLower player) of
        Some (proxy, server, e) \<Rightarrow> if t < e then (proxy, server, True) else ('''', '''', False)
      | None \<Rightarrow> ('''', '''', False))"

text \<open>The separator is not a part of a proxy's ID.\<close>

fun plain_proxy :: "cluster_op \<Rightarrow> bool" where
  "plain_proxy (OpAnnounce t req proxy player server) = (CHR ''|'' \<notin> set proxy)"
| "plain_proxy (OpRemove t req proxy player) = (CHR ''|'' \<notin> set proxy)"

definition stored_as :: "(string \<times> string \<times> time) option \<Rightarrow> time \<Rightarrow> string option" where
  "stored_as r t = (case r of Some (q, s, e) \<Rightarrow> if t < e then Some (q @ ''|'' @ s) else None | None \<Rightarrow> None)"

definition mirrors :: "'db redis \<Rightarrow> 'db \<Rightarrow> directory \<Rightarrow> bool" where
  "mirrors rd db m \<longleftrightarrow>
     (\<forall>t n. rd_get rd t (playerKey n) db = stored_as (m (ToLower n)) t) \<and>
     (\<forall>k q s e. m k = Some (q, s, e) \<longrightarrow> CHR ''|'' \<notin> set q)"

lemma playerKey_eq [simp]: "playerKey a = playerKey b \<longleftrightarrow> ToLower a = ToLower b"
  by (simp add: playerKey_def)

lemma owner_prefix:
  assumes "CHR ''|'' \<notin> set p" "CHR ''|'' \<notin> set q"
  shows "HasPrefix (q @ ''|'' @ s) (p @ ''|'') \<longleftrightarrow> q = p"
proof
  assume "HasPrefix (q @ ''|'' @ s) (p @ ''|'')"
  then obtain t where "q @ CHR ''|'' # s = p @ CHR ''|'' # t" by (auto simp: HasPrefix_iff)
  then show "q = p" using Cut_append [OF assms(1), of t] Cut_append [OF assms(2), of s] by simp
qed (auto simp: HasPrefix_iff)

lemma mirrors_announce:
  assumes "redis_laws rd" "ttl > 0" "mirrors rd db m" "CHR ''|'' \<notin> set p"
  shows "mirrors rd (rd_set rd t (playerKey n) (p @ ''|'' @ s) ttl db) (m(ToLower n \<mapsto> (p, s, t + ttl)))"
  using assms by (auto simp: mirrors_def redis_laws_def stored_as_def)

lemma mirrors_remove:
  assumes "redis_laws rd" "mirrors rd db m" "CHR ''|'' \<notin> set p"
  shows "mirrors rd (removeScript rd t (playerKey n) (p @ ''|'') db)
    (case m (ToLower n) of Some (q, s, e) \<Rightarrow> if q = p \<and> t < e then m(ToLower n := None) else m | None \<Rightarrow> m)"
proof (cases "m (ToLower n)")
  case None
  with assms(2) show ?thesis by (simp add: removeScript_def mirrors_def stored_as_def)
next
  case (Some r)
  obtain q s e where r: "r = (q, s, e)" by (cases r) auto
  with Some assms(2) have q: "CHR ''|'' \<notin> set q" unfolding mirrors_def by blast
  have get: "rd_get rd t (playerKey n) db = (if t < e then Some (q @ ''|'' @ s) else None)"
    using assms(2) Some r by (simp add: mirrors_def stored_as_def)
  have del: "mirrors rd (rd_del rd t (playerKey n) db) (m(ToLower n := None))"
    using assms(1,2) by (auto simp: mirrors_def redis_laws_def stored_as_def)
  show ?thesis
    using Some r get del assms(2) owner_prefix [OF assms(3) q, of s] by (cases "q = p") (simp_all add: removeScript_def)
qed

lemma mirrors_op:
  assumes "redis_laws rd" "rb_ttl b > 0" "mirrors rd db m" "plain_proxy x"
  shows "mirrors rd (run_op rd b x db) (dir_op (rb_ttl b) x m)"
proof (cases x)
  case (OpAnnounce t req p n s)
  with assms mirrors_announce [OF assms(1-3), of p] show ?thesis by (cases req) (auto simp: Announce_def)
next
  case (OpRemove t req p n)
  with assms mirrors_remove [OF assms(1,3), of p] show ?thesis by (cases req) (auto simp: Remove_def)
qed

lemma mirrors_run:
  assumes "redis_laws rd" "rb_ttl b > 0" "mirrors rd db m" "list_all plain_proxy xs"
  shows "mirrors rd (fold (run_op rd b) xs db) (fold (dir_op (rb_ttl b)) xs m)"
  using assms(3,4) by (induction xs arbitrary: db m) (simp_all add: mirrors_op [OF assms(1,2)])


lemma mirrors_lookup:
  assumes "mirrors rd db m"
  shows "Lookup rd t None n db = Inr (dir_lookup t n m)"
proof (cases "m (ToLower n)")
  case None
  with assms show ?thesis by (simp add: mirrors_def Lookup_def dir_lookup_def stored_as_def)
next
  case (Some r)
  obtain q s e where r: "r = (q, s, e)" by (cases r) auto
  with Some assms have "CHR ''|'' \<notin> set q" unfolding mirrors_def by blast
  from Cut_append [OF this] assms Some r show ?thesis
    by (simp add: mirrors_def Lookup_def dir_lookup_def stored_as_def)
qed

lemma mirrors_empty: "(\<And>t k. rd_get rd t k db = None) \<Longrightarrow> mirrors rd db Map.empty"
  by (simp add: mirrors_def stored_as_def)

text \<open>C8: the cluster backend implements the directory. Whatever announcements and removals any number of proxies
  make, in any order, some of them lost or unanswered, a lookup gives the proxy and the server that were
  announced last for the player, up to case, unless the record has expired or its own proxy has removed it. In
  particular a late removal by the proxy that the player has left does not touch the record of the next one.\<close>

theorem cluster_refines_directory:
  assumes "redis_laws rd" "rb_ttl b > 0" "list_all plain_proxy ops"
    and "\<And>t k. rd_get rd t k db = None"
  shows "Lookup rd now None player (fold (run_op rd b) ops db) =
    Inr (dir_lookup now player (fold (dir_op (rb_ttl b)) ops Map.empty))"
  by (rule mirrors_lookup, rule mirrors_run [OF assms(1,2) mirrors_empty assms(3)], rule assms(4))

section \<open>Finding players of other proxies\<close>


section \<open>Witnesses\<close>

text \<open>A database with expiry times.\<close>

definition map_redis :: "(string \<rightharpoonup> string \<times> time) redis" where
  "map_redis =
     \<lparr>rd_get = (\<lambda>t k db. case db k of Some (v, e) \<Rightarrow> if t < e then Some v else None | None \<Rightarrow> None),
      rd_set = (\<lambda>t k v ttl db. db(k \<mapsto> (v, t + ttl))),
      rd_del = (\<lambda>t k db. db(k := None))\<rparr>"

lemma map_redis_laws: "redis_laws map_redis"
  by (simp add: redis_laws_def map_redis_def)

text \<open>A player joins at one proxy, reconnects at another, and the first one's removal comes late.\<close>

theorem cluster_refines_directory_witness:
  "Lookup map_redis 9 None ''steve'' (fold (run_op map_redis \<lparr>rb_ttl = 100\<rparr>)
     [OpAnnounce 1 Answered ''eu'' ''Steve'' ''lobby'', OpAnnounce 5 Answered ''us'' ''Steve'' ''games'',
      OpRemove 7 Answered ''eu'' ''Steve''] Map.empty) = Inr (''us'', ''games'', True)"
proof -
  have "Lookup map_redis 9 None ''steve'' (fold (run_op map_redis \<lparr>rb_ttl = 100\<rparr>)
     [OpAnnounce 1 Answered ''eu'' ''Steve'' ''lobby'', OpAnnounce 5 Answered ''us'' ''Steve'' ''games'',
      OpRemove 7 Answered ''eu'' ''Steve''] Map.empty) =
    Inr (dir_lookup 9 ''steve'' (fold (dir_op (rb_ttl \<lparr>rb_ttl = 100\<rparr>))
     [OpAnnounce 1 Answered ''eu'' ''Steve'' ''lobby'', OpAnnounce 5 Answered ''us'' ''Steve'' ''games'',
      OpRemove 7 Answered ''eu'' ''Steve''] Map.empty))"
    by (rule cluster_refines_directory [OF map_redis_laws]) (simp_all add: map_redis_def)
  moreover have "ToLower ''Steve'' = ''steve''" "ToLower ''steve'' = ''steve''" by code_simp+
  ultimately show ?thesis by (simp add: dir_lookup_def)
qed



end
