(* ===== verification/Proxy.thy ===== *)
theory Proxy
  imports Config Cluster
begin

text \<open>
  The running program (\<^verbatim>\<open>examples/main.go\<close>): what it subscribes to the events to share the presence of players, the
  heartbeat, the hook before a transfer, the gauges, and the shutdown. Configuration and set-up are in \<open>Config\<close>, the
  accept loop in \<open>Portal\<close>, the other goroutines in the theories of their components.
\<close>

section \<open>Presence\<close>

text \<open>What the subscribed handlers do with the cluster for one event, in the world as it is then. The bus recovers a
  handler that panics, here on a session without a server.\<close>

definition announce_join :: "string \<Rightarrow> time \<Rightarrow> request \<Rightarrow> uuid \<Rightarrow> string \<Rightarrow> world \<Rightarrow> cluster_op list" where
  "announce_join proxyID now req u name w =
     (case Store_Load (w_store w) u of
        None \<Rightarrow> []
      | Some i \<Rightarrow>
          (case s_server (w_sess w i) of
             None \<Rightarrow> []
           | Some srv \<Rightarrow> [OpAnnounce now req proxyID name (Name (w_srv w) srv)]))"

definition announce_transfer ::
  "string \<Rightarrow> time \<Rightarrow> request \<Rightarrow> string \<Rightarrow> string \<Rightarrow> go_error option \<Rightarrow> cluster_op list" where
  "announce_transfer proxyID now req playerName toServer err =
     (if err \<noteq> None then [] else [OpAnnounce now req proxyID playerName toServer])"

definition cluster_handler :: "string \<Rightarrow> time \<Rightarrow> request \<Rightarrow> world \<Rightarrow> string \<times> payload \<Rightarrow> cluster_op list" where
  "cluster_handler proxyID now req w = (\<lambda>(topic, p).
     case p of
       PlayerPayload u name \<Rightarrow>
         if topic = TopicPlayerJoin then announce_join proxyID now req u name w
         else if topic = TopicPlayerQuit then [OpRemove now req proxyID name] else []
     | TransferPayload playerName fromServer toServer err \<Rightarrow>
         if topic = TopicTransfer then announce_transfer proxyID now req playerName toServer err else []
     | _ \<Rightarrow> [])"

text \<open>The heartbeat: one goroutine for each session; one that finds no server panics, and the program with it
  (\<open>None\<close>).\<close>

definition heartbeat_op :: "string \<Rightarrow> time \<Rightarrow> (sess_ref \<Rightarrow> request) \<Rightarrow> world \<Rightarrow> sess_ref \<Rightarrow> cluster_op option" where
  "heartbeat_op proxyID now req w i =
     map_option (\<lambda>srv. OpAnnounce now (req i) proxyID (displayName w i) (Name (w_srv w) srv)) (s_server (w_sess w i))"

definition heartbeat ::
  "string \<Rightarrow> time \<Rightarrow> (sess_ref \<Rightarrow> request) \<Rightarrow> uuid list \<Rightarrow> world \<Rightarrow> cluster_op list option" where
  "heartbeat proxyID now req order w =
     those (map (heartbeat_op proxyID now req w) (Store_All (w_store w) order))"

definition heartbeat_interval :: "duration \<Rightarrow> duration option" where
  "heartbeat_interval ttl = (if ttl \<le> 0 then None else Some (ttl div 2))"

section \<open>The hook before a transfer\<close>

definition preTransfer_hook ::
  "wire \<Rightarrow> nat \<times> io_error option \<Rightarrow> string \<Rightarrow> string \<Rightarrow> DefaultServer \<Rightarrow> DefaultServer" where
  "preTransfer_hook io outcome serverName playerName s =
     (case Server_Client s serverName of
        None \<Rightarrow> s
      | Some c \<Rightarrow>
          upd_client c (\<lambda>cl. snd (WritePacket io (DisconnectPlayerPk \<lparr>dp_PlayerName = playerName\<rparr>) outcome cl)) s)"

section \<open>Gauges\<close>

definition players_online :: "uuid list \<Rightarrow> world \<Rightarrow> nat" where
  "players_online order w = length (Store_All (w_store w) order)"

definition servers_registered :: "string list \<Rightarrow> registry \<Rightarrow> nat" where
  "servers_registered order reg = length (Servers reg order)"

definition socket_clients_connected :: "string list \<Rightarrow> DefaultServer \<Rightarrow> nat" where
  "socket_clients_connected order s = length (Clients s order)"

definition servers_unhealthy :: "string list \<Rightarrow> srv_heap \<Rightarrow> registry \<Rightarrow> nat" where
  "servers_unhealthy order h reg = foldl (\<lambda>n srv. if \<not> Healthy h srv then n + 1 else n) 0 (Servers reg order)"

section \<open>Shutdown\<close>

text \<open>The loop over the sessions in the store: the player's record is removed from the cluster, if there is one, and the
  session disconnected. \<open>now\<close> and \<open>req\<close> give the time and the fate of the request for each session.\<close>

definition shutdown_session :: "string \<Rightarrow> (sess_ref \<Rightarrow> time) \<Rightarrow> sess_ref \<Rightarrow> world \<Rightarrow> world" where
  "shutdown_session message now i w = Session_Disconnect message (now i) i w"

definition shutdown_sessions :: "string \<Rightarrow> (sess_ref \<Rightarrow> time) \<Rightarrow> uuid list \<Rightarrow> world \<Rightarrow> world" where
  "shutdown_sessions message now order w = fold (shutdown_session message now) (Store_All (w_store w) order) w"


text \<open>\<^verbatim>\<open>waitForShutdown\<close> after the signal: the proxy closes its listeners, then the sessions are taken leave of, and the
  socket server is closed. The socket server and the sessions share one world. The requests to the cluster are
  \<open>shutdown_removals\<close>; closing the Redis client is not modelled.\<close>

definition waitForShutdown ::
  "(string \<Rightarrow> string) \<Rightarrow> go_error option \<Rightarrow> close_env \<Rightarrow> go_error option \<Rightarrow> (sess_ref \<Rightarrow> time) \<Rightarrow> uuid list \<Rightarrow>
   Portal \<times> DefaultServer \<times> handle set \<Rightarrow> Portal \<times> DefaultServer \<times> handle set" where
  "waitForShutdown C lerr cenv serr now order = (\<lambda>(p, s, H).
     let H = snd (Portal_Close lerr cenv p H);
         w = shutdown_sessions (C ''<yellow>Proxy is shutting down.</yellow>'') now order (po_world p)
     in (p\<lparr>po_world := w\<rparr>, snd (Server_Close serr (s\<lparr>ds_world := w\<rparr>) H)))"

section \<open>What the shutdown leaves\<close>

lemma Portal_Close_listener: "po_listener p = Some l \<Longrightarrow> l \<notin> snd (Portal_Close lerr cenv p H)"
  by (auto simp: Portal_Close_def netherNetListener_Close_def close_mux_def Let_def split: option.split)

lemma Disconnect_store_shrinks:
  "st_sessions (w_store (Session_Disconnect m now i w)) k = Some j \<Longrightarrow> st_sessions (w_store w) k = Some j"
  by (auto simp: Session_Disconnect_def Close_store Store_Delete_def split: if_splits)

lemma Disconnect_once: "s_once (w_sess (Session_Disconnect m now i w) j) \<longleftrightarrow> j = i \<or> s_once (w_sess w j)"
  by (simp add: Disconnect_effects closed_session_def)

lemma Disconnect_conns:
  "s_conn (w_sess (Session_Disconnect m now i w) j) = s_conn (w_sess w j)"
  "s_serverConn (w_sess (Session_Disconnect m now i w) j) = s_serverConn (w_sess w j)"
  by (simp_all add: Disconnect_effects closed_session_def)

lemma Disconnect_closed:
  "w_closed w \<subseteq> w_closed (Session_Disconnect m now i w)"
  "\<not> s_once (w_sess w i) \<Longrightarrow>
     insert (s_conn (w_sess w i)) (set_option (s_serverConn (w_sess w i))) \<subseteq> w_closed (Session_Disconnect m now i w)"
  using Close_closed [of "write_conn (s_conn (w_sess w i)) (DisconnectPacket (m = '''') m) w" i now]
  by (auto simp: Session_Disconnect_def Close_def)

text \<open>What is closed of a session once it has been disconnected.\<close>

definition gone :: "world \<Rightarrow> session \<Rightarrow> sess_ref \<Rightarrow> bool" where
  "gone w s i \<longleftrightarrow> s_once (w_sess w i) \<and> insert (s_conn s) (set_option (s_serverConn s)) \<subseteq> w_closed w"

lemma shutdown_fold:
  assumes "store_ok w"
  shows "store_ok (fold (shutdown_session m now) js w) \<and>
    (\<forall>k j. st_sessions (w_store (fold (shutdown_session m now) js w)) k = Some j \<longrightarrow> st_sessions (w_store w) k = Some j) \<and>
    (\<forall>i \<in> set js. \<not> s_once (w_sess w i) \<longrightarrow> gone (fold (shutdown_session m now) js w) (w_sess w i) i) \<and>
    (\<forall>i. s_once (w_sess (fold (shutdown_session m now) js w) i) \<longleftrightarrow> i \<in> set js \<or> s_once (w_sess w i)) \<and>
    (\<forall>i. s_conn (w_sess (fold (shutdown_session m now) js w) i) = s_conn (w_sess w i) \<and> s_serverConn (w_sess (fold (shutdown_session m now) js w) i) = s_serverConn (w_sess w i))"
proof (induction js rule: rev_induct)
  case Nil
  from assms(1) show ?case by simp
next
  case (snoc i js)
  let ?v = "fold (shutdown_session m now) js w"
  have step: "fold (shutdown_session m now) (js @ [i]) w = Session_Disconnect m (now i) i ?v"
    by (simp add: shutdown_session_def)
  have "store_ok (Session_Disconnect m (now i) i ?v)"
    using snoc store_ok_released [OF _ released_Disconnect] by blast
  moreover have "\<forall>k j. st_sessions (w_store (Session_Disconnect m (now i) i ?v)) k = Some j \<longrightarrow> st_sessions (w_store w) k = Some j"
    using snoc Disconnect_store_shrinks by blast
  moreover have "gone (Session_Disconnect m (now i) i ?v) (w_sess w j) j"
    if "j \<in> set (js @ [i])" "\<not> s_once (w_sess w j)" for j
  proof (cases "j \<in> set js")
    case True
    with snoc that(2) have "gone ?v (w_sess w j) j" by blast
    with Disconnect_closed(1) [of ?v m "now i" i] show ?thesis unfolding gone_def Disconnect_once by blast
  next
    case False
    with that snoc have "j = i" "\<not> s_once (w_sess ?v i)" by auto
    with Disconnect_closed(2) [of ?v i m "now i"] snoc show ?thesis unfolding gone_def Disconnect_once by simp
  qed
  ultimately show ?case
    unfolding step using snoc by (simp add: Disconnect_once Disconnect_conns)
qed

lemma Store_All_set: "range_order (st_sessions st) order \<Longrightarrow> i \<in> set (Store_All st order) \<longleftrightarrow> (\<exists>u. Store_Load st u = Some i)"
  by (auto simp: Store_All_def Store_Load_def set_range_vals ran_def)

text \<open>C16: the shutdown takes leave of everybody. However the sessions got where they are, after the shutdown the store is
  empty, and each session that was in it is closed, together with the player's connection and the one to the
  server. The sockets that the proxy and the socket server listened on are closed too.\<close>

theorem shutdown_closes_everyone:
  assumes "reachable w0 (po_world p, T, n)" "w_store w0 = NewDefaultStore"
    and "range_order (st_sessions (w_store (po_world p))) order"
    and "waitForShutdown C lerr cenv serr now order (p, s, H) = (p', s', H')"
  shows "Store_Load (w_store (po_world p')) u = None \<and> ds_world s' = po_world p' \<and>
    (Store_Load (w_store (po_world p)) u = Some i \<longrightarrow> gone (po_world p') (w_sess (po_world p) i) i) \<and>
    (po_listener p = Some l \<or> ds_listener s = Some l \<longrightarrow> l \<notin> H')"
proof -
  let ?w = "po_world p" and ?is = "Store_All (w_store (po_world p)) order"
  have ok: "store_ok ?w"
    using store_ok_reachable [OF assms(1)] assms(2) by (simp add: NewDefaultStore_def)
  from assms(4) have p': "po_world p' = fold (shutdown_session (C ''<yellow>Proxy is shutting down.</yellow>'') now) ?is ?w"
    and s': "ds_world s' = po_world p'"
    by (auto simp: waitForShutdown_def shutdown_sessions_def Server_Close_def Let_def split: option.splits)
  from assms(4) have H': "H' = snd (Portal_Close lerr cenv p H) - set_option (ds_listener s)"
    by (auto simp: waitForShutdown_def Server_Close_def Let_def split: option.splits)
  have closed: "l \<notin> H'" if "po_listener p = Some l \<or> ds_listener s = Some l"
    using that Portal_Close_listener [of p l lerr cenv H] by (auto simp: H')
  note all = shutdown_fold [OF ok, where m = "C ''<yellow>Proxy is shutting down.</yellow>''" and now = now and js = ?is,
      folded p']
  have "Store_Load (w_store (po_world p')) u \<noteq> Some j" for j
  proof
    assume j: "Store_Load (w_store (po_world p')) u = Some j"
    with all have "Store_Load (w_store ?w) u = Some j" by (simp add: Store_Load_def)
    then have "j \<in> set ?is" using Store_All_set [OF assms(3)] by blast
    with all have "s_once (w_sess (po_world p') j)" by blast
    with all j show False by (auto simp: store_ok_def Store_Load_def)
  qed
  moreover have "gone (po_world p') (w_sess ?w i) i" if "Store_Load (w_store ?w) u = Some i"
  proof -
    from that ok have "\<not> s_once (w_sess ?w i)" by (simp add: store_ok_def Store_Load_def)
    moreover have "i \<in> set ?is" using that Store_All_set [OF assms(3)] by blast
    ultimately show ?thesis using all by blast
  qed
  ultimately show ?thesis using s' closed by auto
qed





section \<open>Witnesses\<close>

definition ex_running :: Portal where
  "ex_running = ex_portal\<lparr>po_world := ex_online\<rparr>"

lemma ex_online_store: "st_sessions (w_store ex_online) = [7 \<mapsto> 0]" "displayName ex_online 0 = ''Steve''"
  "s_conn (w_sess ex_online 0) = 100"
  by (simp_all add: ex_online_def New_login_def ex_defs Store_Store_def NewDefaultStore_def)

lemma ex_shutdown_order: "range_order (st_sessions (w_store (po_world ex_running))) [7]"
  by (simp add: ex_running_def ex_online_store range_order_def)

definition ex_listening :: DefaultServer where
  "ex_listening = fst (snd (Server_Listen (Inr 16) (NewDefaultServer ''s3cret'' NewDefaultRegistry ex_online) {14}))"

lemma ex_listening_listener: "ds_listener ex_listening = Some 16"
  by (simp add: ex_listening_def Server_Listen_def)

theorem shutdown_closes_everyone_witness:
  "case waitForShutdown (\<lambda>m. m) None (li_close ex_listen) None (\<lambda>_. 9) [7] (ex_running, ex_listening, {14, 16}) of
     (p', s', H') \<Rightarrow> Store_Load (w_store (po_world p')) 7 = None \<and> {100, 200} \<subseteq> w_closed (po_world p') \<and> 16 \<notin> H'"
proof -
  obtain p' s' H' where r: "waitForShutdown (\<lambda>m. m) None (li_close ex_listen) None (\<lambda>_. 9) [7]
      (ex_running, ex_listening, {14, 16}) = (p', s', H')"
    by (metis prod_cases3)
  have reach: "reachable ex_world (po_world ex_running, [], 0)" using ex_reachable(2) by (simp add: ex_running_def)
  have w0: "w_store ex_world = NewDefaultStore" by (simp add: ex_world_def)
  from shutdown_closes_everyone [OF reach w0 ex_shutdown_order r, of 7 0 16] ex_online_store ex_online_sess(5) ex_listening_listener
  show ?thesis unfolding r by (simp add: ex_running_def Store_Load_def gone_def)
qed


end
