(* ===== verification/HarnessSockets.thy ===== *)
theory HarnessSockets
  imports Harness Backends Proxy
begin

text \<open>
  The tests of \<^verbatim>\<open>tools/harness/main.go\<close> that run a proxy with its socket server and drive it through backends: the
  console, the authentication throttle, registration with groups and draining, and the shutdown.
\<close>

section \<open>A proxy with its socket server\<close>

text \<open>The options of \<^verbatim>\<open>portal.Options{Logger: log}\<close>: everything else is empty.\<close>

definition harness_options :: Options where
  "harness_options =
     \<lparr>op_Address = '''', op_Transport = '''', op_NetherNet = \<lparr>no_TLSCertFile = '''', no_TLSKeyFile = '''', no_UDPPorts = ''''\<rparr>,
      op_LoadBalancer = None, op_Whitelist = None, op_IPGuard = None\<rparr>"

definition harness_secret :: string where
  "harness_secret = ''test-secret-change-me''"

text \<open>The proxy and the socket server share the registry, the store and the bus: \<open>shared\<close> is the proxy as it is after what
  the socket server did. The tests here configure no TLS.\<close>

definition shared :: "Portal \<Rightarrow> DefaultServer \<Rightarrow> Portal" where
  "shared p s = p\<lparr>po_serverRegistry := ds_registry s, po_world := ds_world s\<rparr>"

definition newStack ::
  "go_error + handle \<Rightarrow> world \<Rightarrow> handle set \<Rightarrow> (go_error + Portal \<times> DefaultServer) \<times> handle set" where
  "newStack opened w H =
     (let p = portal_New harness_options w;
          ss = NewDefaultServer harness_secret (po_serverRegistry p) (po_world p)
      in case Server_Listen opened ss H of
           (Some err, ss, H) \<Rightarrow> (Inl err, H)
         | (None, ss, H) \<Rightarrow> (Inr (p, ss), H))"

lemma newStack_opens:
  "newStack (Inr l) w H = (Inr (portal_New harness_options w, (NewDefaultServer harness_secret NewDefaultRegistry
     (po_world (portal_New harness_options w)))\<lparr>ds_listener := Some l\<rparr>), insert l H)"
  by (simp add: newStack_def Server_Listen_def portal_New_def Let_def)

section \<open>Admin console\<close>

text \<open>The commands of the tests leave the proxy as it is.\<close>

definition answers :: "admin_env \<Rightarrow> string \<Rightarrow> Portal \<Rightarrow> (string \<Rightarrow> bool) \<Rightarrow> bool" where
  "answers env line p expected =
     (case fst (HandleAdminCommand env line p) of Shown out \<Rightarrow> expected out | AdminPanicked \<Rightarrow> False)"

definition testAdminConsoleMisc :: "go_error + handle \<Rightarrow> world \<Rightarrow> admin_env \<Rightarrow> results \<Rightarrow> results" where
  "testAdminConsoleMisc opened w env rs =
     (case fst (newStack opened w {}) of
        Inl err \<Rightarrow> harness_rec ''6-admin'' ''start socket'' FAIL rs
      | Inr (p, ss) \<Rightarrow>
          let rs = harness_check ''6-admin'' ''help command'' (answers env ''help'' p (\<lambda>out. Contains out ''Commands:'')) rs;
              rs = harness_check ''6-admin'' ''players (empty)''
                     (answers env ''players'' p (\<lambda>out. out = ''No players online.'')) rs;
              rs = harness_check ''6-admin'' ''kick missing player''
                     (answers env ''kick ghost'' p (\<lambda>out. Contains out ''not online'')) rs;
              rs = harness_check ''6-admin'' ''transfer missing player''
                     (answers env ''transfer ghost lobby'' p (\<lambda>out. Contains out ''not online'')) rs
          in harness_check ''6-admin'' ''unknown command''
               (answers env ''frobnicate'' p (\<lambda>out. Contains out ''unknown command'')) rs)"

lemma test_lines:
  "Fields ''help'' = [''help'']" "Fields ''players'' = [''players'']" "Fields ''kick ghost'' = [''kick'', ''ghost'']"
  "Fields ''transfer ghost lobby'' = [''transfer'', ''ghost'', ''lobby'']" "Fields ''frobnicate'' = [''frobnicate'']"
  "ToLower ''help'' = ''help''" "ToLower ''players'' = ''players''" "ToLower ''kick'' = ''kick''"
  "ToLower ''transfer'' = ''transfer''" "ToLower ''frobnicate'' = ''frobnicate''"
  by code_simp+

lemma test_texts:
  "Contains (''Commands: help, players, servers, kick <player> [reason], '' @ s) ''Commands:''"
  "Contains (''player '' @ q @ '' is not online'') ''not online''" "Contains (''unknown command '' @ s) ''unknown command''"
  using Contains_parts [of "[]" "''Commands:''"] Contains_parts [of "''player '' @ q @ '' is ''" "''not online''" "[]"]
    Contains_parts [of "[]" "''unknown command''"]
  by simp_all

lemma testAdminConsoleMisc_ok: "adds PASS 5 (testAdminConsoleMisc (Inr l) w env)"
proof -
  let ?p = "portal_New harness_options w"
  have empty: "Store_All (w_store (po_world ?p)) ks = []" "Store_LoadFromName (w_store (po_world ?p)) name = None" for ks name
    by (simp_all add: portal_New_def NewDefaultStore_def Store_All_def Store_LoadFromName_def range_vals_def List.map_filter_def)
  have "answers env ''help'' ?p (\<lambda>out. Contains out ''Commands:'')" "answers env ''players'' ?p (\<lambda>out. out = ''No players online.'')"
    "answers env ''kick ghost'' ?p (\<lambda>out. Contains out ''not online'')"
    "answers env ''transfer ghost lobby'' ?p (\<lambda>out. Contains out ''not online'')"
    "answers env ''frobnicate'' ?p (\<lambda>out. Contains out ''unknown command'')"
    unfolding answers_def HandleAdminCommand_def test_lines list.case Let_def test_lines
    using test_texts(1) [of "''transfer <player> <server>, drain <server> [on|off]''"] test_texts(2) [of "Quote ''ghost''"]
      test_texts(3) [of "Quote ''frobnicate'' @ '', type '' @ [char_of (39 :: nat)] @ ''help'' @ [char_of (39 :: nat)] @
        '' for a list of commands''"]
    by (simp_all add: adminListPlayers_def adminKick_def adminTransfer_def empty Let_def del: Contains.simps)
  then show ?thesis
    unfolding testAdminConsoleMisc_def newStack_opens
    by (simp add: Let_def del: Contains.simps) (intro adds_intros TrueI; simp)
qed

section \<open>Authentication throttle\<close>

text \<open>What the proxy logs when it rejects or closes a connection of a blocked host.\<close>

definition reject_log :: "string \<Rightarrow> time \<Rightarrow> DefaultServer \<Rightarrow> string list" where
  "reject_log addr now s =
     (if Blocked addr now (ds_throttle s)
      then [''rejected socket connection from '' @ addr @ '': too many failed authentication attempts''] else [])"

definition closing_log :: "sock_env \<Rightarrow> client_ref \<Rightarrow> DefaultServer \<Rightarrow> string list" where
  "closing_log env c s =
     (if \<not> authenticated s c \<and> AuthBlocked c (se_now env) s
      then [''closing socket connection from '' @ ds_addr s c @ '': too many failed authentication attempts''] else [])"

text \<open>The backend closes its end: the loop finds the end of the stream and cleans up. A connection that was rejected has
  no loop.\<close>

definition hang_up :: "sock_env \<Rightarrow> client_ref \<Rightarrow> DefaultServer \<Rightarrow> DefaultServer" where
  "hang_up env c s =
     (if cl_closed (ds_client s c) then s else handleClientDisconnect c (snd (handleClient_turn env c s)))"

text \<open>One attempt with a wrong secret: dialling, the login and closing, each with what it finds.\<close>

record attempt =
  at_dial :: "go_error + string"
  at_now :: time
  at_env :: sock_env
  at_sent :: "nat \<times> io_error option"
  at_hang :: sock_env

fun throttle_loop :: "attempt list \<Rightarrow> nat \<Rightarrow> DefaultServer \<Rightarrow> int list \<times> string list \<times> DefaultServer" where
  "throttle_loop [] i s = ([], [], s)"
| "throttle_loop (a # as) i s =
     (case dialClient (at_dial a) (at_now a) s of
        (Inl err, s1) \<Rightarrow>
          (case throttle_loop as (Suc i) s1 of (statuses, ls, s') \<Rightarrow> (- 1 # statuses, ls, s'))
      | (Inr (c, b), s1) \<Rightarrow>
          (case authClient (at_env a) (at_sent a) ''wrong-secret'' (''bad'' @ show_nat i) c (b, s1) of
             (r, b, s2) \<Rightarrow>
               (case throttle_loop as (Suc i) (hang_up (at_hang a) c s2) of
                  (statuses, ls, s') \<Rightarrow>
                    ((case r of Inl err \<Rightarrow> - 1 | Inr status \<Rightarrow> uint status) # statuses,
                     (case at_dial a of Inl err \<Rightarrow> [] | Inr addr \<Rightarrow> reject_log addr (at_now a) s) @
                       closing_log (at_hang a) c s2 @ ls, s'))))"

definition testAuthThrottle :: "go_error + handle \<Rightarrow> world \<Rightarrow> attempt list \<Rightarrow> string list \<Rightarrow> results \<Rightarrow> results" where
  "testAuthThrottle opened w attempts keys rs =
     (case fst (newStack opened w {}) of
        Inl err \<Rightarrow> harness_rec ''2-throttle'' ''start socket'' FAIL rs
      | Inr (p, ss) \<Rightarrow>
          case throttle_loop attempts 1 ss of
            (statuses, ls, ss) \<Rightarrow>
              let rs = harness_check ''2-throttle'' ''5 bad secrets rejected''
                         (\<forall>i < 5. statuses ! i = uint AuthResponseIncorrectSecret) rs;
                  rs = harness_check ''2-throttle'' ''6th attempt blocked'' (statuses ! 5 = - 1) rs;
                  rs = harness_check ''2-throttle'' ''block logged''
                         (list_ex (\<lambda>l. Contains l ''too many failed authentication attempts'') ls) rs
              in harness_check ''2-throttle'' ''no leaked clients'' (Clients ss keys = []) rs)"

text \<open>The state of the throttle for a host after some failures, the first at \<open>t0\<close>: nobody is authenticated, and the host
  is blocked from the fifth failure on, at \<open>t5\<close>.\<close>

definition failed :: "string \<Rightarrow> time \<Rightarrow> time \<Rightarrow> nat \<Rightarrow> DefaultServer \<Rightarrow> bool" where
  "failed host t0 t5 k s \<longleftrightarrow>
     ds_secret s = harness_secret \<and> ds_clients s = Map.empty \<and>
     at_state (ds_throttle s) host =
       (if k = 0 then None
        else Some \<lparr>as_failures = int k, as_windowStart = t0,
                as_blockedUntil = (if k \<ge> 5 then t5 + authBlockDuration else zero_time)\<rparr>)"

lemma turn_of_resting:
  assumes "resting (ds_client s c)"
  shows "\<exists>f. snd (handleClient_turn env c s) = upd_client c f s"
proof -
  have "ReadPacket (se_io env) (ds_client s c) = (Inl (ReadIO (cl_inErr (ds_client s c))), (ds_client s c)\<lparr>cl_in := []\<rparr>)"
    using assms by (simp add: ReadPacket_def ReadFull_def resting_def)
  moreover have "s = upd_client c (\<lambda>cl. cl) s" by (simp add: upd_client_def)
  ultimately show ?thesis
    by (auto simp: handleClient_turn_def read_packet_def handle_read_error_def close_client_def upd_client_twice)
qed

lemma hang_up_keeps:
  assumes "resting (ds_client s c)" "failed host t0 t5 k s"
  shows "failed host t0 t5 k (hang_up env c s)"
proof -
  from turn_of_resting [OF assms(1), of env] obtain f where f: "snd (handleClient_turn env c s) = upd_client c f s" ..
  have "disconnect_locked c (upd_client c f s) = (None, (upd_client c f s)\<lparr>ds_unconnected := ds_unconnected s - {c}\<rparr>)"
    using assms(2) by (simp add: disconnect_locked_def failed_def upd_client_def Let_def)
  then show ?thesis using assms(2) by (simp add: hang_up_def f handleClientDisconnect_def failed_def upd_client_def)
qed

text \<open>An attempt that comes in time: from the host, over a network that carries it, and read within the deadline and within
  a minute of the first failure.\<close>

definition on_time :: "string \<Rightarrow> time \<Rightarrow> time \<Rightarrow> nat \<Rightarrow> attempt \<Rightarrow> bool" where
  "on_time host t0 t5 k a \<longleftrightarrow>
     (\<exists>addr. at_dial a = Inr addr \<and> hostOf addr = host) \<and> carries (at_env a) (at_sent a) \<and>
     zero_time \<le> at_now a \<and> zero_time \<le> se_now (at_env a) \<and> se_readAt (at_env a) \<le> at_now a + authTimeout \<and>
     t0 \<le> se_readAt (at_env a) \<and> se_readAt (at_env a) \<le> t0 + Minute \<and>
     (k = 0 \<longrightarrow> se_readAt (at_env a) = t0) \<and> (k = 4 \<longrightarrow> se_readAt (at_env a) = t5)"

lemma record_next:
  assumes "t0 \<le> now" "now \<le> t0 + Minute" "k < 5" "k = 0 \<longrightarrow> now = t0" "k = 4 \<longrightarrow> now = t5"
  shows "record_entry now (if k = 0 then None else Some \<lparr>as_failures = int k, as_windowStart = t0,
      as_blockedUntil = (if k \<ge> 5 then t5 + authBlockDuration else zero_time)\<rparr>) =
    \<lparr>as_failures = int (Suc k), as_windowStart = t0,
     as_blockedUntil = (if Suc k \<ge> 5 then t5 + authBlockDuration else zero_time)\<rparr>"
proof -
  have "\<not> time_Sub now t0 > authFailureWindow"
    using assms(1,2) by (simp add: time_Sub_def authFailureWindow_def max_duration_def Minute_def Second_def)
  then show ?thesis using assms(3-5)
    by (auto simp: record_entry_def fresh_entry_def authFailureLimit_def Let_def)
qed

lemma short_names: "i < 10 \<Longrightarrow> short (''bad'' @ show_nat i)" "short ''wrong-secret''"
  by (simp_all add: short_def str_ok_def show_nat.simps [of i])

lemma failing_attempt:
  assumes "failed host t0 t5 k s" "k < 5" "on_time host t0 t5 k a" "i < 10"
  shows "\<exists>ls s'. failed host t0 t5 (Suc k) s' \<and>
    (\<forall>as. throttle_loop (a # as) i s = (case throttle_loop as (Suc i) s' of
       (st, l, s'') \<Rightarrow> (uint AuthResponseIncorrectSecret # st, ls @ l, s'')))"
proof -
  from assms(3) obtain addr where addr: "at_dial a = Inr addr" "hostOf addr = host" by (auto simp: on_time_def)
  have open_host: "\<not> Blocked addr now (ds_throttle s)" if "zero_time \<le> now" for now
    using assms(1,2) that addr(2) by (auto simp: Blocked_def failed_def)
  let ?c = "ds_next s" and ?name = "''bad'' @ show_nat i"
  from dialClient_opens [OF open_host] assms(3) obtain s1 where
    d: "dialClient (Inr addr) (at_now a) s = (Inr (?c, NewClient [] EOF), s1)" "dialled_in addr (at_now a) s s1"
    unfolding on_time_def by blast
  have s1: "\<not> authenticated s1 ?c" "ds_secret s1 = harness_secret" "ds_throttle s1 = ds_throttle s" "ds_clients s1 = Map.empty"
    "ds_addr s1 ?c = addr" "ds_deadline s1 ?c = Some (at_now a + authTimeout)"
    using d(2) assms(1) by (simp_all add: dialled_in_def failed_def Let_def)
  have att: "attentive (at_env a) ?c s1"
    using assms(3) open_host s1 by (simp add: attentive_def AuthBlocked_def past_def on_time_def)
  have fits: "wire_laws (se_io (at_env a))" "login_fits (at_env a) (at_sent a) ''wrong-secret'' ?name"
    using assms(3,4) short_names by (auto simp: on_time_def carries_def)
  from authClient_logs_in [OF fits dialled_in_linked [OF d(2)] att s1(1)] obtain b s2 where
    a: "authClient (at_env a) (at_sent a) ''wrong-secret'' ?name ?c (NewClient [] EOF, s1) =
      (Inr (auth_status ''wrong-secret'' ?name s1), b, s2)"
      "linked ?c b s2" "logged_in (at_env a) ''wrong-secret'' ?name ?c s1 s2" by blast
  have wrong: "auth_status ''wrong-secret'' ?name s1 = AuthResponseIncorrectSecret"
    by (simp add: s1 harness_secret_def)
  have "failed host t0 t5 (Suc k) s2"
  proof -
    have "at_state (ds_throttle s2) host = Some (record_entry (se_readAt (at_env a)) (at_state (ds_throttle s) host))"
      using a(3) unfolding logged_in_def wrong by (simp add: s1 RecordFailure_def addr(2) Let_def)
    also have "\<dots> = Some \<lparr>as_failures = int (Suc k), as_windowStart = t0,
        as_blockedUntil = (if Suc k \<ge> 5 then t5 + authBlockDuration else zero_time)\<rparr>"
      using record_next [of t0 "se_readAt (at_env a)" k t5] assms(1-3) unfolding failed_def on_time_def by simp
    finally show ?thesis using a(3) s1 unfolding logged_in_def wrong failed_def
      by (simp add: Let_def status_defs)
  qed
  then have "failed host t0 t5 (Suc k) (hang_up (at_hang a) ?c s2)"
    using a(2) hang_up_keeps unfolding linked_def by blast
  moreover have "throttle_loop (a # as) i s = (case throttle_loop as (Suc i) (hang_up (at_hang a) ?c s2) of
       (st, l, s'') \<Rightarrow> (uint AuthResponseIncorrectSecret # st,
         (reject_log addr (at_now a) s @ closing_log (at_hang a) ?c s2) @ l, s''))" for as
    using d(1) a(1) wrong addr(1) by (simp del: auth_status_iff)
  ultimately show ?thesis by blast
qed

lemma failing_attempts:
  assumes "failed host t0 t5 k s" "k + length as \<le> 5" "\<forall>j < length as. on_time host t0 t5 (k + j) (as ! j)" "i + length as < 10"
  shows "\<exists>ls s'. failed host t0 t5 (k + length as) s' \<and>
    (\<forall>bs. throttle_loop (as @ bs) i s = (case throttle_loop bs (i + length as) s' of
       (st, l, s'') \<Rightarrow> (replicate (length as) (uint AuthResponseIncorrectSecret) @ st, ls @ l, s'')))"
  using assms
proof (induction as arbitrary: k i s)
  case Nil
  then show ?case by (intro exI [of _ "[]"] exI [of _ s]) auto
next
  case (Cons a as)
  have first: "on_time host t0 t5 k a" "k < 5" "i < 10" using Cons.prems(2-4) by auto
  from failing_attempt [OF Cons.prems(1) first(2,1,3)] obtain ls s1 where
    s1: "failed host t0 t5 (Suc k) s1"
      "\<And>cs. throttle_loop (a # cs) i s = (case throttle_loop cs (Suc i) s1 of
         (st, l, s'') \<Rightarrow> (uint AuthResponseIncorrectSecret # st, ls @ l, s''))" by blast
  have "\<forall>j < length as. on_time host t0 t5 (Suc k + j) (as ! j)" using Cons.prems(3) by fastforce
  from Cons.IH [OF s1(1) _ this, of "Suc i"] Cons.prems(2,4) obtain ms s2 where
    s2: "failed host t0 t5 (Suc k + length as) s2"
      "\<And>bs. throttle_loop (as @ bs) (Suc i) s1 = (case throttle_loop bs (Suc i + length as) s2 of
         (st, l, s'') \<Rightarrow> (replicate (length as) (uint AuthResponseIncorrectSecret) @ st, ms @ l, s''))" by auto
  have "throttle_loop ((a # as) @ bs) i s = (case throttle_loop bs (i + length (a # as)) s2 of
       (st, l, s'') \<Rightarrow> (replicate (length (a # as)) (uint AuthResponseIncorrectSecret) @ st, (ls @ ms) @ l, s''))" for bs
    using s1(2) [of "as @ bs"] s2(2) [of bs] by (simp split: prod.split)
  with s2(1) show ?case by (intro exI [of _ "ls @ ms"] exI [of _ s2]) simp
qed

lemma blocked_attempt:
  assumes "failed host t0 t5 5 s" "at_dial a = Inr addr" "hostOf addr = host" "at_now a < t5 + authBlockDuration"
  shows "\<exists>ls s'. throttle_loop [a] i s = ([- 1], reject_log addr (at_now a) s @ ls, s') \<and> ds_clients s' = Map.empty \<and>
    Blocked addr (at_now a) (ds_throttle s)"
proof -
  let ?c = "ds_next s"
  have blocked: "Blocked addr (at_now a) (ds_throttle s)" using assms by (simp add: Blocked_def failed_def)
  from dialClient_blocked [OF this] obtain s1 where
    d: "dialClient (Inr addr) (at_now a) s = (Inr (?c, NewClient [] EOF), s1)" "cl_closed (ds_client s1 ?c)"
      "ds_clients s1 = ds_clients s" by blast
  have "cl_inErr (NewClient [] EOF) = EOF" by (simp add: NewClient_def)
  from authClient_closed [OF d(2) NewClient_resting this] obtain err b where
    "authClient (at_env a) (at_sent a) ''wrong-secret'' (''bad'' @ show_nat i) ?c (NewClient [] EOF, s1) = (Inl err, b, s1)"
    by blast
  moreover have "hang_up (at_hang a) ?c s1 = s1" using d(2) by (simp add: hang_up_def)
  moreover have "ds_clients s1 = Map.empty" using d(3) assms(1) by (simp add: failed_def)
  ultimately show ?thesis using d(1) assms(2) blocked by simp
qed

lemma testAuthThrottle_ok:
  assumes "length attempts = 6" "\<forall>j < 5. on_time host t0 t5 j (attempts ! j)"
    and "at_dial (attempts ! 5) = Inr addr" "hostOf addr = host" "at_now (attempts ! 5) < t5 + authBlockDuration"
  shows "adds PASS 4 (testAuthThrottle (Inr l) w attempts keys)"
proof -
  let ?s = "(NewDefaultServer harness_secret NewDefaultRegistry (po_world (portal_New harness_options w)))\<lparr>ds_listener := Some l\<rparr>"
  have start: "failed host t0 t5 0 ?s" by (simp add: failed_def NewDefaultServer_def newAuthThrottle_def)
  have split: "attempts = take 5 attempts @ [attempts ! 5]"
    using assms(1) by (simp add: take_Suc_conv_app_nth [symmetric])
  have "\<forall>j < length (take 5 attempts). on_time host t0 t5 (0 + j) (take 5 attempts ! j)" using assms(1,2) by simp
  from failing_attempts [OF start _ this, of 1] assms(1) obtain ls s1 where
    s1: "failed host t0 t5 5 s1"
      "\<And>bs. throttle_loop (take 5 attempts @ bs) 1 ?s = (case throttle_loop bs 6 s1 of
         (st, l, s'') \<Rightarrow> (replicate 5 (uint AuthResponseIncorrectSecret) @ st, ls @ l, s''))" by auto
  from blocked_attempt [OF s1(1) assms(3-5), of 6] obtain ms s2 where
    s2: "throttle_loop [attempts ! 5] 6 s1 = ([- 1], reject_log addr (at_now (attempts ! 5)) s1 @ ms, s2)"
      "ds_clients s2 = Map.empty" "Blocked addr (at_now (attempts ! 5)) (ds_throttle s1)" by blast
  have loop: "throttle_loop attempts 1 ?s = (replicate 5 (uint AuthResponseIncorrectSecret) @ [- 1],
      ls @ reject_log addr (at_now (attempts ! 5)) s1 @ ms, s2)"
    by (subst split, subst s1(2)) (simp only: s2(1) prod.case)
  have "Contains (''rejected socket connection from '' @ addr @ '': too many failed authentication attempts'')
      ''too many failed authentication attempts''"
    using Contains_parts [of "''rejected socket connection from '' @ addr @ '': ''" "''too many failed authentication attempts''" "[]"]
    by (simp del: Contains.simps)
  then have logged: "list_ex (\<lambda>l. Contains l ''too many failed authentication attempts'')
      (ls @ reject_log addr (at_now (attempts ! 5)) s1 @ ms)"
    using s2(3) by (simp add: reject_log_def del: Contains.simps)
  have st: "\<forall>i < 5. (replicate 5 (uint AuthResponseIncorrectSecret) @ [- 1]) ! i = uint AuthResponseIncorrectSecret"
    "(replicate 5 (uint AuthResponseIncorrectSecret) @ [- 1]) ! 5 = - 1" by (simp_all add: nth_append)
  have none: "Clients s2 keys = []" by (simp add: Clients_def s2(2) range_vals_def List.map_filter_def)
  have "testAuthThrottle (Inr l) w attempts keys = (\<lambda>rs. harness_check ''2-throttle'' ''no leaked clients'' True
      (harness_check ''2-throttle'' ''block logged'' True (harness_check ''2-throttle'' ''6th attempt blocked'' True
        (harness_check ''2-throttle'' ''5 bad secrets rejected'' True rs))))"
    unfolding testAuthThrottle_def newStack_opens fst_conv sum.case prod.case loop Let_def none
    using logged st by (simp del: Contains.simps)
  then show ?thesis by (simp only:) (intro adds_intros TrueI; simp)
qed

section \<open>Groups, draining, console, events and metrics\<close>

text \<open>What one registration finds: the outcome of dialling, the clock, and the two requests.\<close>

record registration =
  rg_dial :: "go_error + string"
  rg_now :: time
  rg_auth :: sock_env
  rg_authSent :: "nat \<times> io_error option"
  rg_reg :: sock_env
  rg_regSent :: "nat \<times> io_error option"

definition register ::
  "registration \<Rightarrow> string \<Rightarrow> string \<Rightarrow> uint32 \<Rightarrow> DefaultServer \<Rightarrow> (go_error + client_ref \<times> Client) \<times> DefaultServer" where
  "register g name grp weight s =
     registerBackend (rg_dial g) (rg_now g) (rg_auth g) (rg_authSent g) (rg_reg g) (rg_regSent g) harness_secret name grp weight s"

text \<open>The subscriber to registrations counts the events.\<close>

definition count_topic :: "string \<Rightarrow> published \<Rightarrow> nat" where
  "count_topic topic pub = length (filter (\<lambda>(t, p). t = topic) pub)"

text \<open>What the rest of the test finds: the request to drain, the console's environments, the orders of the ranges
  over the servers and the connections, the gauges in the order in which they are written, with Go's formatting of the
  number, and the outcomes of listening and of the request for the metrics.\<close>

record groups_env =
  ge_drain :: sock_env
  ge_drainSent :: "nat \<times> io_error option"
  ge_admin1 :: admin_env
  ge_admin2 :: admin_env
  ge_servers :: "string list"
  ge_clients :: "string list"
  ge_players :: "uuid list"
  ge_gauges :: "string list"
  ge_format :: "nat \<Rightarrow> string"
  ge_seconds :: "int \<Rightarrow> string"
  ge_listen :: "go_error option"
  ge_scrape :: "go_error option"

definition gauge_value :: "groups_env \<Rightarrow> DefaultServer \<Rightarrow> string \<Rightarrow> string" where
  "gauge_value env ss name = ge_format env
     (if name = ''portal_players_online'' then players_online (ge_players env) (ds_world ss)
      else if name = ''portal_servers_registered'' then servers_registered (ge_servers env) (ds_registry ss)
      else socket_clients_connected (ge_clients env) ss)"

definition test_metrics :: "groups_env \<Rightarrow> Metrics \<Rightarrow> DefaultServer \<Rightarrow> results \<Rightarrow> results" where
  "test_metrics env m ss rs =
     (let m = RegisterGauge ''portal_socket_clients_connected'' 2 (RegisterGauge ''portal_servers_registered'' 1
                (RegisterGauge ''portal_players_online'' 0 m));
          b = Handler_body (ge_gauges env) (gauge_value env ss) (ge_seconds env) m
      in if ge_listen env \<noteq> None then harness_rec ''4-metrics'' ''listen'' FAIL rs
         else if ge_scrape env \<noteq> None then harness_rec ''4-metrics'' ''scrape'' FAIL rs
         else
      let rs = harness_check ''4-metrics'' ''servers_registered gauge'' (Contains b ''portal_servers_registered 2'') rs;
          rs = harness_check ''4-metrics'' ''players+clients gauges''
                 (Contains b ''portal_players_online'' \<and> Contains b ''portal_socket_clients_connected 2'') rs
      in harness_check ''4-metrics'' ''prometheus format'' (Contains b ''# TYPE portal_transfers_total counter'') rs)"

definition test_groups ::
  "groups_env \<Rightarrow> Metrics \<Rightarrow> Portal \<Rightarrow> client_ref \<times> Client \<Rightarrow> DefaultServer \<Rightarrow> results \<Rightarrow> results \<times> go_error option" where
  "test_groups env m p cb2 ss rs =
     (let l1 = Registry_Server (ds_registry ss) ''Lobby1''; l2 = Registry_Server (ds_registry ss) ''Lobby2'';
          h = w_srv (ds_world ss);
          rs = harness_check ''3-groups'' ''both registered''
                 (l1 \<noteq> None \<and> l2 \<noteq> None \<and> length (Servers (ds_registry ss) (ge_servers env)) = 2) rs;
          rs = (if l1 \<noteq> None \<and> l2 \<noteq> None
                then harness_check ''3-groups'' ''group+weight stored''
                       (sv_group (srv_at h (the l1)) = ''lobby'' \<and> Weight h (the l1) = 1 \<and>
                        sv_group (srv_at h (the l2)) = ''lobby'' \<and> Weight h (the l2) = 3) rs
                else rs);
          rs = harness_check ''6-admin'' ''servers command'' (answers (ge_admin1 env) ''servers'' (shared p ss)
                 (\<lambda>out. Contains out (''group='' @ Quote ''lobby'') \<and> Contains out ''draining=false'')) rs;
          (err, b2, ss) = exchange (ge_drain env) (ge_drainSent env) (SetServerDrainingPk \<lparr>sd_Draining = True\<rparr>) (fst cb2)
                            (snd cb2, ss);
          rs = (if err \<noteq> None then harness_rec ''3-groups'' ''send drain'' FAIL rs else rs);
          h = w_srv (ds_world ss)
      in if l2 = None \<or> Draining h (the l2) \<and> l1 = None then (rs, Some ''nil server'')
         else
           let rs = harness_check ''3-groups'' ''draining applied'' (Draining h (the l2) \<and> \<not> Draining h (the l1)) rs;
               rs = harness_check ''3-groups'' ''admin shows draining''
                      (answers (ge_admin2 env) ''servers'' (shared p ss)
                        (\<lambda>out. Contains out ''Lobby2'' \<and> Contains out ''draining=true'')) rs;
               rs = harness_check ''5-events'' ''server_registered fired''
                      (count_topic TopicServerRegistered (w_published (ds_world ss)) = 2) rs
           in (test_metrics env m ss rs, None))"

definition testGroupsDrainingAdminMetrics ::
  "go_error + handle \<Rightarrow> world \<Rightarrow> registration \<Rightarrow> registration \<Rightarrow> groups_env \<Rightarrow> Metrics \<Rightarrow> results \<Rightarrow>
   results \<times> go_error option" where
  "testGroupsDrainingAdminMetrics opened w g1 g2 env m rs =
     (case fst (newStack opened w {}) of
        Inl err \<Rightarrow> (harness_rec ''3-groups'' ''start socket'' FAIL rs, None)
      | Inr (p, ss) \<Rightarrow>
          (case register g1 ''Lobby1'' ''lobby'' 1 ss of
             (Inl err, ss) \<Rightarrow> (harness_rec ''3-groups'' ''register Lobby1'' FAIL rs, None)
           | (Inr cb1, ss) \<Rightarrow>
               (case register g2 ''Lobby2'' ''lobby'' 3 ss of
                  (Inl err, ss) \<Rightarrow> (harness_rec ''3-groups'' ''register Lobby2'' FAIL rs, None)
                | (Inr cb2, ss) \<Rightarrow> test_groups env m p cb2 ss rs)))"

text \<open>A registration that comes in time, at a socket server where nobody has failed to log in.\<close>

definition prompt :: "registration \<Rightarrow> bool" where
  "prompt g \<longleftrightarrow>
     (\<exists>addr. rg_dial g = Inr addr) \<and> carries (rg_auth g) (rg_authSent g) \<and> carries (rg_reg g) (rg_regSent g) \<and>
     se_readAt (rg_auth g) \<le> rg_now g + authTimeout"

lemma register_prompt:
  assumes "prompt g" "ds_throttle s = newAuthThrottle" "ds_secret s = harness_secret" "ds_clients s (ToLower name) = None"
    and "short name" "short grp"
  shows "\<exists>b s'. register g name grp weight s = (Inr (ds_next s, b), s') \<and>
    registered_as name (harness_register grp weight) b s s'"
proof -
  from assms(1) obtain addr where addr: "rg_dial g = Inr addr" by (auto simp: prompt_def)
  have free: "\<not> Blocked addr now (ds_throttle s)" for now by (simp add: assms(2) Blocked_def newAuthThrottle_def)
  have sec: "short harness_secret" "ds_secret s \<noteq> ''''" "short ''127.0.0.1:1''" "short ''''"
    by (simp_all add: short_def str_ok_def harness_secret_def assms(3))
  have fits: "wire_laws (se_io (rg_auth g))" "login_fits (rg_auth g) (rg_authSent g) (ds_secret s) name"
    "wire_laws (se_io (rg_reg g))" "sendable (se_io (rg_reg g)) (RegisterServerPk (harness_register grp weight))"
    "whole (se_io (rg_reg g)) (RegisterServerPk (harness_register grp weight)) (rg_regSent g)"
    "se_readAt (rg_auth g) \<le> rg_now g + authTimeout"
    using assms(1,3,5,6) sec by (simp_all add: prompt_def carries_def harness_register_def)
  from registerBackend_state [OF fits(1,2) free free fits(6) sec(2) assms(4) fits(3-5)] show ?thesis
    by (simp add: register_def addr assms(3))
qed

lemma register_server_fresh:
  assumes "Registry_Server (ds_registry s) name = None"
  shows "w_srv (ds_world (register_server (harness_register grp weight) TransportRakNet name s)) =
    snd (alloc_server (server_New name ''127.0.0.1:1'' TransportRakNet grp weight False) (w_srv (ds_world s)))"
  by (simp add: register_server_simps(1) assms take_over_def harness_register_def)

text \<open>The socket server after both registrations; \<open>r\<close> is the first reference that was free.\<close>

definition two_lobbies :: "srv_ref \<Rightarrow> DefaultServer \<Rightarrow> bool" where
  "two_lobbies r s \<longleftrightarrow>
     servers (ds_registry s) = [''lobby1'' \<mapsto> r, ''lobby2'' \<mapsto> Suc r] \<and>
     srv_at (w_srv (ds_world s)) r = server_New ''Lobby1'' ''127.0.0.1:1'' TransportRakNet ''lobby'' 1 False \<and>
     srv_at (w_srv (ds_world s)) (Suc r) = server_New ''Lobby2'' ''127.0.0.1:1'' TransportRakNet ''lobby'' 3 False \<and>
     w_store (ds_world s) = NewDefaultStore \<and> ds_clients s = [''lobby1'' \<mapsto> 0, ''lobby2'' \<mapsto> 1] \<and>
     w_published (ds_world s) =
       [(TopicServerRegistered, ServerPayload ''Lobby1'' ''127.0.0.1:1''),
        (TopicServerRegistered, ServerPayload ''Lobby2'' ''127.0.0.1:1'')]"

lemma lobby_lower: "ToLower ''Lobby1'' = ''lobby1''" "ToLower ''Lobby2'' = ''lobby2''"
  by code_simp+

lemma short_lobbies: "short ''Lobby1''" "short ''Lobby2''" "short ''lobby''"
  by (simp_all add: short_def str_ok_def)

lemma register_both:
  assumes "prompt g1" "prompt g2"
    and "s = (NewDefaultServer harness_secret NewDefaultRegistry (po_world (portal_New harness_options w)))\<lparr>ds_listener := Some l\<rparr>"
  shows "\<exists>b1 s1 b2 s2. register g1 ''Lobby1'' ''lobby'' 1 s = (Inr (0, b1), s1) \<and>
    register g2 ''Lobby2'' ''lobby'' 3 s1 = (Inr (1, b2), s2) \<and> two_lobbies (srv_next (w_srv w)) s2 \<and>
    linked 1 b2 s2 \<and> authenticated s2 1 \<and> client_name s2 1 = ''Lobby2'' \<and> ds_deadline s2 1 = None"
proof -
  have s: "ds_throttle s = newAuthThrottle" "ds_secret s = harness_secret" "ds_clients s = Map.empty" "ds_next s = 0"
    "ds_registry s = NewDefaultRegistry" "w_srv (ds_world s) = w_srv w" "w_store (ds_world s) = NewDefaultStore"
    "w_published (ds_world s) = []" "w_hasBus (ds_world s)"
    by (simp_all add: assms(3) NewDefaultServer_def portal_New_def)
  from register_prompt [OF assms(1) s(1,2) _ short_lobbies(1,3), of 1] s obtain b1 s1 where
    r1: "register g1 ''Lobby1'' ''lobby'' 1 s = (Inr (0, b1), s1)" "registered_as ''Lobby1'' (harness_register ''lobby'' 1) b1 s s1"
    by auto
  let ?h1 = "snd (alloc_server (server_New ''Lobby1'' ''127.0.0.1:1'' TransportRakNet ''lobby'' 1 False) (w_srv w))"
  have none: "Registry_Server (ds_registry s) ''Lobby1'' = None" by (simp add: s Registry_Server_def NewDefaultRegistry_def)
  have s1: "ds_throttle s1 = newAuthThrottle" "ds_secret s1 = harness_secret" "ds_clients s1 = [''lobby1'' \<mapsto> 0]" "ds_next s1 = 1"
    "servers (ds_registry s1) = [''lobby1'' \<mapsto> srv_next (w_srv w)]" "w_srv (ds_world s1) = ?h1"
    using r1(2) s register_server_fresh [OF none, of "''lobby''" 1]
    by (simp_all add: registered_as_def lobby_lower register_server_simps(2) NewDefaultRegistry_def Let_def)
  have s1w: "w_store (ds_world s1) = NewDefaultStore" "w_hasBus (ds_world s1)"
    "w_published (ds_world s1) = [(TopicServerRegistered, ServerPayload ''Lobby1'' ''127.0.0.1:1'')]"
    using r1(2) s by (simp_all add: registered_as_def register_server_def bus_Publish_def harness_register_def Let_def split: prod.split)
  have free: "ds_clients s1 (ToLower ''Lobby2'') = None" by (simp add: s1 lobby_lower)
  from register_prompt [OF assms(2) s1(1,2) free short_lobbies(2,3), of 3] s1(4) obtain b2 s2 where
    r2: "register g2 ''Lobby2'' ''lobby'' 3 s1 = (Inr (1, b2), s2)" "registered_as ''Lobby2'' (harness_register ''lobby'' 3) b2 s1 s2"
    by auto
  have none2: "Registry_Server (ds_registry s1) ''Lobby2'' = None" by (simp add: s1 Registry_Server_def lobby_lower)
  have "two_lobbies (srv_next (w_srv w)) s2"
  proof -
    have "w_srv (ds_world s2) = snd (alloc_server (server_New ''Lobby2'' ''127.0.0.1:1'' TransportRakNet ''lobby'' 3 False) ?h1)"
      using r2(2) s1 register_server_fresh [OF none2, of "''lobby''" 3] by (simp add: registered_as_def Let_def)
    moreover have "servers (ds_registry s2) = [''lobby1'' \<mapsto> srv_next (w_srv w), ''lobby2'' \<mapsto> Suc (srv_next (w_srv w))]"
      using r2(2) s1 by (simp add: registered_as_def lobby_lower register_server_simps(2) alloc_server_def Let_def)
    moreover have "w_store (ds_world s2) = NewDefaultStore" "w_published (ds_world s2) =
       [(TopicServerRegistered, ServerPayload ''Lobby1'' ''127.0.0.1:1''), (TopicServerRegistered, ServerPayload ''Lobby2'' ''127.0.0.1:1'')]"
      using r2(2) s1w by (simp_all add: registered_as_def register_server_def bus_Publish_def harness_register_def Let_def split: prod.split)
    moreover have "ds_clients s2 = [''lobby1'' \<mapsto> 0, ''lobby2'' \<mapsto> 1]"
      using r2(2) s1 by (simp add: registered_as_def lobby_lower Let_def)
    ultimately show ?thesis by (simp add: two_lobbies_def alloc_server_def)
  qed
  with r1(1) r2 s1(4) show ?thesis by (auto simp: registered_as_def Let_def)
qed

lemma Contains_in_concat:
  assumes "r \<in> set rs" "Contains (f r) t"
  shows "Contains (pre @ concat (map f rs) @ post) t"
proof -
  from assms(1) obtain xs ys where "rs = xs @ r # ys" by (auto dest: split_list)
  moreover from assms(2) obtain a b where "f r = a @ t @ b" by (auto simp: Contains_iff)
  ultimately have "pre @ concat (map f rs) @ post = (pre @ concat (map f xs) @ a) @ t @ (b @ concat (map f ys) @ post)" by simp
  then show ?thesis unfolding Contains_iff by blast
qed

lemma server_line_shows:
  "Contains (server_line h r) (Name h r)" "Contains (server_line h r) (''group='' @ Quote (sv_group (srv_at h r)))"
  "Contains (server_line h r) (''draining='' @ show_bool (Draining h r))"
proof -
  have "server_line h r = (newline @ ''  '') @ Name h r @ '' ('' @ sv_address (srv_at h r) @ '') group='' @
      Quote (sv_group (srv_at h r)) @ '' weight='' @ show_nat (unat (Weight h r)) @ '' players='' @
      show_int (PlayerCount h r) @ '' draining='' @ show_bool (Draining h r) @ '' healthy='' @ show_bool (Healthy h r)"
    by (simp add: server_line_def)
  then show "Contains (server_line h r) (Name h r)" unfolding Contains_iff by blast
  have "server_line h r = (newline @ ''  '' @ Name h r @ '' ('' @ sv_address (srv_at h r) @ '') '') @ (''group='' @
      Quote (sv_group (srv_at h r))) @ '' weight='' @ show_nat (unat (Weight h r)) @ '' players='' @
      show_int (PlayerCount h r) @ '' draining='' @ show_bool (Draining h r) @ '' healthy='' @ show_bool (Healthy h r)"
    by (simp add: server_line_def)
  then show "Contains (server_line h r) (''group='' @ Quote (sv_group (srv_at h r)))" unfolding Contains_iff by blast
  have "server_line h r = (newline @ ''  '' @ Name h r @ '' ('' @ sv_address (srv_at h r) @ '') group='' @
      Quote (sv_group (srv_at h r)) @ '' weight='' @ show_nat (unat (Weight h r)) @ '' players='' @
      show_int (PlayerCount h r) @ '' '') @ (''draining='' @ show_bool (Draining h r)) @ '' healthy='' @ show_bool (Healthy h r)"
    by (simp add: server_line_def)
  then show "Contains (server_line h r) (''draining='' @ show_bool (Draining h r))" unfolding Contains_iff by blast
qed

text \<open>The console's list of servers shows the line of each server.\<close>

lemma answers_servers:
  assumes "range_order (servers (po_serverRegistry p)) (ae_servers env)" "ran (servers (po_serverRegistry p)) \<noteq> {}"
    and "\<And>out. (\<And>r t. r \<in> ran (servers (po_serverRegistry p)) \<Longrightarrow> Contains (server_line (w_srv (po_world p)) r) t \<Longrightarrow>
      Contains out t) \<Longrightarrow> expected out"
  shows "answers env ''servers'' p expected"
proof -
  let ?ss = "Servers (po_serverRegistry p) (ae_servers env)"
  have set: "set ?ss = ran (servers (po_serverRegistry p))" by (rule set_Servers [OF assms(1)])
  then have "?ss \<noteq> []" using assms(2) by force
  have lines: "Fields ''servers'' = [''servers'']" "ToLower ''servers'' = ''servers''" by code_simp+
  let ?out = "show_nat (length ?ss) @ '' server(s) registered:'' @ concat (map (server_line (w_srv (po_world p))) ?ss)"
  have "fst (HandleAdminCommand env ''servers'' p) = Shown ?out"
    unfolding HandleAdminCommand_def lines list.case Let_def
    using \<open>?ss \<noteq> []\<close> by (simp add: adminListServers_def Let_def lines)
  moreover have "expected ?out"
  proof (rule assms(3))
    fix r t assume "r \<in> ran (servers (po_serverRegistry p))" "Contains (server_line (w_srv (po_world p)) r) t"
    then show "Contains ?out t"
      using Contains_in_concat [of r ?ss "server_line (w_srv (po_world p))" t "show_nat (length ?ss) @ '' server(s) registered:''" "[]"] set
      by simp
  qed
  ultimately show ?thesis by (simp add: answers_def)
qed

text \<open>The metrics.\<close>

lemma gauge_shown:
  assumes "name \<in> set ks"
  shows "Contains (Handler_body ks val sec m) (name @ '' '' @ val name)"
proof -
  have "gauge_lines val name = (''# TYPE '' @ name @ '' gauge'' @ NL) @ (name @ '' '' @ val name) @ NL"
    by (simp add: gauge_lines_def)
  then have "Contains (gauge_lines val name) (name @ '' '' @ val name)" by (metis Contains_parts)
  from Contains_in_concat [where f = "gauge_lines val" and r = name and pre = "[]", OF assms this]
  show ?thesis unfolding Handler_body_def append_Nil .
qed

lemma counter_shown: "Contains (Handler_body ks val sec m) ''# TYPE portal_transfers_total counter''"
proof -
  obtain rest where "Handler_body ks val sec m = concat (map (gauge_lines val) ks) @ ''# TYPE portal_transfers_total counter'' @ rest"
    by (simp add: Handler_body_def)
  then show ?thesis by (metis Contains_parts)
qed

lemma test_metrics_ok:
  assumes "servers (ds_registry ss) = [''lobby1'' \<mapsto> r, ''lobby2'' \<mapsto> Suc r]" "ds_clients ss = [''lobby1'' \<mapsto> 0, ''lobby2'' \<mapsto> 1]"
    and "range_order (servers (ds_registry ss)) (ge_servers env)" "range_order (ds_clients ss) (ge_clients env)"
    and "set (ge_gauges env) = {''portal_players_online'', ''portal_servers_registered'', ''portal_socket_clients_connected''}"
    and "ge_format env 2 = ''2''" "ge_listen env = None" "ge_scrape env = None"
  shows "adds PASS 3 (test_metrics env m ss)"
proof -
  have two: "servers_registered (ge_servers env) (ds_registry ss) = 2" "socket_clients_connected (ge_clients env) ss = 2"
    using length_range_vals [OF assms(3)] length_range_vals [OF assms(4)] assms(1,2)
    by (simp_all add: servers_registered_def socket_clients_connected_def Servers_def Clients_def)
  have vals: "gauge_value env ss ''portal_servers_registered'' = ''2''" "gauge_value env ss ''portal_socket_clients_connected'' = ''2''"
    by (simp_all add: gauge_value_def two assms(6))
  let ?m = "RegisterGauge ''portal_socket_clients_connected'' 2 (RegisterGauge ''portal_servers_registered'' 1
    (RegisterGauge ''portal_players_online'' 0 m))"
  let ?b = "Handler_body (ge_gauges env) (gauge_value env ss) (ge_seconds env) ?m"
  have shown: "name \<in> set (ge_gauges env) \<Longrightarrow> Contains ?b (name @ '' '' @ gauge_value env ss name)" for name
    by (rule gauge_shown)
  have names: "''portal_players_online'' \<in> set (ge_gauges env)" "''portal_servers_registered'' \<in> set (ge_gauges env)"
    "''portal_socket_clients_connected'' \<in> set (ge_gauges env)"
    unfolding assms(5) by blast+
  have "Contains ?b ''portal_servers_registered 2''" "Contains ?b ''portal_socket_clients_connected 2''"
    using shown [OF names(2)] shown [OF names(3)] by (simp_all add: vals del: Contains.simps)
  moreover from shown [OF names(1)] have "Contains ?b ''portal_players_online''"
    unfolding Contains_iff by (metis append.assoc)
  moreover have "Contains ?b ''# TYPE portal_transfers_total counter''" by (rule counter_shown)
  ultimately have "adds PASS 3 (\<lambda>rs. harness_check ''4-metrics'' ''prometheus format'' (Contains ?b ''# TYPE portal_transfers_total counter'')
      (harness_check ''4-metrics'' ''players+clients gauges''
         (Contains ?b ''portal_players_online'' \<and> Contains ?b ''portal_socket_clients_connected 2'')
        (harness_check ''4-metrics'' ''servers_registered gauge'' (Contains ?b ''portal_servers_registered 2'') rs)))"
    by (intro adds_intros conjI; (assumption | simp))
  moreover have "test_metrics env m ss = (\<lambda>rs. harness_check ''4-metrics'' ''prometheus format'' (Contains ?b ''# TYPE portal_transfers_total counter'')
      (harness_check ''4-metrics'' ''players+clients gauges''
         (Contains ?b ''portal_players_online'' \<and> Contains ?b ''portal_socket_clients_connected 2'')
        (harness_check ''4-metrics'' ''servers_registered gauge'' (Contains ?b ''portal_servers_registered 2'') rs)))"
    by (rule ext) (simp add: test_metrics_def assms(7,8) Let_def del: Contains.simps)
  ultimately show ?thesis by (simp only:)
qed

text \<open>What the rest of the test relies on: each range visits every key, and the request to drain arrives.\<close>

definition orderly :: "groups_env \<Rightarrow> bool" where
  "orderly env \<longleftrightarrow>
     (\<forall>ks \<in> {ge_servers env, ge_clients env, ae_servers (ge_admin1 env), ae_servers (ge_admin2 env)}.
        distinct ks \<and> set ks = {''lobby1'', ''lobby2''}) \<and>
     set (ge_gauges env) = {''portal_players_online'', ''portal_servers_registered'', ''portal_socket_clients_connected''} \<and>
     ge_format env 2 = ''2'' \<and> ge_listen env = None \<and> ge_scrape env = None \<and> carries (ge_drain env) (ge_drainSent env)"

lemma two_lobbies_orders:
  assumes "two_lobbies r ss" "orderly env"
  shows "range_order (servers (ds_registry ss)) (ge_servers env)" "range_order (ds_clients ss) (ge_clients env)"
    "range_order (servers (ds_registry ss)) (ae_servers (ge_admin1 env))"
    "range_order (servers (ds_registry ss)) (ae_servers (ge_admin2 env))"
  using assms by (simp_all add: two_lobbies_def orderly_def range_order_def insert_commute)

lemma ran_lobbies: "ran [''lobby1'' \<mapsto> r, ''lobby2'' \<mapsto> Suc r] = {r, Suc r}"
  by (simp add: ran_map_upd insert_commute)

text \<open>What the console shows before and after draining.\<close>

lemma servers_shown:
  assumes "servers (po_serverRegistry p) = [''lobby1'' \<mapsto> r, ''lobby2'' \<mapsto> Suc r]"
    and "range_order (servers (po_serverRegistry p)) (ae_servers env)" "q \<in> {r, Suc r}"
    and "\<And>out. (\<And>t. Contains (server_line (w_srv (po_world p)) q) t \<Longrightarrow> Contains out t) \<Longrightarrow> expected out"
  shows "answers env ''servers'' p expected"
proof (rule answers_servers [OF assms(2)])
  show "ran (servers (po_serverRegistry p)) \<noteq> {}" by (simp add: assms(1) ran_lobbies)
  show "expected out" if "\<And>r t. r \<in> ran (servers (po_serverRegistry p)) \<Longrightarrow>
      Contains (server_line (w_srv (po_world p)) r) t \<Longrightarrow> Contains out t" for out
    using assms(3) by (intro assms(4) that [of q]) (simp_all only: assms(1) ran_lobbies)
qed

lemma test_groups_ok:
  assumes "two_lobbies r ss" "linked c b ss" "authenticated ss c" "client_name ss c = ''Lobby2''" "ds_deadline ss c = None"
    and "orderly env"
  shows "adds PASS 9 (\<lambda>rs. fst (test_groups env m p (c, b) ss rs))" "snd (test_groups env m p (c, b) ss rs) = None"
proof -
  note ord = two_lobbies_orders [OF assms(1,6)]
  have l: "Registry_Server (ds_registry ss) ''Lobby1'' = Some r" "Registry_Server (ds_registry ss) ''Lobby2'' = Some (Suc r)"
    using assms(1) by (simp_all add: two_lobbies_def Registry_Server_def lobby_lower)
  have at: "srv_at (w_srv (ds_world ss)) r = server_New ''Lobby1'' ''127.0.0.1:1'' TransportRakNet ''lobby'' 1 False"
    "srv_at (w_srv (ds_world ss)) (Suc r) = server_New ''Lobby2'' ''127.0.0.1:1'' TransportRakNet ''lobby'' 3 False"
    using assms(1) by (simp_all add: two_lobbies_def)
  have len: "length (Servers (ds_registry ss) (ge_servers env)) = 2"
    using length_range_vals [OF ord(1)] assms(1) by (simp add: Servers_def two_lobbies_def)
  have shown1: "answers (ge_admin1 env) ''servers'' (shared p ss)
      (\<lambda>out. Contains out (''group='' @ Quote ''lobby'') \<and> Contains out ''draining=false'')"
  proof (rule servers_shown [where q = r and r = r])
    fix out assume "\<And>t. Contains (server_line (w_srv (po_world (shared p ss))) r) t \<Longrightarrow> Contains out t"
    from this [OF server_line_shows(2)] this [OF server_line_shows(3)]
    show "Contains out (''group='' @ Quote ''lobby'') \<and> Contains out ''draining=false''"
      by (simp add: shared_def at server_New_def Draining_def show_bool_def del: Contains.simps)
  qed (use assms(1) ord in \<open>simp_all add: shared_def two_lobbies_def\<close>)
  have io: "wire_laws (se_io (ge_drain env))" "sendable (se_io (ge_drain env)) (SetServerDrainingPk pk)"
    "whole (se_io (ge_drain env)) (SetServerDrainingPk pk) (ge_drainSent env)" for pk
    using assms(6) by (simp_all add: orderly_def carries_def)
  have att: "attentive (ge_drain env) c ss" using assms(3,5) by (simp add: attentive_def past_def)
  have drains: "Registry_Server (ds_registry ss) (client_name ss c) = Some (Suc r)" by (simp add: l assms(4))
  let ?s1 = "ss\<lparr>ds_world := (ds_world ss)\<lparr>w_srv := SetDraining (Suc r) True (w_srv (ds_world ss))\<rparr>\<rparr>"
  from exchange_draining [OF io(1,2) assms(2) att io(3) assms(3) drains, of ?s1 "\<lparr>sd_Draining = True\<rparr>"] obtain b' s' f where
    ex: "exchange (ge_drain env) (ge_drainSent env) (SetServerDrainingPk \<lparr>sd_Draining = True\<rparr>) c (b, ss) = (None, b', s')"
      "s' = set_deadline c None (upd_client c f ?s1)" by auto
  have s': "ds_registry s' = ds_registry ss" "w_srv (ds_world s') = SetDraining (Suc r) True (w_srv (ds_world ss))"
    "w_published (ds_world s') = w_published (ds_world ss)" "ds_clients s' = ds_clients ss"
    by (simp_all add: ex(2) set_deadline_def upd_client_def)
  have drained: "Draining (w_srv (ds_world s')) (Suc r)" "\<not> Draining (w_srv (ds_world s')) r"
    by (simp_all add: s' SetDraining_def Draining_def at server_New_def)
  have shown2: "answers (ge_admin2 env) ''servers'' (shared p s') (\<lambda>out. Contains out ''Lobby2'' \<and> Contains out ''draining=true'')"
  proof (rule servers_shown [where q = "Suc r" and r = r])
    fix out assume sh: "\<And>t. Contains (server_line (w_srv (po_world (shared p s'))) (Suc r)) t \<Longrightarrow> Contains out t"
    have "Name (w_srv (ds_world s')) (Suc r) = ''Lobby2''" by (simp add: s' SetDraining_def at server_New_def)
    with sh [OF server_line_shows(1)] sh [OF server_line_shows(3)] drained(1)
    show "Contains out ''Lobby2'' \<and> Contains out ''draining=true''"
      by (simp add: shared_def show_bool_def del: Contains.simps)
  qed (use assms(1) ord in \<open>simp_all add: shared_def two_lobbies_def s'\<close>)
  have metrics: "adds PASS 3 (test_metrics env m s')"
    using assms(1,6) ord by (intro test_metrics_ok [of s' r]) (simp_all add: s' two_lobbies_def orderly_def)
  have fired: "count_topic TopicServerRegistered (w_published (ds_world s')) = 2"
    using assms(1) by (simp add: s' two_lobbies_def count_topic_def)
  have weights: "sv_group (srv_at (w_srv (ds_world ss)) r) = ''lobby''" "Weight (w_srv (ds_world ss)) r = 1"
    "sv_group (srv_at (w_srv (ds_world ss)) (Suc r)) = ''lobby''" "Weight (w_srv (ds_world ss)) (Suc r) = 3"
    by (simp_all add: at server_New_def Weight_def)
  have all: "test_groups env m p (c, b) ss = (\<lambda>rs. (test_metrics env m s'
      (harness_check ''5-events'' ''server_registered fired'' True
      (harness_check ''3-groups'' ''admin shows draining'' True
      (harness_check ''3-groups'' ''draining applied'' True
      (harness_check ''6-admin'' ''servers command'' True
      (harness_check ''3-groups'' ''group+weight stored'' True
      (harness_check ''3-groups'' ''both registered'' True rs)))))), None))"
    unfolding test_groups_def l len weights Let_def fst_conv snd_conv prod.case ex(1)
    using shown1 shown2 drained fired by (simp add: weights del: Contains.simps)
  show "adds PASS 9 (\<lambda>rs. fst (test_groups env m p (c, b) ss rs))"
    unfolding all fst_conv by (rule adds_more [where m = 6, OF _ metrics], intro adds_intros TrueI; simp)
  show "snd (test_groups env m p (c, b) ss rs) = None" by (simp add: all)
qed

lemma testGroupsDrainingAdminMetrics_ok:
  assumes "prompt g1" "prompt g2" "orderly env"
  shows "adds PASS 9 (\<lambda>rs. fst (testGroupsDrainingAdminMetrics (Inr l) w g1 g2 env m rs))"
    "snd (testGroupsDrainingAdminMetrics (Inr l) w g1 g2 env m rs) = None"
proof -
  let ?s = "(NewDefaultServer harness_secret NewDefaultRegistry (po_world (portal_New harness_options w)))\<lparr>ds_listener := Some l\<rparr>"
  from register_both [where w = w and l = l, OF assms(1,2) refl] obtain b1 s1 b2 s2 where
    r: "register g1 ''Lobby1'' ''lobby'' 1 ?s = (Inr (0, b1), s1)" "register g2 ''Lobby2'' ''lobby'' 3 s1 = (Inr (1, b2), s2)"
      "two_lobbies (srv_next (w_srv w)) s2" "linked 1 b2 s2" "authenticated s2 1" "client_name s2 1 = ''Lobby2''"
      "ds_deadline s2 1 = None" by blast
  have run: "testGroupsDrainingAdminMetrics (Inr l) w g1 g2 env m rs =
      test_groups env m (portal_New harness_options w) (1, b2) s2 rs" for rs
    unfolding testGroupsDrainingAdminMetrics_def newStack_opens fst_conv sum.case prod.case r(1,2) ..
  note passes = test_groups_ok [OF r(3-7) assms(3)]
  show "adds PASS 9 (\<lambda>rs. fst (testGroupsDrainingAdminMetrics (Inr l) w g1 g2 env m rs))"
    "snd (testGroupsDrainingAdminMetrics (Inr l) w g1 g2 env m rs) = None"
    unfolding run by (fact passes)+
qed

section \<open>Shutdown\<close>

text \<open>What the test finds: the registration, the outcomes of closing, and the late login. Dialling sees which sockets are
  open.\<close>

record shutdown_env =
  sh_register :: registration
  sh_close :: "go_error option"
  sh_dial :: "handle set \<Rightarrow> go_error + string"
  sh_now :: time
  sh_auth :: sock_env
  sh_authSent :: "nat \<times> io_error option"
  sh_listenerErr :: "go_error option"
  sh_closeEnv :: close_env

definition testGracefulShutdownPartial :: "go_error + handle \<Rightarrow> world \<Rightarrow> shutdown_env \<Rightarrow> results \<Rightarrow> results" where
  "testGracefulShutdownPartial opened w env rs =
     (case newStack opened w {} of
        (Inl err, H) \<Rightarrow> harness_rec ''10-shutdown'' ''start socket'' FAIL rs
      | (Inr (p, ss), H) \<Rightarrow>
          (case register (sh_register env) ''svc'' '''' 1 ss of
             (Inl err, ss) \<Rightarrow> harness_rec ''10-shutdown'' ''register'' FAIL rs
           | (Inr cb, ss) \<Rightarrow>
               (case Server_Close (sh_close env) ss H of
                  (Some err, ss, H) \<Rightarrow> harness_rec ''10-shutdown'' ''socket close'' FAIL rs
                | (None, ss, H) \<Rightarrow>
                    let refused =
                          (case dialClient (sh_dial env H) (sh_now env) ss of
                             (Inl err, ss) \<Rightarrow> True
                           | (Inr (c, b), ss) \<Rightarrow>
                               (case fst (authClient (sh_auth env) (sh_authSent env) harness_secret ''late'' c (b, ss)) of
                                  Inl err \<Rightarrow> True
                                | Inr st \<Rightarrow> st \<noteq> AuthResponseSuccess));
                        rs = harness_check ''10-shutdown'' ''listener closed'' refused rs
                    in harness_check ''10-shutdown'' ''portal close safe''
                         (fst (Portal_Close (sh_listenerErr env) (sh_closeEnv env) (shared p ss) H) = None) rs)))"

text \<open>What the test relies on: the registration arrives in time, closing the listener gives no error, and no connection can
  be made to a socket that is closed.\<close>

definition refuses :: "handle \<Rightarrow> shutdown_env \<Rightarrow> bool" where
  "refuses l env \<longleftrightarrow>
     prompt (sh_register env) \<and> sh_close env = None \<and> (\<forall>H. l \<notin> H \<longrightarrow> (\<exists>err. sh_dial env H = Inl err))"

lemma testGracefulShutdownPartial_ok:
  assumes "refuses l env"
  shows "adds PASS 2 (testGracefulShutdownPartial (Inr l) w env)"
proof -
  let ?p = "portal_New harness_options w"
  let ?s = "(NewDefaultServer harness_secret NewDefaultRegistry (po_world ?p))\<lparr>ds_listener := Some l\<rparr>"
  have g: "prompt (sh_register env)" "sh_close env = None" using assms by (simp_all add: refuses_def)
  have s: "ds_throttle ?s = newAuthThrottle" "ds_secret ?s = harness_secret" "ds_clients ?s (ToLower ''svc'') = None"
    by (simp_all add: NewDefaultServer_def)
  have "short ''svc''" "short ''''" by (simp_all add: short_def str_ok_def)
  from register_prompt [OF g(1) s this, of 1] obtain b s' where
    r: "register (sh_register env) ''svc'' '''' 1 ?s = (Inr (ds_next ?s, b), s')" "ds_listener s' = Some l"
    by (auto simp: registered_as_def Let_def)
  let ?c = "s'\<lparr>ds_throttle := Close_throttle (ds_throttle s')\<rparr>"
  have cl: "Server_Close (sh_close env) s' {l} = (None, ?c, {})" using r(2) g(2) by (simp add: Server_Close_def Let_def)
  from assms obtain err where "sh_dial env {} = Inl err" unfolding refuses_def by blast
  then have d: "dialClient (sh_dial env {}) (sh_now env) ?c = (Inl err, ?c)" by (simp add: dialClient_def)
  have pc: "fst (Portal_Close (sh_listenerErr env) (sh_closeEnv env) (shared ?p ?c) {}) = None"
    by (simp add: Portal_Close_def shared_def portal_New_def)
  have "testGracefulShutdownPartial (Inr l) w env = (\<lambda>rs. harness_check ''10-shutdown'' ''portal close safe'' True
      (harness_check ''10-shutdown'' ''listener closed'' True rs))"
    by (rule ext) (simp only: testGracefulShutdownPartial_def newStack_opens prod.case sum.case r(1) cl d pc option.case Let_def simp_thms)
  then show ?thesis by (simp only:) (intro adds_intros TrueI; simp)
qed

end
