(* ===== verification/HarnessCluster.thy ===== *)
theory HarnessCluster
  imports HarnessSockets Cluster
begin

text \<open>
  The test of the cluster in the integration test (\<^verbatim>\<open>testClustering\<close> of \<^verbatim>\<open>tools/harness/main.go\<close>): the ownership of records,
  and a backend that finds a player of another proxy through the socket server.
\<close>

section \<open>Requests with an answer\<close>

lemma exchange_answered:
  assumes "wire_laws (se_io env)" "sendable (se_io env) pk" "linked c b s" "attentive env c s" "whole (se_io env) pk sent"
    and "authenticated s c" "packet_handlers (packet_ID pk) = Some h" "\<And>pk'. packet_vis pk' = packet_vis pk \<Longrightarrow> pk' = pk"
    and "\<And>p. Handle h env pk c (upd_client c (\<lambda>cl. cl\<lparr>cl_pool := p\<rparr>) s) =
      reply env ans c (upd_client c (\<lambda>cl. cl\<lparr>cl_pool := p\<rparr>) s)"
    and "sendable (se_io env) ans" "whole (se_io env) ans (se_write env)"
  shows "\<exists>b' s' b'' ans'. exchange env sent pk c (b, s) = (None, b', s') \<and> ReadPacket (se_io env) b' = (Inr ans', b'') \<and>
    packet_vis ans' = packet_vis ans"
proof -
  from exchange_linked [OF assms(1-5)] obtain pk' p where
    p: "pool_wf p" and vis: "packet_vis pk' = packet_vis pk"
    and ex: "exchange env sent pk c (b, s) = (None, to_backend c (b\<lparr>cl_hdr := \<lparr>PacketID = packet_ID pk\<rparr>\<rparr>,
       snd (handle_packet env pk' c (upd_client c (\<lambda>cl. cl\<lparr>cl_pool := p\<rparr>) s))))" .
  let ?s = "upd_client c (\<lambda>cl. cl\<lparr>cl_pool := p\<rparr>) s" and ?b = "b\<lparr>cl_hdr := \<lparr>PacketID = packet_ID pk\<rparr>\<rparr>"
  have pk': "pk' = pk" using vis assms(8) by simp
  have rest: "resting (ds_client ?s c)" "\<not> cl_closed (ds_client ?s c)" "resting ?b"
    using assms(3) p by (simp_all add: linked_def resting_def)
  from reply_whole [OF rest(1) assms(11)] rest(2) assms(6) obtain t where
    r: "reply env ans c ?s = (HandledOk, t)" "cl_out (ds_client t c) = frame_of (se_io env) ans" "authenticated t c" by simp
  let ?t = "set_deadline c None t"
  have h: "Handle h env pk c ?s = (HandledOk, t)" using assms(9) [of p] r(1) by simp
  have "handle_packet env pk c ?s = (Again, ?t)"
    unfolding handle_packet_def assms(7) option.case h using assms(6) r(3) by simp
  then have e: "exchange env sent pk c (b, s) = (None, to_backend c (?b, ?t))" unfolding ex pk' by simp
  have out: "cl_out (ds_client ?t c) = frame_of (se_io env) ans" using r(2) by (simp add: set_deadline_def)
  from answer_received [OF assms(1,10) rest(3) out] obtain ans' q where
    "ReadPacket (se_io env) (fst (to_backend c (?b, ?t))) = (Inr ans', ?b\<lparr>cl_pool := q\<rparr>)" "packet_vis ans' = packet_vis ans" .
  with e show ?thesis by (metis prod.collapse)
qed

lemma handler_of_find: "packet_handlers (packet_ID (FindPlayerRequestPk pk)) = Some FindPlayerRequestHandler"
  by (simp add: packet_handlers_def RegisterHandler_def ID_defs)

lemma online_visible:
  "FindPlayerResponse_vis x = FindPlayerResponse_vis r \<Longrightarrow> fr_Online r \<Longrightarrow> x = r"
  by (cases x) (auto simp: FindPlayerResponse_vis_def split: if_splits)

lemma exchange_find:
  assumes "wire_laws (se_io env)" "sendable (se_io env) (FindPlayerRequestPk pk)" "linked c b s" "attentive env c s"
    and "whole (se_io env) (FindPlayerRequestPk pk) sent" "authenticated s c"
    and "find_session pk (w_store (ds_world s)) = None" "se_cluster env = Some lookup" "fq_PlayerName pk \<noteq> ''''"
    and "lookup (fq_PlayerName pk) = Inr (proxy, server, True)"
    and "sendable (se_io env) (find_response pk True server proxy)"
    and "whole (se_io env) (find_response pk True server proxy) (se_write env)"
  shows "\<exists>b' s' b''. exchange env sent (FindPlayerRequestPk pk) c (b, s) = (None, b', s') \<and>
    ReadPacket (se_io env) b' = (Inr (find_response pk True server proxy), b'')"
proof -
  have "\<exists>b' s' b'' ans'. exchange env sent (FindPlayerRequestPk pk) c (b, s) = (None, b', s') \<and>
      ReadPacket (se_io env) b' = (Inr ans', b'') \<and> packet_vis ans' = packet_vis (find_response pk True server proxy)"
  proof (rule exchange_answered [OF assms(1-6) handler_of_find _ _ assms(11,12)])
    show "pk' = FindPlayerRequestPk pk" if "packet_vis pk' = packet_vis (FindPlayerRequestPk pk)" for pk'
      using that by (cases pk') simp_all
    show "Handle FindPlayerRequestHandler env (FindPlayerRequestPk pk) c (upd_client c (\<lambda>cl. cl\<lparr>cl_pool := p\<rparr>) s) =
        reply env (find_response pk True server proxy) c (upd_client c (\<lambda>cl. cl\<lparr>cl_pool := p\<rparr>) s)" for p
      using assms(7-10) by (simp add: Handle_def FindPlayerRequest_Handle_def cluster_response_def upd_client_def Let_def)
  qed
  moreover have "ans' = find_response pk True server proxy" if "packet_vis ans' = packet_vis (find_response pk True server proxy)" for ans'
    using that by (cases ans') (simp_all add: find_response_def online_visible)
  ultimately show ?thesis by metis
qed

section \<open>The test\<close>

text \<open>What the test finds: whether Redis is there, the clock and the outcome of its requests in their order, and the backend's
  dialling, login and request.\<close>

record cluster_env =
  ct_ping :: "go_error option"
  ct_at :: "nat \<Rightarrow> time"
  ct_update :: "nat \<Rightarrow> request"
  ct_failed :: "nat \<Rightarrow> go_error option"
  ct_dial :: "go_error + string"
  ct_now :: time
  ct_auth :: sock_env
  ct_authSent :: "nat \<times> io_error option"
  ct_find :: sock_env
  ct_findSent :: "nat \<times> io_error option"

fun online_in :: "go_error + string \<times> string \<times> bool \<Rightarrow> bool" where
  "online_in (Inl err) = False"
| "online_in (Inr (proxyID, server, online)) = online"

definition find_alice :: FindPlayerRequest where
  "find_alice = \<lparr>fq_PlayerUUID = 0, fq_PlayerName = ''Alice''\<rparr>"

text \<open>The search through the socket server, whose cluster is the same Redis.\<close>

definition test_find ::
  "'db redis \<Rightarrow> cluster_env \<Rightarrow> RedisBackend \<Rightarrow> go_error + handle \<Rightarrow> world \<Rightarrow> 'db \<Rightarrow> results \<Rightarrow> results" where
  "test_find rd env backend opened w db rs =
     (case fst (newStack opened w {}) of
        Inl err \<Rightarrow> harness_rec ''11-cluster'' ''start socket'' FAIL rs
      | Inr (p, ss) \<Rightarrow>
          let db = snd (Announce rd backend (ct_at env 7) (ct_update env 7) ''proxy-a'' ''Alice'' ''survival'' db);
              cluster = Some (\<lambda>name. Lookup rd (ct_at env 8) (ct_failed env 8) name db)
          in case dialClient (ct_dial env) (ct_now env) ss of
               (Inl err, ss) \<Rightarrow> harness_rec ''11-cluster'' ''dial'' FAIL rs
             | (Inr (c, b), ss) \<Rightarrow>
                 (case authClient ((ct_auth env)\<lparr>se_cluster := cluster\<rparr>) (ct_authSent env) harness_secret ''finder'' c (b, ss) of
                    (st, b, ss) \<Rightarrow>
                      if st \<noteq> Inr AuthResponseSuccess then harness_rec ''11-cluster'' ''auth finder'' FAIL rs
                      else
                        (case exchange ((ct_find env)\<lparr>se_cluster := cluster\<rparr>) (ct_findSent env) (FindPlayerRequestPk find_alice)
                                c (b, ss) of
                           (Some err, bs) \<Rightarrow> harness_rec ''11-cluster'' ''send find'' FAIL rs
                         | (None, b, ss) \<Rightarrow>
                             (case fst (ReadPacket (se_io (ct_find env)) b) of
                                Inl err \<Rightarrow> harness_rec ''11-cluster'' ''read find response'' FAIL rs
                              | Inr pk \<Rightarrow> harness_check ''11-cluster'' ''cross-proxy find''
                                  (case pk of
                                     FindPlayerResponsePk fpr \<Rightarrow>
                                       fr_Online fpr \<and> fr_Proxy fpr = ''proxy-a'' \<and> fr_Server fpr = ''survival''
                                   | _ \<Rightarrow> False) rs))))"

definition testClustering ::
  "'db redis \<Rightarrow> cluster_env \<Rightarrow> go_error + handle \<Rightarrow> world \<Rightarrow> 'db \<Rightarrow> results \<Rightarrow> results" where
  "testClustering rd env opened w db rs =
     (case NewRedisBackend (ct_ping env) (300 * Second) of
        Inl err \<Rightarrow> harness_rec ''11-cluster'' ''redis backend'' SKIP rs
      | Inr backend \<Rightarrow>
          let db = snd (Remove rd (ct_at env 0) (ct_update env 0) ''proxy-a'' ''Steve'' db)
          in case Announce rd backend (ct_at env 1) (ct_update env 1) ''proxy-a'' ''Steve'' ''lobby'' db of
               (Some err, db) \<Rightarrow> harness_rec ''11-cluster'' ''announce'' FAIL rs
             | (None, db) \<Rightarrow>
                 let rs = harness_check ''11-cluster'' ''announce+lookup''
                            (Lookup rd (ct_at env 2) (ct_failed env 2) ''Steve'' db = Inr (''proxy-a'', ''lobby'', True)) rs;
                     db = snd (Remove rd (ct_at env 3) (ct_update env 3) ''proxy-b'' ''Steve'' db);
                     rs = harness_check ''11-cluster'' ''ownership-safe remove''
                            (online_in (Lookup rd (ct_at env 4) (ct_failed env 4) ''Steve'' db)) rs;
                     db = snd (Remove rd (ct_at env 5) (ct_update env 5) ''proxy-a'' ''Steve'' db);
                     rs = harness_check ''11-cluster'' ''owner remove deletes''
                            (\<not> online_in (Lookup rd (ct_at env 6) (ct_failed env 6) ''Steve'' db)) rs
                 in test_find rd env backend opened w db rs)"

section \<open>The test passes\<close>

text \<open>What the test relies on, when Redis is there: its requests are answered, the records do not expire in the meantime, and
  the network carries the packets.\<close>

definition cluster_works :: "cluster_env \<Rightarrow> bool" where
  "cluster_works env \<longleftrightarrow>
     (\<forall>i. ct_update env i = Answered \<and> ct_failed env i = None) \<and>
     (\<forall>i \<in> {2, 3, 4, 5}. ct_at env i < ct_at env 1 + 300 * Second) \<and> ct_at env 8 < ct_at env 7 + 300 * Second \<and>
     (\<exists>addr. ct_dial env = Inr addr) \<and> se_readAt (ct_auth env) \<le> ct_now env + authTimeout \<and>
     carries (ct_auth env) (ct_authSent env) \<and> wire_laws (se_io (ct_find env)) \<and>
     sendable (se_io (ct_find env)) (FindPlayerRequestPk find_alice) \<and>
     whole (se_io (ct_find env)) (FindPlayerRequestPk find_alice) (ct_findSent env) \<and>
     sendable (se_io (ct_find env)) (find_response find_alice True ''survival'' ''proxy-a'') \<and>
     whole (se_io (ct_find env)) (find_response find_alice True ''survival'' ''proxy-a'') (se_write (ct_find env))"

lemma login_fits_cluster: "login_fits (env\<lparr>se_cluster := cl\<rparr>) sent sec name = login_fits env sent sec name"
  by (simp add: login_fits_def)

lemma proxy_ids: "CHR ''|'' \<notin> set ''proxy-a''" "CHR ''|'' \<notin> set ''proxy-b''"
  by simp_all

lemma owned_record:
  assumes "redis_laws rd" "ttl > 0" "CHR ''|'' \<notin> set p" "CHR ''|'' \<notin> set q" "t' < t + ttl"
  shows "Lookup rd t' None n (rd_set rd t (playerKey n) (p @ ''|'' @ s) ttl db) = Inr (p, s, True)"
    and "removeScript rd t' (playerKey n) (q @ ''|'') (rd_set rd t (playerKey n) (p @ ''|'' @ s) ttl db) =
      (if p = q then rd_del rd t' (playerKey n) (rd_set rd t (playerKey n) (p @ ''|'' @ s) ttl db)
       else rd_set rd t (playerKey n) (p @ ''|'' @ s) ttl db)"
proof -
  have get: "rd_get rd t' (playerKey n) (rd_set rd t (playerKey n) (p @ ''|'' @ s) ttl db) = Some (p @ ''|'' @ s)"
    using assms(1,2,5) unfolding redis_laws_def by metis
  show "Lookup rd t' None n (rd_set rd t (playerKey n) (p @ ''|'' @ s) ttl db) = Inr (p, s, True)"
    unfolding Lookup_def option.case get using Cut_append [OF assms(3), of s] by simp
  show "removeScript rd t' (playerKey n) (q @ ''|'') (rd_set rd t (playerKey n) (p @ ''|'' @ s) ttl db) =
      (if p = q then rd_del rd t' (playerKey n) (rd_set rd t (playerKey n) (p @ ''|'' @ s) ttl db)
       else rd_set rd t (playerKey n) (p @ ''|'' @ s) ttl db)"
    unfolding removeScript_def get option.case owner_prefix [OF assms(4,3)] ..
qed

lemma deleted_record:
  "redis_laws rd \<Longrightarrow> Lookup rd t' None n (rd_del rd t (playerKey n) db) = Inr ('''', '''', False)"
  by (simp add: Lookup_def redis_laws_def)

lemma test_find_ok:
  assumes "redis_laws rd" "cluster_works env" "backend = \<lparr>rb_ttl = 300 * Second\<rparr>"
  shows "adds PASS 1 (test_find rd env backend (Inr l) w db)"
proof -
  let ?p = "portal_New harness_options w"
  let ?s = "(NewDefaultServer harness_secret NewDefaultRegistry (po_world ?p))\<lparr>ds_listener := Some l\<rparr>"
  let ?db = "rd_set rd (ct_at env 7) (playerKey ''Alice'') (''proxy-a'' @ ''|'' @ ''survival'') (300 * Second) db"
  let ?cl = "Some (\<lambda>name. Lookup rd (ct_at env 8) (ct_failed env 8) name ?db)"
  note env = assms(2) [unfolded cluster_works_def]
  have s: "ds_throttle ?s = newAuthThrottle" "ds_secret ?s = harness_secret" "ds_clients ?s = Map.empty" "ds_next ?s = 0"
    "w_store (ds_world ?s) = NewDefaultStore" by (simp_all add: NewDefaultServer_def portal_New_def)
  have free: "\<not> Blocked addr now (ds_throttle ?s)" for addr now by (simp add: s Blocked_def newAuthThrottle_def)
  from env obtain addr where addr: "ct_dial env = Inr addr" by blast
  from dialClient_opens [OF free] obtain s1 where
    d: "dialClient (ct_dial env) (ct_now env) ?s = (Inr (0, NewClient [] EOF), s1)" "dialled_in addr (ct_now env) ?s s1"
    unfolding addr s(4) by blast
  from d(2) s have s1: "\<not> authenticated s1 0" "ds_secret s1 = harness_secret" "ds_clients s1 = Map.empty"
    "w_store (ds_world s1) = NewDefaultStore" "linked 0 (NewClient [] EOF) s1"
    using dialled_in_linked [OF d(2)] by (simp_all add: dialled_in_def Let_def)
  let ?a = "(ct_auth env)\<lparr>se_cluster := ?cl\<rparr>" and ?f = "(ct_find env)\<lparr>se_cluster := ?cl\<rparr>"
  have fits: "wire_laws (se_io ?a)" "login_fits ?a (ct_authSent env) harness_secret ''finder''"
    unfolding login_fits_cluster using env by (simp_all add: carries_def short_def str_ok_def harness_secret_def)
  have att: "attentive ?a 0 s1"
    using d(2) env free by (simp add: attentive_def AuthBlocked_def past_def dialled_in_def s Let_def)
  from authClient_logs_in [OF fits s1(5) att s1(1)] obtain b2 s2 where
    a: "authClient ?a (ct_authSent env) harness_secret ''finder'' 0 (NewClient [] EOF, s1) =
        (Inr (auth_status harness_secret ''finder'' s1), b2, s2)"
      "linked 0 b2 s2" "logged_in ?a harness_secret ''finder'' 0 s1 s2" by blast
  have ok: "auth_status harness_secret ''finder'' s1 = AuthResponseSuccess" using s1 by (simp add: harness_secret_def)
  have s2: "authenticated s2 0" "ds_world s2 = ds_world s1" "ds_deadline s2 0 = None"
    using a(3) unfolding logged_in_def ok by (simp_all add: Let_def)
  have att2: "attentive ?f 0 s2" using s2 by (simp add: attentive_def past_def)
  have none: "find_session find_alice (w_store (ds_world s2)) = None"
    by (simp add: s2 s1 find_session_def NewDefaultStore_def Store_Load_def Store_LoadFromName_def)
  have look: "Lookup rd (ct_at env 8) (ct_failed env 8) (fq_PlayerName find_alice) ?db = Inr (''proxy-a'', ''survival'', True)"
    using env owned_record(1) [OF assms(1) _ proxy_ids(1,1), where n = "''Alice''" and s = "''survival''"]
    by (simp add: find_alice_def Second_def)
  have f: "wire_laws (se_io ?f)" "sendable (se_io ?f) (FindPlayerRequestPk find_alice)"
    "whole (se_io ?f) (FindPlayerRequestPk find_alice) (ct_findSent env)"
    "sendable (se_io ?f) (find_response find_alice True ''survival'' ''proxy-a'')"
    "whole (se_io ?f) (find_response find_alice True ''survival'' ''proxy-a'') (se_write ?f)" "se_cluster ?f = ?cl"
    "fq_PlayerName find_alice \<noteq> ''''" using env by (simp_all add: find_alice_def)
  from exchange_find [OF f(1,2) a(2) att2 f(3) s2(1) none f(6,7) look f(4,5)] obtain b3 s3 b4 where
    e: "exchange ?f (ct_findSent env) (FindPlayerRequestPk find_alice) 0 (b2, s2) = (None, b3, s3)"
      "ReadPacket (se_io ?f) b3 = (Inr (find_response find_alice True ''survival'' ''proxy-a''), b4)" by blast
  have an: "snd (Announce rd backend (ct_at env 7) (ct_update env 7) ''proxy-a'' ''Alice'' ''survival'' db) = ?db"
    using env by (simp add: Announce_def assms(3))
  have io: "se_io (ct_find env) = se_io ?f" by simp
  have "test_find rd env backend (Inr l) w db = (\<lambda>rs. harness_check ''11-cluster'' ''cross-proxy find'' True rs)"
    unfolding test_find_def newStack_opens fst_conv sum.case prod.case Let_def an d(1) a(1) ok e(1) option.case io e(2)
    by (simp add: find_response_def)
  then show ?thesis by (simp only:) (intro adds_intros TrueI; simp)
qed

text \<open>Without Redis the test is skipped.\<close>

lemma testClustering_skips:
  assumes "ct_ping env = Some err"
  shows "adds SKIP 1 (testClustering rd env opened w db)"
proof -
  have "testClustering rd env opened w db = harness_rec ''11-cluster'' ''redis backend'' SKIP"
    using assms by (simp add: testClustering_def NewRedisBackend_def fun_eq_iff)
  then show ?thesis by (simp only: adds_rec)
qed

lemma testClustering_ok:
  assumes "redis_laws rd" "ct_ping env = None" "cluster_works env"
  shows "adds PASS 4 (testClustering rd env (Inr l) w db)"
proof -
  note env = assms(3) [unfolded cluster_works_def]
  let ?b = "\<lparr>rb_ttl = 300 * Second\<rparr>"
  let ?set = "\<lambda>db. rd_set rd (ct_at env 1) (playerKey ''Steve'') (''proxy-a'' @ ''|'' @ ''lobby'') (300 * Second) db"
  have ttl: "300 * Second > 0" by (simp add: Second_def)
  note look = owned_record(1) [OF assms(1) ttl proxy_ids(1,1), where n = "''Steve''" and s = "''lobby''"]
  note rem = owned_record(2) [OF assms(1) ttl proxy_ids(1), where n = "''Steve''" and s = "''lobby''"]
  let ?db = "?set (snd (Remove rd (ct_at env 0) (ct_update env 0) ''proxy-a'' ''Steve'' db))"
  let ?gone = "rd_del rd (ct_at env 5) (playerKey ''Steve'') ?db"
  have t: "ct_at env 2 < ct_at env 1 + 300 * Second" "ct_at env 3 < ct_at env 1 + 300 * Second"
    "ct_at env 4 < ct_at env 1 + 300 * Second" "ct_at env 5 < ct_at env 1 + 300 * Second" using env by simp_all
  have up: "ct_update env i = Answered" "ct_failed env i = None" for i using env by simp_all
  have an: "Announce rd ?b (ct_at env 1) (ct_update env 1) ''proxy-a'' ''Steve'' ''lobby''
      (snd (Remove rd (ct_at env 0) (ct_update env 0) ''proxy-a'' ''Steve'' db)) = (None, ?db)"
    by (simp add: Announce_def up)
  have r3: "snd (Remove rd (ct_at env 3) (ct_update env 3) ''proxy-b'' ''Steve'' ?db) = ?db"
    unfolding Remove_def up effect.simps snd_conv rem [OF proxy_ids(2) t(2)] by simp
  have r5: "snd (Remove rd (ct_at env 5) (ct_update env 5) ''proxy-a'' ''Steve'' ?db) = ?gone"
    unfolding Remove_def up effect.simps snd_conv rem [OF proxy_ids(1) t(4)] by simp
  have "testClustering rd env (Inr l) w db = (\<lambda>rs. test_find rd env ?b (Inr l) w ?gone
      (harness_check ''11-cluster'' ''owner remove deletes'' True (harness_check ''11-cluster'' ''ownership-safe remove'' True
        (harness_check ''11-cluster'' ''announce+lookup'' True rs))))"
    unfolding testClustering_def NewRedisBackend_def assms(2) option.case sum.case Let_def up an [unfolded up] prod.case
      r3 [unfolded up] r5 [unfolded up] look [OF t(1)] look [OF t(3)] deleted_record [OF assms(1)] online_in.simps by (simp only: simp_thms)
  then show ?thesis
    by (simp only:) (rule adds_more [where m = 3, OF _ test_find_ok [OF assms(1,3) refl]], intro adds_intros TrueI; simp)
qed

end
