(* ===== verification/HarnessRun.thy ===== *)
theory HarnessRun
  imports HarnessHealth HarnessCluster
begin

text \<open>
  The run of the integration test (\<^verbatim>\<open>main\<close> of \<^verbatim>\<open>tools/harness/main.go\<close>): its tests in their order, each isolated by
  \<^verbatim>\<open>runTest\<close>, and the exit code. The TLS test is left out.
\<close>

section \<open>The run\<close>



section \<open>What the run relies on\<close>







section \<open>A run\<close>

















end
