(* ===== verification/Spec2Isabelle.thy ===== *)
theory Spec2Isabelle
  imports ClientView SessionRaces SocketEdges ResourcePacks LogWriter HarnessRun
begin

text \<open>
  A verification of portal, a transfer proxy for Minecraft Bedrock servers, written in Go. Paths are relative to
  \<^verbatim>\<open>src/\<close>.

  \<^bold>\<open>The program.\<close> Players connect to the proxy (\<^verbatim>\<open>portal.go\<close>, \<^verbatim>\<open>transport.go\<close>). A connection that passes the IP guard and
  the whitelist becomes a session (\<^verbatim>\<open>session/\<close>), for which a load balancer picks a server of the registry (\<^verbatim>\<open>server/\<close>);
  two loops then relay packets and translate entity identifiers. A session can be transferred to another server
  without the player noticing more than a change of dimension. Backends connect to a socket server (\<^verbatim>\<open>socket/\<close>),
  authenticate, register themselves and ask for transfers. A health checker pings the servers; events (\<^verbatim>\<open>event/\<close>) tell
  subscribers about it all; proxies share the presence of players through Redis (\<^verbatim>\<open>cluster/\<close>); an operator has a console
  (\<^verbatim>\<open>admin.go\<close>); \<^verbatim>\<open>examples/main.go\<close> puts the parts together.

  \<^bold>\<open>Conventions.\<close> Go strings are \<open>string\<close>, compared without case in ASCII; times are integers of nanoseconds; machine
  integers are words where they can wrap. A Go map is a partial function, and ranging over it takes the order as an
  argument (\<open>range_order\<close>). Pointers are references into a heap or a table of sessions. An error is its text, \<open>None\<close> is
  nil, and a nil dereference is a value of its own (\<open>Panicked\<close>, \<open>HandlePanicked\<close>, \<open>AdminPanicked\<close>). Methods are
  functions on a state that they return updated; what other parties decide (the clock, the network, user code, the
  scheduler, libraries) is an argument. Concurrency is the interleaving of steps: \<open>sys_step\<close> for sessions and
  \<open>sock_step\<close> for connections of backends, with reachability and invariants by rule induction.

  \<^bold>\<open>Theories.\<close>
  \<^item> \<open>Prelude\<close>, \<open>Decimals\<close>: the parts of Go's library that the code uses, and shared lemmas. \<open>OwnedTable\<close>,
    \<open>ExpiringTable\<close>: locales for a table whose entries only their owner removes (the registry, the session store)
    and for tables that evict expired entries (throttle, IP guard), each interpreted on the models.
  \<^item> \<open>Events\<close> (\<^verbatim>\<open>event/\<close>): the bus and the context.
  \<^item> \<open>Servers\<close> (\<^verbatim>\<open>server/server.go\<close>, \<^verbatim>\<open>registry.go\<close>, \<^verbatim>\<open>transport.go\<close>); \<open>Float64\<close>, \<open>LoadBalancer\<close>
    (\<^verbatim>\<open>session/load_balancer.go\<close>): the choice in floating point is the exact one; \<open>HealthChecker\<close>
    (\<^verbatim>\<open>server/health_checker.go\<close>): health follows the run of failures over any run of the loop.
  \<^item> \<open>NetAddr\<close>, \<open>Admission\<close> (\<^verbatim>\<open>session/ip_guard.go\<close>, \<^verbatim>\<open>whitelist.go\<close>), \<open>AuthThrottle\<close> (\<^verbatim>\<open>socket/auth_throttle.go\<close>): limits,
    and that lazy eviction is invisible.
  \<^item> \<open>Wire\<close>, \<open>Packets\<close> (\<^verbatim>\<open>socket/packet/\<close>), \<open>ClientConn\<close> (\<^verbatim>\<open>socket/client.go\<close>): encodings and framing, with round trips and
    safety on arbitrary input.
  \<^item> \<open>SocketServer\<close> (\<^verbatim>\<open>socket/server.go\<close>, \<^verbatim>\<open>handler*.go\<close>, \<^verbatim>\<open>latency.go\<close>), \<open>SocketSteps\<close>: names, registrations and
    authentication in every reachable state, and that the loop returns; \<open>SocketEdges\<close>: where it goes wrong.
  \<^item> \<open>Protocol\<close>, \<open>Translator\<close> (\<^verbatim>\<open>session/translator.go\<close>), \<open>SessionStore\<close> (\<^verbatim>\<open>session/store.go\<close>), \<open>Metrics\<close> (\<^verbatim>\<open>metrics/\<close>),
    \<open>Session\<close> (\<^verbatim>\<open>session/session.go\<close>), \<open>PacketLoops\<close> (\<^verbatim>\<open>session/packet_handler.go\<close>). \<open>SessionSteps\<close>: player counts and reports
    of transfers; \<open>StoreSteps\<close>: the store; \<open>ClientView\<close>: what the client sees after a transfer; \<open>SessionRaces\<close>: orders
    of execution below one step that go wrong.
  \<^item> \<open>Transport\<close> (\<^verbatim>\<open>transport.go\<close>), \<open>Portal\<close> (\<^verbatim>\<open>portal.go\<close>, \<^verbatim>\<open>options.go\<close>, \<^verbatim>\<open>status_provider.go\<close>): sockets and admission; \<open>Admin\<close>
    (\<^verbatim>\<open>admin.go\<close>): the console.
  \<^item> \<open>Cluster\<close> (\<^verbatim>\<open>cluster/redis.go\<close>): the backend refines a directory; \<open>ResourcePacks\<close> (\<^verbatim>\<open>resource_pack_manager.go\<close> and the
    loading in \<^verbatim>\<open>config.go\<close>): reloading; \<open>LogWriter\<close> (\<^verbatim>\<open>log/log.go\<close>).
  \<^item> \<open>Config\<close> (\<^verbatim>\<open>config.go\<close>, \<^verbatim>\<open>examples/main.go\<close>), \<open>Proxy\<close> (\<^verbatim>\<open>examples/main.go\<close>): set-up, presence and shutdown. This theory
    adds what a configuration means for admission.
  \<^item> \<open>Placements\<close>: players who are placed one after the other are shared by weight, for every balancer with the contract
    \<open>greedy_balancer\<close>, interpreted on both balancers. \<open>Backends\<close>: both ends of a connection of a backend, which
    dials, logs in and registers.
  \<^item> \<open>Harness\<close>, \<open>HarnessSockets\<close>, \<open>HarnessHealth\<close>, \<open>HarnessCluster\<close>, \<open>HarnessRun\<close>: the integration test
    (\<^verbatim>\<open>tools/harness/main.go\<close>), each of its tests but the TLS one as a function on the models of the components, and that the
    run passes. What a test waits for, dials or pings is an argument, and \<open>favourable\<close> says what the run relies on.

  \<^bold>\<open>Bounds and termination.\<close> The operations are total functions. The loop over the packets of a connection is a
  \<open>partial_function\<close>, because it need not end; that it does, when the connection ends, is proved. Other endless loops
  (the accept loop, the packet loops) are given by one turn, and sequences of turns are quantified over; the tickers are
  the list of signals they receive. Sums of
  durations in the metrics and durations from the configuration wrap at 64 bits as in Go.

  \<^bold>\<open>Parameters.\<close> Code outside the repository is an argument: the primitives of gophertunnel's protocol package (\<open>wire\<close>,
  with laws), its dialer, listener and resource packs, Redis (\<open>redis_laws\<close>), the JSON coder (\<open>json_laws\<close>), SHA-256,
  \<^verbatim>\<open>url.Parse\<close>, sockets and the file system. Each property that relies on laws has a witness with a concrete instance.

  \<^bold>\<open>Not modelled.\<close> The logger, and what is logged but for the lines that the integration test looks for; HTTP and TLS
  themselves; the three generated byte arrays of
  \<^verbatim>\<open>session/chunk.go\<close> (an argument); the interface for user handlers of \<^verbatim>\<open>session/handler.go\<close> (their decisions are arguments);
  \<^verbatim>\<open>internal/\<close> (an interface and two constants); of the integration test the certificates and the test of TLS, and the
  details that are only printed; the test drivers \<^verbatim>\<open>tools/stress\<close> and \<^verbatim>\<open>tools/e2e\<close>, which run clients and servers of
  gophertunnel against the network and are no part of the proxy. Data races on single words are not modelled: a step reads and
  writes the fields that the code reads and writes between two synchronisation points.
\<close>

section \<open>Admission of players under a configuration\<close>

text \<open>Connections one after the other: each with the time, the orders of the ranges, the registry and the world that
  \<^verbatim>\<open>Accept\<close> finds when it is called. \<open>joined\<close> is the number of sessions that start for a host in the closed interval
  from \<open>a\<close> to \<open>b\<close>.\<close>

record arrival =
  ar_now :: time
  ar_order :: "nat \<Rightarrow> string list"
  ar_registry :: registry
  ar_world :: world
  ar_conn :: incoming

definition accept_arrival :: "disconnecter \<Rightarrow> (string \<Rightarrow> string) \<Rightarrow> arrival \<Rightarrow> Portal \<Rightarrow> accept_result \<times> Portal" where
  "accept_arrival disc C x p =
     Accept disc C (ar_now x) (ar_order x) (Inr (ar_conn x)) (p\<lparr>po_serverRegistry := ar_registry x, po_world := ar_world x\<rparr>)"

fun is_Accepted :: "accept_result \<Rightarrow> bool" where
  "is_Accepted (Accepted i) = True"
| "is_Accepted _ = False"

fun joined ::
  "disconnecter \<Rightarrow> (string \<Rightarrow> string) \<Rightarrow> string \<Rightarrow> time \<Rightarrow> time \<Rightarrow> arrival list \<Rightarrow> Portal \<Rightarrow> int" where
  "joined disc C host a b [] p = 0"
| "joined disc C host a b (x # xs) p =
     (case accept_arrival disc C x p of (r, p') \<Rightarrow>
        of_bool (is_Accepted r \<and> ipHostOf (in_addr (ar_conn x)) = host \<and> a \<le> ar_now x \<and> ar_now x \<le> b) +
        joined disc C host a b xs p')"

definition attempts :: "arrival list \<Rightarrow> (time \<times> net_addr) list" where
  "attempts xs = map (\<lambda>x. (ar_now x, in_addr (ar_conn x))) xs"

lemma refuse_fields [simp]:
  "po_ipGuard (snd (refuse disc c why m p)) = po_ipGuard p" "po_listener (snd (refuse disc c why m p)) = po_listener p"
  "\<not> is_Accepted (fst (refuse disc c why m p))"
  by (simp_all add: refuse_def Portal_Disconnect_def split: prod.split)

lemma start_session_fields [simp]:
  "po_ipGuard (snd (start_session order c p)) = po_ipGuard p" "po_listener (snd (start_session order c p)) = po_listener p"
  by (simp_all add: start_session_def split: prod.split option.split)

text \<open>One arrival: the guard is asked once, and a session needs its consent.\<close>

lemma accept_arrival_guard:
  assumes "po_listener p \<noteq> None" "po_ipGuard p = GuardedBy g" "accept_arrival disc C x p = (r, p')"
    and "SimpleIPGuard_Allow C (in_addr (ar_conn x)) (ar_now x) g = ((ok, msg), g')"
  shows "po_ipGuard p' = GuardedBy g' \<and> po_listener p' \<noteq> None \<and> (is_Accepted r \<longrightarrow> ok)"
proof -
  let ?q = "p\<lparr>po_serverRegistry := ar_registry x, po_world := ar_world x\<rparr>"
  have "po_listener ?q \<noteq> None" using assms(1) by simp
  note acc = Accept_open [OF this, of disc C "ar_now x" "ar_order x" "ar_conn x"]
  have "fst (accept_arrival disc C x p) = r" "snd (accept_arrival disc C x p) = p'" using assms(3) by simp_all
  then show ?thesis
    using assms(1,2,4) unfolding accept_arrival_def acc
    by (cases "SimpleWhitelist_Authorize C (po_whitelist p) (id_DisplayName (in_identity (ar_conn x)))")
      (auto simp: Let_def split: if_splits)
qed

lemma joined_le_admitted:
  assumes "po_listener p \<noteq> None" "po_ipGuard p = GuardedBy g"
  shows "joined disc C host a b xs p \<le> admitted C host a b (attempts xs) g"
  using assms
proof (induction xs arbitrary: p g)
  case (Cons x xs)
  obtain r p' where r: "accept_arrival disc C x p = (r, p')" by fastforce
  obtain ok msg g' where g': "SimpleIPGuard_Allow C (in_addr (ar_conn x)) (ar_now x) g = ((ok, msg), g')"
    by (metis prod.exhaust)
  note step = accept_arrival_guard [OF Cons.prems r g']
  with Cons.IH [of p' g'] have "joined disc C host a b xs p' \<le> admitted C host a b (attempts xs) g'" by blast
  with r g' step show ?case by (auto simp: attempts_def)
qed (simp add: attempts_def)

text \<open>C15: the configured rate limit holds for joining. A proxy set up from a configuration whose rate limit is on starts,
  in any period of the window's length, fewer than twice the configured number of sessions for one host, whatever else
  connects, and whatever happens to the servers and the other sessions in between.\<close>

theorem joins_rate_limited:
  assumes "c_RateLimit_Enabled conf" "1 \<le> c_RateLimit_MaxAttempts conf"
    and "0 \<le> c_RateLimit_WindowSeconds conf" "c_RateLimit_WindowSeconds conf < 9000000000"
    and "ordered_from t (attempts xs)"
    and "p = (proxy_of conf w)\<lparr>po_listener := Some l\<rparr>"
  shows "joined disc C host a (a + c_RateLimit_WindowSeconds conf * Second) xs p \<le> 2 * c_RateLimit_MaxAttempts conf - 1"
proof -
  let ?g = "NewSimpleIPGuard (c_Security_BannedIPs conf) True (c_RateLimit_WindowSeconds conf * Second) (c_RateLimit_MaxAttempts conf)"
  have "po_listener p \<noteq> None" "po_ipGuard p = GuardedBy ?g"
    using assms(1,6) Seconds_small [OF assms(3,4)]
    by (simp_all add: proxy_of_def portal_New_def options_of_def SetLoadBalancer_def Let_def)
  then have "joined disc C host a b xs p \<le> admitted C host a b (attempts xs) ?g" for b
    by (rule joined_le_admitted)
  moreover have "admitted C host a (a + ig_window ?g) (attempts xs) ?g \<le> 2 * ig_limit ?g - 1"
    using assms by (intro admitted_bound [where t = t]) (simp_all add: NewSimpleIPGuard_def counted_def Second_def max_duration_def)
  moreover have "ig_window ?g = c_RateLimit_WindowSeconds conf * Second" "ig_limit ?g = c_RateLimit_MaxAttempts conf"
    by (simp_all add: NewSimpleIPGuard_def)
  ultimately show ?thesis by (metis order_trans)
qed

text \<open>The defaults allow at most nine joins of one host in ten seconds.\<close>

theorem joins_rate_limited_witness:
  "joined (\<lambda>_ _ w. (None, w)) (\<lambda>m. m) ''10.0.0.1'' 0 (0 + 10 * Second)
     [\<lparr>ar_now = 0, ar_order = (\<lambda>_. [''lobby'']), ar_registry = \<lparr>servers = [''lobby'' \<mapsto> 0]\<rparr>, ar_world = ex_world, ar_conn = ex_incoming\<rparr>]
     ((proxy_of DefaultConfig ex_world)\<lparr>po_listener := Some 14\<rparr>) \<le> 9"
proof -
  let ?xs = "[\<lparr>ar_now = 0, ar_order = (\<lambda>_. [''lobby'']), ar_registry = \<lparr>servers = [''lobby'' \<mapsto> 0]\<rparr>, ar_world = ex_world,
    ar_conn = ex_incoming\<rparr>]"
  have c: "c_RateLimit_Enabled DefaultConfig" "c_RateLimit_MaxAttempts DefaultConfig = 5" "c_RateLimit_WindowSeconds DefaultConfig = 10"
    by (simp_all add: DefaultConfig_def)
  have "ordered_from 0 (attempts ?xs)" by (simp add: attempts_def)
  from joins_rate_limited [OF c(1) _ _ _ this refl, where disc = "\<lambda>_ _ w. (None, w)" and C = "\<lambda>m. m"
      and host = "''10.0.0.1''" and a = 0 and w = ex_world and l = 14]
  show ?thesis by (simp add: c del: joined.simps)
qed

end
